theory Spec2Isabelle
  imports Complex_Main "HOL-Library.Word"
begin

section \<open>Vectors (\<open>Vector3\<close> of the math package)\<close>

text \<open>
  The engine's \<open>Vector3\<close> class lives in the math package, which the sources at hand
  only import. JavaScript numbers are idealised as reals throughout.
\<close>

record vec3 =
  vx :: real
  vy :: real
  vz :: real

definition V3 :: "real \<Rightarrow> real \<Rightarrow> real \<Rightarrow> vec3" where
  "V3 a b c = \<lparr>vx = a, vy = b, vz = c\<rparr>"

text \<open>Modelled from the spec: \<open>Vector3.sub\<close> of the math package (componentwise difference).\<close>
definition v_sub :: "vec3 \<Rightarrow> vec3 \<Rightarrow> vec3" where
  "v_sub a b = V3 (vx a - vx b) (vy a - vy b) (vz a - vz b)"

text \<open>Modelled from the spec: \<open>Vector3.add\<close> of the math package (componentwise sum).\<close>
definition v_add :: "vec3 \<Rightarrow> vec3 \<Rightarrow> vec3" where
  "v_add a b = V3 (vx a + vx b) (vy a + vy b) (vz a + vz b)"

text \<open>Modelled from the spec: \<open>Vector3.scale\<close> of the math package (multiplication by a scalar).\<close>
definition v_scale :: "vec3 \<Rightarrow> real \<Rightarrow> vec3" where
  "v_scale a k = V3 (vx a * k) (vy a * k) (vz a * k)"

text \<open>Modelled from the spec: \<open>Vector3.dot\<close> of the math package.\<close>
definition v_dot :: "vec3 \<Rightarrow> vec3 \<Rightarrow> real" where
  "v_dot a b = vx a * vx b + vy a * vy b + vz a * vz b"

text \<open>Modelled from the spec: \<open>Vector3.cross\<close> of the math package (right-handed cross product).\<close>
definition v_cross :: "vec3 \<Rightarrow> vec3 \<Rightarrow> vec3" where
  "v_cross a b = V3 (vy a * vz b - vz a * vy b) (vz a * vx b - vx a * vz b) (vx a * vy b - vy a * vx b)"

text \<open>Modelled from the spec: the getter \<open>Vector3.length\<close> of the math package (Euclidean norm).\<close>
definition v_length :: "vec3 \<Rightarrow> real" where
  "v_length a = sqrt (v_dot a a)"

text \<open>Modelled from the spec: \<open>Vector3.normalize\<close> of the math package; the zero vector is
  returned as it is.\<close>
definition v_normalize :: "vec3 \<Rightarrow> vec3" where
  "v_normalize a = (if v_length a = 0 then a else v_scale a (1 / v_length a))"

section \<open>Rays (\<open>Ray\<close>)\<close>

record ray =
  ray_origin :: vec3
  ray_direction :: vec3

record ray_triangle_intersection =
  hit_t :: real
  hit_point :: vec3
  hit_faceNormal :: vec3

definition EPSILON :: real where
  "EPSILON = 1 / 1000000"

definition ray_at :: "ray \<Rightarrow> real \<Rightarrow> vec3" where
  "ray_at r k = v_add (ray_origin r) (v_scale (ray_direction r) k)"

text \<open>\<open>Ray.intersectTriangle\<close> (M\"oller--Trumbore); \<open>None\<close> is the source's \<open>null\<close>.\<close>

definition intersectTriangle :: "ray \<Rightarrow> vec3 \<Rightarrow> vec3 \<Rightarrow> vec3 \<Rightarrow> ray_triangle_intersection option" where
  "intersectTriangle r a b c =
    (let edge1 = v_sub b a;
         edge2 = v_sub c a;
         fN = v_normalize (v_cross edge1 edge2);
         h = v_cross (ray_direction r) edge2;
         det = v_dot edge1 h
     in if \<bar>det\<bar> < EPSILON then None
        else
          let invDet = 1 / det;
              s = v_sub (ray_origin r) a;
              u = invDet * v_dot s h
          in if u < 0 \<or> u > 1 then None
             else
               let q = v_cross s edge1;
                   v = invDet * v_dot (ray_direction r) q
               in if v < 0 \<or> u + v > 1 then None
                  else
                    let k = invDet * v_dot edge2 q
                    in if k > EPSILON
                       then Some \<lparr>hit_t = k, hit_point = ray_at r k, hit_faceNormal = fN\<rparr>
                       else None)"

text \<open>The triangle of the test suite.\<close>

definition tri_a :: vec3 where "tri_a = V3 (-1) (-1) 0"
definition tri_b :: vec3 where "tri_b = V3 1 (-1) 0"
definition tri_c :: vec3 where "tri_c = V3 0 1 0"

section \<open>The graphics device\<close>

text \<open>
  The device is the platform's: it hands out objects, and an object's identity is its handle.
  Every \<open>create...\<close> call returns a handle never returned before.
\<close>

type_synonym handle = nat

text \<open>
  A byte of a buffer is an octet, or byte \<open>k\<close> of the little-endian binary32 encoding of a
  number; the encoding is not computed, it plays no part in what is proved here.
\<close>

datatype byte = Octet "8 word" | Float32Byte real nat

datatype topology = PointList | LineList | LineStrip | TriangleList | TriangleStrip

fun topology_string :: "topology \<Rightarrow> string" where
  "topology_string PointList = ''point-list''"
| "topology_string LineList = ''line-list''"
| "topology_string LineStrip = ''line-strip''"
| "topology_string TriangleList = ''triangle-list''"
| "topology_string TriangleStrip = ''triangle-strip''"

record vertex_attribute =
  shaderLocation :: nat
  attr_offset :: nat
  attr_format :: string

record vertex_buffer_layout =
  arrayStride :: nat
  attributes :: "vertex_attribute list"

record pipeline_descriptor =
  pd_label :: string
  pd_vertex_module :: handle
  pd_fragment_module :: handle
  pd_buffers :: "vertex_buffer_layout list"
  pd_topology :: topology
  pd_cullMode :: "string option"
  pd_depthWriteEnabled :: bool
  pd_depthCompare :: string
  pd_sampleCount :: nat

record gpu_device =
  gpu_next :: handle
  gpu_modules :: "(handle \<times> string \<times> string) list"
  gpu_pipelines :: "(handle \<times> pipeline_descriptor) list"
  gpu_buffers :: "handle \<rightharpoonup> byte list"
  gpu_bind_groups :: "(handle \<times> handle list) list"
  gpu_destroyed :: "handle list"
  gpu_writes :: "(handle \<times> int \<times> int) list"

definition createShaderModule :: "gpu_device \<Rightarrow> string \<Rightarrow> string \<Rightarrow> handle \<times> gpu_device" where
  "createShaderModule g label code =
     (gpu_next g, g\<lparr>gpu_next := Suc (gpu_next g),
                        gpu_modules := (gpu_next g, label, code) # gpu_modules g\<rparr>)"

definition createRenderPipeline :: "gpu_device \<Rightarrow> pipeline_descriptor \<Rightarrow> handle \<times> gpu_device" where
  "createRenderPipeline g d =
     (gpu_next g, g\<lparr>gpu_next := Suc (gpu_next g),
                        gpu_pipelines := (gpu_next g, d) # gpu_pipelines g\<rparr>)"

text \<open>Textures, views and samplers are handles only: their contents play no part here.\<close>

definition createTexture :: "gpu_device \<Rightarrow> handle \<times> gpu_device" where
  "createTexture g = (gpu_next g, g\<lparr>gpu_next := Suc (gpu_next g)\<rparr>)"

definition createView :: "gpu_device \<Rightarrow> handle \<Rightarrow> handle \<times> gpu_device" where
  "createView g texture = (gpu_next g, g\<lparr>gpu_next := Suc (gpu_next g)\<rparr>)"

text \<open>A new buffer is zero-filled; a bind group is the resources it binds, in binding order.\<close>

definition createBuffer :: "gpu_device \<Rightarrow> int \<Rightarrow> handle \<times> gpu_device" where
  "createBuffer g n =
     (gpu_next g, g\<lparr>gpu_next := Suc (gpu_next g),
                        gpu_buffers := (gpu_buffers g)(gpu_next g \<mapsto> replicate (nat n) (Octet 0))\<rparr>)"

definition createBindGroup :: "gpu_device \<Rightarrow> handle list \<Rightarrow> handle \<times> gpu_device" where
  "createBindGroup g entries =
     (gpu_next g, g\<lparr>gpu_next := Suc (gpu_next g),
                        gpu_bind_groups := (gpu_next g, entries) # gpu_bind_groups g\<rparr>)"

definition destroyBuffer :: "gpu_device \<Rightarrow> handle \<Rightarrow> gpu_device" where
  "destroyBuffer g b = g\<lparr>gpu_destroyed := b # gpu_destroyed g\<rparr>"

section \<open>Materials (\<open>Material\<close>)\<close>

text \<open>
  A \<open>DataView\<close> setter call is the byte offset and the bytes it stores. A uniform writer
  is what it does to the scratch buffer: the setter calls it makes, or \<open>None\<close> when it
  throws. The render context names the camera, the scene, the drawable and the lights.
\<close>

type_synonym dv_write = "int \<times> byte list"

record render_context =
  ctx_camera :: nat
  ctx_scene :: nat
  ctx_mesh :: nat
  ctx_lights :: "nat list"

record material =
  mat_type :: string
  getVertexShader :: string
  getFragmentShader :: string
  getVertexBufferLayout :: vertex_buffer_layout
  getUniformBufferSize :: int
  getPrimitiveTopology :: topology
  writeUniformData :: "(byte list \<Rightarrow> int \<Rightarrow> render_context \<Rightarrow> dv_write list option) option"
  getUniformDataOffset :: "int option"
  getUniformDataBuffer :: "byte list option"
  mat_colors :: "real list"

section \<open>The pipeline cache (\<open>PipelineCache\<close>)\<close>

record pipeline_cache =
  pc_format :: string
  pc_sampleCount :: nat
  pc_pipelineCache :: "string \<rightharpoonup> handle"

definition new_PipelineCache :: "string \<Rightarrow> nat \<Rightarrow> pipeline_cache" where
  "new_PipelineCache format sampleCount =
     \<lparr>pc_format = format, pc_sampleCount = sampleCount, pc_pipelineCache = Map.empty\<rparr>"

definition pipeline_key :: "material \<Rightarrow> string" where
  "pipeline_key m = mat_type m @ ''_'' @ topology_string (getPrimitiveTopology m)"

text \<open>\<open>PipelineCache.getOrCreate\<close>: the cached pipeline of the key, or a new one, stored.\<close>

definition pc_getOrCreate :: "pipeline_cache \<times> gpu_device \<Rightarrow> material \<Rightarrow> handle \<times> pipeline_cache \<times> gpu_device" where
  "pc_getOrCreate st m =
     (let pc = fst st; g = snd st;
          topology = getPrimitiveTopology m;
          key = pipeline_key m
      in case pc_pipelineCache pc key of
           Some cached \<Rightarrow> (cached, pc, g)
         | None \<Rightarrow>
             let (vertexShaderModule, g1) =
                   createShaderModule g (mat_type m @ '' Vertex Shader'') (getVertexShader m);
                 (fragmentShaderModule, g2) =
                   createShaderModule g1 (mat_type m @ '' Fragment Shader'') (getFragmentShader m);
                 vertexBufferLayout = getVertexBufferLayout m;
                 (pipeline, g3) = createRenderPipeline g2
                   \<lparr>pd_label = mat_type m @ '' Pipeline'',
                    pd_vertex_module = vertexShaderModule,
                    pd_fragment_module = fragmentShaderModule,
                    pd_buffers = [\<lparr>arrayStride = arrayStride vertexBufferLayout,
                                   attributes = attributes vertexBufferLayout\<rparr>],
                    pd_topology = topology,
                    pd_cullMode = None,
                    pd_depthWriteEnabled = True,
                    pd_depthCompare = ''less'',
                    pd_sampleCount = pc_sampleCount pc\<rparr>
             in (pipeline, pc\<lparr>pc_pipelineCache := (pc_pipelineCache pc)(key \<mapsto> pipeline)\<rparr>, g3))"

definition pc_clear :: "pipeline_cache \<Rightarrow> pipeline_cache" where
  "pc_clear pc = pc\<lparr>pc_pipelineCache := Map.empty\<rparr>"

text \<open>A sequence of \<open>getOrCreate\<close> calls on one cache: the pipelines returned, in order.\<close>

fun pc_run :: "pipeline_cache \<times> gpu_device \<Rightarrow> material list \<Rightarrow> handle list \<times> pipeline_cache \<times> gpu_device" where
  "pc_run st [] = ([], st)"
| "pc_run st (m # ms) =
     (let (p, st1) = pc_getOrCreate st m;
          (ps, st2) = pc_run st1 ms
      in (p # ps, st2))"

text \<open>Handles in the cache were handed out by the device, and no two keys share one.\<close>

definition pc_inv :: "pipeline_cache \<times> gpu_device \<Rightarrow> bool" where
  "pc_inv st \<longleftrightarrow>
     (\<forall>k h. pc_pipelineCache (fst st) k = Some h \<longrightarrow> h < gpu_next (snd st)) \<and>
     inj_on (pc_pipelineCache (fst st)) (dom (pc_pipelineCache (fst st)))"

text \<open>A device that has created nothing yet, and three materials.\<close>

definition gpu0 :: gpu_device where
  "gpu0 = \<lparr>gpu_next = 0, gpu_modules = [], gpu_pipelines = [], gpu_buffers = Map.empty,
           gpu_bind_groups = [], gpu_destroyed = [], gpu_writes = []\<rparr>"

definition basicMaterial :: material where
  "basicMaterial =
     \<lparr>mat_type = ''basic'', getVertexShader = ''vs'', getFragmentShader = ''fs'',
      getVertexBufferLayout = \<lparr>arrayStride = 24, attributes = []\<rparr>,
      getUniformBufferSize = 80, getPrimitiveTopology = TriangleList,
      writeUniformData = None, getUniformDataOffset = None, getUniformDataBuffer = None,
      mat_colors = []\<rparr>"

definition basicMaterial2 :: material where
  "basicMaterial2 = basicMaterial\<lparr>getUniformBufferSize := 96\<rparr>"

definition wireMaterial :: material where
  "wireMaterial = basicMaterial\<lparr>getPrimitiveTopology := LineList\<rparr>"

section \<open>The skybox pass (\<open>SkyboxPass\<close>)\<close>

text \<open>
  A skybox material is an object: \<open>sky_identity\<close> is its reference, compared by
  \<open>===\<close>; the other fields are what its methods return at the time of the call.
\<close>

record skybox_material =
  sky_identity :: nat
  sky_bindingRevision :: int
  sky_getVertexShader :: string
  sky_getFragmentShader :: string
  sky_getUniformBufferSize :: int
  sky_gpuSampler :: handle
  sky_gpuTexture :: handle
  sky_getCubeTexture :: "handle option"
  sky_writeUniformData :: "byte list \<Rightarrow> int \<Rightarrow> nat \<Rightarrow> dv_write list option"

record skybox_gpu_resources =
  sr_pipeline :: handle
  sr_uniformBuffer :: handle
  sr_bindGroup :: handle
  sr_material :: nat
  sr_bindingRevision :: int

record skybox_pass =
  sp_format :: string
  sp_sampleCount :: nat
  sp_resources :: "skybox_gpu_resources option"

record fallback_resources =
  fb_dummyCubeTexture :: "handle option"
  fb_dummyBrdfLUT :: "handle option"

definition getDummyCubeTexture :: "fallback_resources \<Rightarrow> gpu_device \<Rightarrow> handle \<times> fallback_resources \<times> gpu_device" where
  "getDummyCubeTexture fb g =
     (case fb_dummyCubeTexture fb of
        Some tx \<Rightarrow> (tx, fb, g)
      | None \<Rightarrow> let (tx, g1) = createTexture g in (tx, fb\<lparr>fb_dummyCubeTexture := Some tx\<rparr>, g1))"

text \<open>The four bind group entries of both branches: uniform buffer, sampler, texture view,
  cube view (the material's, or a view of the fallback's dummy cube texture).\<close>

definition sky_bindGroupEntries :: "fallback_resources \<Rightarrow> gpu_device \<Rightarrow> skybox_material \<Rightarrow> handle \<Rightarrow> handle list \<times> fallback_resources \<times> gpu_device" where
  "sky_bindGroupEntries fb g material uniformBuffer =
     (let (view, g1) = createView g (sky_gpuTexture material);
          entries = [uniformBuffer, sky_gpuSampler material, view]
      in case sky_getCubeTexture material of
           Some cubeView \<Rightarrow> (entries @ [cubeView], fb, g1)
         | None \<Rightarrow>
             let (dummy, fb1, g2) = getDummyCubeTexture fb g1;
                 (dview, g3) = createView g2 dummy
             in (entries @ [dview], fb1, g3))"

text \<open>
  \<open>SkyboxPass._getOrCreateResources\<close>, in the source's three steps: drop the record of
  another material (destroying its uniform buffer); with a record of this material at another
  binding revision, make a new bind group only; with no record, build everything.
\<close>

definition sky_dropStale :: "skybox_pass \<Rightarrow> gpu_device \<Rightarrow> skybox_material \<Rightarrow> skybox_pass \<times> gpu_device" where
  "sky_dropStale sp g material =
     (case sp_resources sp of
        Some r \<Rightarrow>
          if sr_material r \<noteq> sky_identity material
          then (sp\<lparr>sp_resources := None\<rparr>, destroyBuffer g (sr_uniformBuffer r))
          else (sp, g)
      | None \<Rightarrow> (sp, g))"

definition sky_rebind :: "skybox_gpu_resources \<Rightarrow> skybox_pass \<Rightarrow> fallback_resources \<Rightarrow> gpu_device \<Rightarrow> skybox_material \<Rightarrow> skybox_gpu_resources \<times> skybox_pass \<times> fallback_resources \<times> gpu_device" where
  "sky_rebind r sp fb g material =
     (let (entries, fb2, g2) = sky_bindGroupEntries fb g material (sr_uniformBuffer r);
          (bindGroup, g3) = createBindGroup g2 entries;
          r' = r\<lparr>sr_bindGroup := bindGroup,
                 sr_bindingRevision := sky_bindingRevision material\<rparr>
      in (r', sp\<lparr>sp_resources := Some r'\<rparr>, fb2, g3))"

definition sky_create :: "skybox_pass \<Rightarrow> fallback_resources \<Rightarrow> gpu_device \<Rightarrow> skybox_material \<Rightarrow> skybox_gpu_resources \<times> skybox_pass \<times> fallback_resources \<times> gpu_device" where
  "sky_create sp fb g material =
     (let (vertexShaderModule, g2) =
            createShaderModule g ''Skybox Vertex Shader'' (sky_getVertexShader material);
          (fragmentShaderModule, g3) =
            createShaderModule g2 ''Skybox Fragment Shader'' (sky_getFragmentShader material);
          (pipeline, g4) = createRenderPipeline g3
            \<lparr>pd_label = ''Skybox Pipeline'',
             pd_vertex_module = vertexShaderModule,
             pd_fragment_module = fragmentShaderModule,
             pd_buffers = [],
             pd_topology = TriangleList,
             pd_cullMode = Some ''none'',
             pd_depthWriteEnabled = False,
             pd_depthCompare = ''less-equal'',
             pd_sampleCount = sp_sampleCount sp\<rparr>;
          (uniformBuffer, g5) = createBuffer g4 (sky_getUniformBufferSize material);
          (entries, fb6, g6) = sky_bindGroupEntries fb g5 material uniformBuffer;
          (bindGroup, g7) = createBindGroup g6 entries;
          r = \<lparr>sr_pipeline = pipeline, sr_uniformBuffer = uniformBuffer,
               sr_bindGroup = bindGroup, sr_material = sky_identity material,
               sr_bindingRevision = sky_bindingRevision material\<rparr>
      in (r, sp\<lparr>sp_resources := Some r\<rparr>, fb6, g7))"

definition sky_getOrCreateResources :: "skybox_pass \<Rightarrow> fallback_resources \<Rightarrow> gpu_device \<Rightarrow> skybox_material \<Rightarrow> skybox_gpu_resources \<times> skybox_pass \<times> fallback_resources \<times> gpu_device" where
  "sky_getOrCreateResources sp fb g material =
     (let (sp1, g1) = sky_dropStale sp g material
      in case sp_resources sp1 of
           Some r \<Rightarrow>
             if sr_material r = sky_identity material
                \<and> sr_bindingRevision r \<noteq> sky_bindingRevision material
             then sky_rebind r sp1 fb g1 material
             else (r, sp1, fb, g1)
         | None \<Rightarrow> sky_create sp1 fb g1 material)"

text \<open>The objects a cached record names were all handed out by the device already.\<close>

definition sky_inv :: "skybox_pass \<Rightarrow> gpu_device \<Rightarrow> bool" where
  "sky_inv sp g =
     (case sp_resources sp of
        None \<Rightarrow> True
      | Some r \<Rightarrow> sr_pipeline r < gpu_next g \<and> sr_uniformBuffer r < gpu_next g
                  \<and> sr_bindGroup r < gpu_next g)"

text \<open>A new pass, a fallback provider that has created nothing, and two skybox materials;
  the first call of the pass and a second call after it.\<close>

definition sky0 :: skybox_pass where
  "sky0 = \<lparr>sp_format = ''bgra8unorm'', sp_sampleCount = 4, sp_resources = None\<rparr>"

definition fb0 :: fallback_resources where
  "fb0 = \<lparr>fb_dummyCubeTexture = None, fb_dummyBrdfLUT = None\<rparr>"

definition skyA :: skybox_material where
  "skyA = \<lparr>sky_identity = 1, sky_bindingRevision = 0, sky_getVertexShader = ''vs'',
           sky_getFragmentShader = ''fs'', sky_getUniformBufferSize = 96,
           sky_gpuSampler = 100, sky_gpuTexture = 101, sky_getCubeTexture = None,
           sky_writeUniformData = (\<lambda>buf off cam. Some [])\<rparr>"

definition skyB :: skybox_material where
  "skyB = skyA\<lparr>sky_identity := 2\<rparr>"

definition sky_after_first :: "skybox_gpu_resources \<times> skybox_pass \<times> fallback_resources \<times> gpu_device" where
  "sky_after_first = sky_getOrCreateResources sky0 fb0 gpu0 skyA"

definition sky_second :: "skybox_material \<Rightarrow> skybox_gpu_resources \<times> skybox_pass \<times> fallback_resources \<times> gpu_device" where
  "sky_second material =
     (case sky_after_first of (r1, sp1, fb1, g1) \<Rightarrow> sky_getOrCreateResources sp1 fb1 g1 material)"

section \<open>Matrices (\<open>Matrix4\<close> of the math package)\<close>

text \<open>
  The math package is only imported by the sources at hand, so its \<open>Matrix4\<close> is a
  parameter: a type \<open>'m\<close> of matrices with the operations the engine calls. Every function
  below that does matrix arithmetic takes the operations as its argument \<open>M\<close>, and what is
  proved of it holds for every implementation of the package.
  \<open>m_data a i\<close> is byte \<open>i\<close> of the \<open>Float32Array\<close> that backs the matrix \<open>a\<close>
  (16 floats, 64 bytes).
\<close>

record 'm matrix_ops =
  m_identity :: 'm
  m_multiply :: "'m \<Rightarrow> 'm \<Rightarrow> 'm"
  m_scaling :: "vec3 \<Rightarrow> 'm"
  m_translation :: "vec3 \<Rightarrow> 'm"
  m_rotationX :: "real \<Rightarrow> 'm"
  m_rotationY :: "real \<Rightarrow> 'm"
  m_rotationZ :: "real \<Rightarrow> 'm"
  m_inverse :: "'m \<Rightarrow> 'm"
  m_transformPoint :: "'m \<Rightarrow> vec3 \<Rightarrow> vec3"
  m_transformDirection :: "'m \<Rightarrow> vec3 \<Rightarrow> vec3"
  m_data :: "'m \<Rightarrow> nat \<Rightarrow> byte"

section \<open>The scene graph (\<open>Object3D\<close>, \<open>Scene\<close>, \<open>Mesh\<close>)\<close>

text \<open>
  Objects live in a store and are named by their references (natural numbers); a
  \<open>parent\<close> of \<open>None\<close> is the source's \<open>null\<close>. A mesh is an object with a geometry; its
  material is a reference into a store of materials.
\<close>

record geometry =
  positions :: "real list"
  normals :: "real list"
  uvs :: "real list option"
  indices :: "nat list"
  vertexCount :: nat
  indexCount :: nat

record 'm object3d =
  position :: vec3
  rotation :: vec3
  scale :: vec3
  parent :: "nat option"
  children :: "nat list"
  visible :: bool
  localMatrix :: 'm
  worldMatrix :: 'm
  mesh_geometry :: "geometry option"
  mesh_material :: nat
  is_light :: bool

type_synonym 'm scene = "nat \<Rightarrow> 'm object3d"

text \<open>\<open>new Object3D()\<close>: identity transform, no parent, no children, visible.\<close>

definition new_Object3D :: "'m matrix_ops \<Rightarrow> 'm object3d" where
  "new_Object3D M =
     \<lparr>position = V3 0 0 0, rotation = V3 0 0 0, scale = V3 1 1 1, parent = None,
      children = [], visible = True, localMatrix = m_identity M, worldMatrix = m_identity M,
      mesh_geometry = None, mesh_material = 0, is_light = False\<rparr>"

text \<open>\<open>Object3D.remove\<close>, in its two assignments: \<open>indexOf\<close> finds the first occurrence,
  the child's parent is cleared, and \<open>splice\<close> takes that one entry out.\<close>

definition remove_steps :: "'m scene \<Rightarrow> nat \<Rightarrow> nat \<Rightarrow> 'm scene list" where
  "remove_steps s this child =
     (if child \<in> set (children (s this))
      then let s1 = s(child := (s child)\<lparr>parent := None\<rparr>);
               s2 = s1(this := (s1 this)\<lparr>children := remove1 child (children (s1 this))\<rparr>)
           in [s1, s2]
      else [])"

definition remove :: "'m scene \<Rightarrow> nat \<Rightarrow> nat \<Rightarrow> 'm scene" where
  "remove s this child = last (s # remove_steps s this child)"

text \<open>\<open>Object3D.add\<close>: the states the store goes through, one per assignment, and the
  last of them.\<close>

definition add_steps :: "'m scene \<Rightarrow> nat \<Rightarrow> nat \<Rightarrow> 'm scene list" where
  "add_steps s this child =
     (let removal = (case parent (s child) of
                       Some p \<Rightarrow> remove_steps s p child
                     | None \<Rightarrow> []);
          s1 = last (s # removal);
          s2 = s1(child := (s1 child)\<lparr>parent := Some this\<rparr>);
          s3 = s2(this := (s2 this)\<lparr>children := children (s2 this) @ [child]\<rparr>)
      in s # removal @ [s2, s3])"

definition add :: "'m scene \<Rightarrow> nat \<Rightarrow> nat \<Rightarrow> 'm scene" where
  "add s this child = last (add_steps s this child)"

text \<open>
  What \<open>add\<close> and \<open>remove\<close> keep true of a store that starts with parentless,
  childless objects: a node is in the children of exactly its parent, once.
\<close>

definition wf_scene :: "'m scene \<Rightarrow> bool" where
  "wf_scene s \<longleftrightarrow>
     (\<forall>p c. (c \<in> set (children (s p))) = (parent (s c) = Some p))
     \<and> (\<forall>p. distinct (children (s p)))"

text \<open>\<open>Object3D.updateMatrix\<close>.\<close>

definition updateMatrix :: "'m matrix_ops \<Rightarrow> 'm scene \<Rightarrow> nat \<Rightarrow> 'm scene" where
  "updateMatrix M s this =
     (let scaleMatrix = m_scaling M (scale (s this));
          rotX = m_rotationX M (vx (rotation (s this)));
          rotY = m_rotationY M (vy (rotation (s this)));
          rotZ = m_rotationZ M (vz (rotation (s this)));
          rotationMatrix = m_multiply M (m_multiply M rotZ rotY) rotX;
          translationMatrix = m_translation M (position (s this));
          result = m_multiply M (m_multiply M translationMatrix rotationMatrix) scaleMatrix
      in s(this := (s this)\<lparr>localMatrix := result\<rparr>))"

text \<open>The lines of \<open>updateWorldMatrix\<close> between the walk up and the walk down.\<close>

definition computeWorldMatrix :: "'m matrix_ops \<Rightarrow> 'm scene \<Rightarrow> nat \<Rightarrow> 'm scene" where
  "computeWorldMatrix M s this =
     (case parent (s this) of
        None \<Rightarrow> s(this := (s this)\<lparr>worldMatrix := localMatrix (s this)\<rparr>)
      | Some p \<Rightarrow>
          s(this := (s this)\<lparr>worldMatrix := m_multiply M (worldMatrix (s p)) (localMatrix (s this))\<rparr>))"

text \<open>
  \<open>Object3D.updateWorldMatrix\<close>. The source recurses along parent references and children
  lists, which may be cyclic, so the call depth is bounded by a fuel argument: \<open>None\<close> means
  the fuel ran out.
\<close>

fun updateWorldMatrix :: "nat \<Rightarrow> 'm matrix_ops \<Rightarrow> 'm scene \<Rightarrow> nat \<Rightarrow> bool \<Rightarrow> bool \<Rightarrow> 'm scene option" where
  "updateWorldMatrix 0 M s this updateParents updateChildren = None"
| "updateWorldMatrix (Suc k) M s this updateParents updateChildren =
     (case (if updateParents \<and> parent (s this) \<noteq> None
            then updateWorldMatrix k M s (the (parent (s this))) True False
            else Some s) of
        None \<Rightarrow> None
      | Some s1 \<Rightarrow>
          let s2 = computeWorldMatrix M (updateMatrix M s1 this) this
          in if updateChildren
             then fold (\<lambda>child acc. case acc of None \<Rightarrow> None
                                   | Some sa \<Rightarrow> updateWorldMatrix k M sa child False True)
                    (children (s2 this)) (Some s2)
             else Some s2)"

text \<open>\<open>Scene.updateMatrixWorld\<close>.\<close>

definition updateMatrixWorld :: "nat \<Rightarrow> 'm matrix_ops \<Rightarrow> 'm scene \<Rightarrow> nat \<Rightarrow> 'm scene option" where
  "updateMatrixWorld k M s this = updateWorldMatrix k M s this False True"

text \<open>The matrices the invariant of the data model asks of a node.\<close>

definition trs :: "'m matrix_ops \<Rightarrow> 'm object3d \<Rightarrow> 'm" where
  "trs M ob =
     m_multiply M
       (m_multiply M (m_translation M (position ob))
          (m_multiply M (m_multiply M (m_rotationZ M (vz (rotation ob))) (m_rotationY M (vy (rotation ob))))
             (m_rotationX M (vx (rotation ob)))))
       (m_scaling M (scale ob))"

definition matrices_current :: "'m matrix_ops \<Rightarrow> 'm scene \<Rightarrow> nat \<Rightarrow> bool" where
  "matrices_current M s n \<longleftrightarrow>
     localMatrix (s n) = trs M (s n)
     \<and> worldMatrix (s n) =
         (case parent (s n) of
            None \<Rightarrow> localMatrix (s n)
          | Some p \<Rightarrow> m_multiply M (worldMatrix (s p)) (localMatrix (s n)))"

text \<open>The nodes a refresh visits: the ancestors when it walks up, the node, the descendants
  when it walks down.\<close>

definition ancestors_of :: "'m scene \<Rightarrow> nat \<Rightarrow> nat set" where
  "ancestors_of s n = {a. (a, n) \<in> {(p, c). parent (s c) = Some p}\<^sup>*}"

definition descendants_of :: "'m scene \<Rightarrow> nat \<Rightarrow> nat set" where
  "descendants_of s n = {d. (n, d) \<in> {(p, c). c \<in> set (children (s p))}\<^sup>*}"

definition visited :: "'m scene \<Rightarrow> nat \<Rightarrow> bool \<Rightarrow> bool \<Rightarrow> nat set" where
  "visited s n updateParents updateChildren =
     insert n ((if updateParents then ancestors_of s n else {})
               \<union> (if updateChildren then descendants_of s n else {}))"

text \<open>The store after the first statement of \<open>add\<close>: the child taken out of its old
  parent.\<close>

definition detach :: "'m scene \<Rightarrow> nat \<Rightarrow> 'm scene" where
  "detach s child = (case parent (s child) of Some p \<Rightarrow> remove s p child | None \<Rightarrow> s)"

text \<open>One turn of the loop over the children in \<open>updateWorldMatrix\<close>.\<close>

definition updateChild :: "nat \<Rightarrow> 'm matrix_ops \<Rightarrow> nat \<Rightarrow> 'm scene option \<Rightarrow> 'm scene option" where
  "updateChild k M child acc =
     (case acc of None \<Rightarrow> None | Some sa \<Rightarrow> updateWorldMatrix k M sa child False True)"

text \<open>Two stores of the same shape differ in local and world matrices only.\<close>

definition same_shape :: "'m scene \<Rightarrow> 'm scene \<Rightarrow> bool" where
  "same_shape s s' \<longleftrightarrow>
     (\<forall>n. s' n = (s n)\<lparr>localMatrix := localMatrix (s' n), worldMatrix := worldMatrix (s' n)\<rparr>)"

text \<open>The number of parent references between a node and the root above it, when there is
  one: a node on a cycle of parent references has no height.\<close>

inductive height :: "'m scene \<Rightarrow> nat \<Rightarrow> nat \<Rightarrow> bool" where
  height_root: "parent (s n) = None \<Longrightarrow> height s n 0"
| height_child: "parent (s n) = Some p \<Longrightarrow> height s p h \<Longrightarrow> height s n (Suc h)"

text \<open>Parent references and children lists agree (the first half of \<open>wf_scene\<close>).\<close>

definition linked :: "'m scene \<Rightarrow> bool" where
  "linked s \<longleftrightarrow> (\<forall>p c. (c \<in> set (children (s p))) = (parent (s c) = Some p))"

text \<open>
  The first two statements of \<open>Renderer.render\<close>: \<open>scene.updateMatrixWorld()\<close>, then
  \<open>camera.updateWorldMatrix(false, false)\<close>.
\<close>

definition render_refresh :: "nat \<Rightarrow> 'm matrix_ops \<Rightarrow> 'm scene \<Rightarrow> nat \<Rightarrow> nat \<Rightarrow> 'm scene option" where
  "render_refresh k M s scene camera =
     (case updateMatrixWorld k M s scene of
        None \<Rightarrow> None
      | Some s1 \<Rightarrow> updateWorldMatrix k M s1 camera False False)"

section \<open>A standard implementation of the matrix operations\<close>

text \<open>
  Modelled from the spec: the \<open>Matrix4\<close> of the math package, as the column-major 4\<times>4
  matrices of section 6 with the textbook operations. It instantiates the parameter \<open>M\<close> where
  a concrete scene is evaluated; nothing general is proved from it. Entry (row \<open>r\<close>, column
  \<open>c\<close>) is element \<open>4 * c + r\<close>, so elements 12, 13, 14 are the translation, as the
  camera and the raycaster read them.
\<close>

type_synonym mat4 = "real list"

definition mat4_identity :: mat4 where
  "mat4_identity = [1, 0, 0, 0,  0, 1, 0, 0,  0, 0, 1, 0,  0, 0, 0, 1]"

definition mat4_entry :: "mat4 \<Rightarrow> mat4 \<Rightarrow> nat \<Rightarrow> nat \<Rightarrow> real" where
  "mat4_entry a b r c =
     a ! r * b ! (4 * c) + a ! (4 + r) * b ! (4 * c + 1)
     + a ! (8 + r) * b ! (4 * c + 2) + a ! (12 + r) * b ! (4 * c + 3)"

definition mat4_multiply :: "mat4 \<Rightarrow> mat4 \<Rightarrow> mat4" where
  "mat4_multiply a b =
     [mat4_entry a b 0 0, mat4_entry a b 1 0, mat4_entry a b 2 0, mat4_entry a b 3 0,
      mat4_entry a b 0 1, mat4_entry a b 1 1, mat4_entry a b 2 1, mat4_entry a b 3 1,
      mat4_entry a b 0 2, mat4_entry a b 1 2, mat4_entry a b 2 2, mat4_entry a b 3 2,
      mat4_entry a b 0 3, mat4_entry a b 1 3, mat4_entry a b 2 3, mat4_entry a b 3 3]"

definition mat4_scaling :: "vec3 \<Rightarrow> mat4" where
  "mat4_scaling v = [vx v, 0, 0, 0,  0, vy v, 0, 0,  0, 0, vz v, 0,  0, 0, 0, 1]"

definition mat4_translation :: "vec3 \<Rightarrow> mat4" where
  "mat4_translation v = [1, 0, 0, 0,  0, 1, 0, 0,  0, 0, 1, 0,  vx v, vy v, vz v, 1]"

definition mat4_rotationX :: "real \<Rightarrow> mat4" where
  "mat4_rotationX x = [1, 0, 0, 0,  0, cos x, sin x, 0,  0, - sin x, cos x, 0,  0, 0, 0, 1]"

definition mat4_rotationY :: "real \<Rightarrow> mat4" where
  "mat4_rotationY x = [cos x, 0, - sin x, 0,  0, 1, 0, 0,  sin x, 0, cos x, 0,  0, 0, 0, 1]"

definition mat4_rotationZ :: "real \<Rightarrow> mat4" where
  "mat4_rotationZ x = [cos x, sin x, 0, 0,  - sin x, cos x, 0, 0,  0, 0, 1, 0,  0, 0, 0, 1]"

text \<open>The cofactors of the first row give the determinant; the inverse is the adjugate over
  it, and the identity for a singular matrix.\<close>

definition mat4_cofactors :: "mat4 \<Rightarrow> mat4" where
  "mat4_cofactors a =
     [(a ! 5 * a ! 10 * a ! 15 - a ! 5 * a ! 14 * a ! 11 - a ! 9 * a ! 6 * a ! 15 + a ! 9 * a ! 14 * a ! 7 + a ! 13 * a ! 6 * a ! 11 - a ! 13 * a ! 10 * a ! 7),
      - (a ! 1 * a ! 10 * a ! 15 - a ! 1 * a ! 14 * a ! 11 - a ! 9 * a ! 2 * a ! 15 + a ! 9 * a ! 14 * a ! 3 + a ! 13 * a ! 2 * a ! 11 - a ! 13 * a ! 10 * a ! 3),
      (a ! 1 * a ! 6 * a ! 15 - a ! 1 * a ! 14 * a ! 7 - a ! 5 * a ! 2 * a ! 15 + a ! 5 * a ! 14 * a ! 3 + a ! 13 * a ! 2 * a ! 7 - a ! 13 * a ! 6 * a ! 3),
      - (a ! 1 * a ! 6 * a ! 11 - a ! 1 * a ! 10 * a ! 7 - a ! 5 * a ! 2 * a ! 11 + a ! 5 * a ! 10 * a ! 3 + a ! 9 * a ! 2 * a ! 7 - a ! 9 * a ! 6 * a ! 3),
      - (a ! 4 * a ! 10 * a ! 15 - a ! 4 * a ! 14 * a ! 11 - a ! 8 * a ! 6 * a ! 15 + a ! 8 * a ! 14 * a ! 7 + a ! 12 * a ! 6 * a ! 11 - a ! 12 * a ! 10 * a ! 7),
      (a ! 0 * a ! 10 * a ! 15 - a ! 0 * a ! 14 * a ! 11 - a ! 8 * a ! 2 * a ! 15 + a ! 8 * a ! 14 * a ! 3 + a ! 12 * a ! 2 * a ! 11 - a ! 12 * a ! 10 * a ! 3),
      - (a ! 0 * a ! 6 * a ! 15 - a ! 0 * a ! 14 * a ! 7 - a ! 4 * a ! 2 * a ! 15 + a ! 4 * a ! 14 * a ! 3 + a ! 12 * a ! 2 * a ! 7 - a ! 12 * a ! 6 * a ! 3),
      (a ! 0 * a ! 6 * a ! 11 - a ! 0 * a ! 10 * a ! 7 - a ! 4 * a ! 2 * a ! 11 + a ! 4 * a ! 10 * a ! 3 + a ! 8 * a ! 2 * a ! 7 - a ! 8 * a ! 6 * a ! 3),
      (a ! 4 * a ! 9 * a ! 15 - a ! 4 * a ! 13 * a ! 11 - a ! 8 * a ! 5 * a ! 15 + a ! 8 * a ! 13 * a ! 7 + a ! 12 * a ! 5 * a ! 11 - a ! 12 * a ! 9 * a ! 7),
      - (a ! 0 * a ! 9 * a ! 15 - a ! 0 * a ! 13 * a ! 11 - a ! 8 * a ! 1 * a ! 15 + a ! 8 * a ! 13 * a ! 3 + a ! 12 * a ! 1 * a ! 11 - a ! 12 * a ! 9 * a ! 3),
      (a ! 0 * a ! 5 * a ! 15 - a ! 0 * a ! 13 * a ! 7 - a ! 4 * a ! 1 * a ! 15 + a ! 4 * a ! 13 * a ! 3 + a ! 12 * a ! 1 * a ! 7 - a ! 12 * a ! 5 * a ! 3),
      - (a ! 0 * a ! 5 * a ! 11 - a ! 0 * a ! 9 * a ! 7 - a ! 4 * a ! 1 * a ! 11 + a ! 4 * a ! 9 * a ! 3 + a ! 8 * a ! 1 * a ! 7 - a ! 8 * a ! 5 * a ! 3),
      - (a ! 4 * a ! 9 * a ! 14 - a ! 4 * a ! 13 * a ! 10 - a ! 8 * a ! 5 * a ! 14 + a ! 8 * a ! 13 * a ! 6 + a ! 12 * a ! 5 * a ! 10 - a ! 12 * a ! 9 * a ! 6),
      (a ! 0 * a ! 9 * a ! 14 - a ! 0 * a ! 13 * a ! 10 - a ! 8 * a ! 1 * a ! 14 + a ! 8 * a ! 13 * a ! 2 + a ! 12 * a ! 1 * a ! 10 - a ! 12 * a ! 9 * a ! 2),
      - (a ! 0 * a ! 5 * a ! 14 - a ! 0 * a ! 13 * a ! 6 - a ! 4 * a ! 1 * a ! 14 + a ! 4 * a ! 13 * a ! 2 + a ! 12 * a ! 1 * a ! 6 - a ! 12 * a ! 5 * a ! 2),
      (a ! 0 * a ! 5 * a ! 10 - a ! 0 * a ! 9 * a ! 6 - a ! 4 * a ! 1 * a ! 10 + a ! 4 * a ! 9 * a ! 2 + a ! 8 * a ! 1 * a ! 6 - a ! 8 * a ! 5 * a ! 2)]"

definition mat4_determinant :: "mat4 \<Rightarrow> real" where
  "mat4_determinant a =
     a ! 0 * mat4_cofactors a ! 0 + a ! 4 * mat4_cofactors a ! 1
     + a ! 8 * mat4_cofactors a ! 2 + a ! 12 * mat4_cofactors a ! 3"

definition mat4_inverse :: "mat4 \<Rightarrow> mat4" where
  "mat4_inverse a =
     (if mat4_determinant a = 0 then mat4_identity
      else map (\<lambda>x. x / mat4_determinant a) (mat4_cofactors a))"

text \<open>A point is transformed with the perspective divide, a direction by the upper 3\<times>3
  block.\<close>

definition mat4_transformPoint :: "mat4 \<Rightarrow> vec3 \<Rightarrow> vec3" where
  "mat4_transformPoint a p =
     (let w = a ! 3 * vx p + a ! 7 * vy p + a ! 11 * vz p + a ! 15
      in V3 ((a ! 0 * vx p + a ! 4 * vy p + a ! 8 * vz p + a ! 12) / w)
            ((a ! 1 * vx p + a ! 5 * vy p + a ! 9 * vz p + a ! 13) / w)
            ((a ! 2 * vx p + a ! 6 * vy p + a ! 10 * vz p + a ! 14) / w))"

definition mat4_transformDirection :: "mat4 \<Rightarrow> vec3 \<Rightarrow> vec3" where
  "mat4_transformDirection a d =
     V3 (a ! 0 * vx d + a ! 4 * vy d + a ! 8 * vz d)
        (a ! 1 * vx d + a ! 5 * vy d + a ! 9 * vz d)
        (a ! 2 * vx d + a ! 6 * vy d + a ! 10 * vz d)"

definition mat4_data :: "mat4 \<Rightarrow> nat \<Rightarrow> byte" where
  "mat4_data a i = Float32Byte (a ! (i div 4)) (i mod 4)"

definition std_matrix :: "mat4 matrix_ops" where
  "std_matrix =
     \<lparr>m_identity = mat4_identity, m_multiply = mat4_multiply, m_scaling = mat4_scaling,
      m_translation = mat4_translation, m_rotationX = mat4_rotationX,
      m_rotationY = mat4_rotationY, m_rotationZ = mat4_rotationZ, m_inverse = mat4_inverse,
      m_transformPoint = mat4_transformPoint, m_transformDirection = mat4_transformDirection,
      m_data = mat4_data\<rparr>"

text \<open>A store of new objects, and the same store after \<open>object1.add(object3)\<close>.\<close>

definition scene0 :: "mat4 scene" where
  "scene0 = (\<lambda>n. new_Object3D std_matrix)"

definition scene_owned :: "mat4 scene" where
  "scene_owned = add scene0 1 3"

text \<open>
  A camera on a rig: object 0 is an empty scene, object 5 the rig, moved to (1,0,0), and
  object 7 the camera, added to the rig. No matrix has been refreshed yet.
\<close>

definition rig_scene :: "mat4 scene" where
  "rig_scene = (let s = add scene0 5 7 in s(5 := (s 5)\<lparr>position := V3 1 0 0\<rparr>))"

section \<open>Errors, buffer writes and the pass encoder\<close>

text \<open>What the engine throws, and what the platform throws at it.\<close>

datatype error =
    UvCoordinatesRequired
  | UniformDataOffsetBelow64 int
  | WriterThrew
  | RangeError
  | OperationError

text \<open>
  The setter calls of a uniform writer, applied to the scratch buffer in order. A
  \<open>DataView\<close> setter outside the buffer throws a \<open>RangeError\<close>: \<open>None\<close>.
\<close>

fun apply_dv_writes :: "byte list \<Rightarrow> dv_write list \<Rightarrow> byte list option" where
  "apply_dv_writes buf [] = Some buf"
| "apply_dv_writes buf ((byteOffset, bs) # ws) =
     (if 0 \<le> byteOffset \<and> nat byteOffset + length bs \<le> length buf
      then apply_dv_writes (take (nat byteOffset) buf @ bs @ drop (nat byteOffset + length bs) buf) ws
      else None)"

text \<open>
  \<open>device.queue.writeBuffer(buffer, bufferOffset, data, dataOffset, size)\<close> with byte
  offsets: \<open>size\<close> bytes of \<open>data\<close> from \<open>dataOffset\<close> replace the bytes of the buffer from
  \<open>bufferOffset\<close>, and the queue records the write. A range outside the data or outside
  the buffer, or a handle that names no buffer, is refused with an \<open>OperationError\<close>. The
  platform's alignment rules (offsets and sizes in multiples of four bytes) are not
  modelled.
\<close>

definition writeBuffer :: "gpu_device \<Rightarrow> handle \<Rightarrow> int \<Rightarrow> byte list \<Rightarrow> int \<Rightarrow> int \<Rightarrow> error + gpu_device" where
  "writeBuffer g buffer bufferOffset data dataOffset n =
     (case gpu_buffers g buffer of
        None \<Rightarrow> Inl OperationError
      | Some content \<Rightarrow>
          if 0 \<le> bufferOffset \<and> 0 \<le> dataOffset \<and> 0 \<le> n
             \<and> dataOffset + n \<le> int (length data)
             \<and> bufferOffset + n \<le> int (length content)
          then Inr (g\<lparr>gpu_buffers := (gpu_buffers g)(buffer \<mapsto>
                        take (nat bufferOffset) content
                        @ take (nat n) (drop (nat dataOffset) data)
                        @ drop (nat (bufferOffset + n)) content),
                      gpu_writes := gpu_writes g @ [(buffer, bufferOffset, n)]\<rparr>)
          else Inl OperationError)"

datatype pass_command =
    SetPipeline handle
  | SetBindGroup nat handle
  | SetVertexBuffer nat handle
  | SetIndexBuffer handle string
  | DrawIndexed nat
  | Draw nat

section \<open>Interleaved vertex data (\<open>Mesh.getInterleavedVertices\<close>)\<close>

text \<open>
  An element of a \<open>Float32Array\<close> read at an index: outside the array the read is
  \<open>undefined\<close>, which is stored into the result as NaN (\<open>None\<close>).
\<close>

definition f32_at :: "real list \<Rightarrow> nat \<Rightarrow> real option" where
  "f32_at xs i = (if i < length xs then Some (xs ! i) else None)"

definition interleave3_3 :: "real list \<Rightarrow> real list \<Rightarrow> nat \<Rightarrow> real option list" where
  "interleave3_3 xs ys n =
     concat (map (\<lambda>i. [f32_at xs (i * 3), f32_at xs (i * 3 + 1), f32_at xs (i * 3 + 2),
                        f32_at ys (i * 3), f32_at ys (i * 3 + 1), f32_at ys (i * 3 + 2)])
                 [0..<n])"

definition interleave3_3_2 :: "real list \<Rightarrow> real list \<Rightarrow> real list \<Rightarrow> nat \<Rightarrow> real option list" where
  "interleave3_3_2 xs ys zs n =
     concat (map (\<lambda>i. [f32_at xs (i * 3), f32_at xs (i * 3 + 1), f32_at xs (i * 3 + 2),
                        f32_at ys (i * 3), f32_at ys (i * 3 + 1), f32_at ys (i * 3 + 2),
                        f32_at zs (i * 2), f32_at zs (i * 2 + 1)])
                 [0..<n])"

text \<open>The \<open>switch\<close> on the material's type, in the source's order of cases.\<close>

definition getInterleavedVertices :: "geometry \<Rightarrow> material \<Rightarrow> error + real option list" where
  "getInterleavedVertices geo material =
     (if mat_type material = ''texture'' then
        (case uvs geo of
           None \<Rightarrow> Inl UvCoordinatesRequired
         | Some uv \<Rightarrow> Inr (interleave3_3_2 (positions geo) (normals geo) uv (vertexCount geo)))
      else if mat_type material = ''vertexColor'' then
        Inr (interleave3_3 (positions geo) (mat_colors material) (vertexCount geo))
      else if mat_type material = ''line'' then
        Inr (map Some (positions geo))
      else if mat_type material = ''lineColor'' then
        Inr (interleave3_3 (positions geo) (mat_colors material) (vertexCount geo))
      else
        Inr (interleave3_3 (positions geo) (normals geo) (vertexCount geo)))"

section \<open>The mesh resource cache (\<open>MeshResourceCache\<close>)\<close>

record mesh_gpu_resources =
  res_vertexBuffer :: handle
  res_indexBuffer :: handle
  res_uniformBuffer :: handle
  res_bindGroup :: handle
  res_iblBindGroup :: "handle option"
  res_indexCount :: nat
  res_indexFormat :: string

text \<open>
  The class is not among the sources at hand, so the mesh pass takes its \<open>getOrCreate\<close> as a
  parameter \<open>RC\<close>: from the cache, the device, the drawable (its reference, geometry and
  material) and the pipeline, an error or the resources with the new cache and device.
\<close>

type_synonym 'c resource_cache =
  "'c \<Rightarrow> gpu_device \<Rightarrow> nat \<Rightarrow> geometry \<Rightarrow> material \<Rightarrow> handle
     \<Rightarrow> error + (mesh_gpu_resources \<times> 'c \<times> gpu_device)"

text \<open>
  Modelled from the spec: the building of a drawable's resources inside
  \<open>MeshResourceCache.getOrCreate\<close> (section 4.4). It interleaves the drawable's vertex
  data, which raises for a geometry that lacks what the material requires (section 7 b),
  then creates the vertex and index buffers, a uniform buffer of the material's declared
  \<open>getUniformBufferSize()\<close> and a bind group over it.
\<close>

definition mr_build :: "gpu_device \<Rightarrow> geometry \<Rightarrow> material \<Rightarrow> error + (mesh_gpu_resources \<times> gpu_device)" where
  "mr_build g geo material =
     (case getInterleavedVertices geo material of
        Inl e \<Rightarrow> Inl e
      | Inr vertices \<Rightarrow>
          let (vb, g1) = createBuffer g (4 * int (length vertices));
              (ib, g2) = createBuffer g1 (2 * int (length (indices geo)));
              (ub, g3) = createBuffer g2 (getUniformBufferSize material);
              (bg, g4) = createBindGroup g3 [ub]
          in Inr (\<lparr>res_vertexBuffer = vb, res_indexBuffer = ib, res_uniformBuffer = ub,
                    res_bindGroup = bg, res_iblBindGroup = None,
                    res_indexCount = indexCount geo, res_indexFormat = ''uint16''\<rparr>, g4))"

text \<open>
  Modelled from the spec: \<open>MeshResourceCache.getOrCreate\<close> (section 4.4). Resources are
  cached by drawable identity together with the pipeline they were built against, and are
  rebuilt when the pipeline passed differs.
\<close>

definition mr_getOrCreate :: "(nat \<rightharpoonup> mesh_gpu_resources \<times> handle) resource_cache" where
  "mr_getOrCreate cache g mesh geo material pipeline =
     (case (case cache mesh of
              Some (res, built) \<Rightarrow> if built = pipeline then Some res else None
            | None \<Rightarrow> None) of
        Some res \<Rightarrow> Inr (res, cache, g)
      | None \<Rightarrow>
          (case mr_build g geo material of
             Inl e \<Rightarrow> Inl e
           | Inr (res, g1) \<Rightarrow> Inr (res, cache(mesh \<mapsto> (res, pipeline)), g1)))"

section \<open>The mesh pass (\<open>MeshPass\<close>)\<close>

text \<open>
  A drawable as the pass reads it, and the camera with its two matrices (their getters
  compute them with the math package). \<open>mp_materials\<close> is the store of material objects:
  a material that owns its scratch buffer keeps what a writer stored in it.
\<close>

record 'm drawable =
  dr_mesh :: nat
  dr_geometry :: geometry
  dr_material :: nat
  dr_worldMatrix :: 'm

record 'm camera =
  cam_object :: nat
  cam_projectionMatrix :: 'm
  cam_viewMatrix :: 'm

record 'c mesh_pass =
  mp_gpu :: gpu_device
  mp_pipelines :: pipeline_cache
  mp_meshResources :: 'c
  mp_materials :: "nat \<Rightarrow> material"
  mp_commands :: "pass_command list"

text \<open>The scratch buffer: the material's own, or a new zero-filled \<open>ArrayBuffer\<close> of the
  declared size (a \<open>RangeError\<close> for a negative size).\<close>

definition mp_uniformData :: "material \<Rightarrow> error + byte list" where
  "mp_uniformData material =
     (case getUniformDataBuffer material of
        Some buf \<Rightarrow> Inr buf
      | None \<Rightarrow> if getUniformBufferSize material < 0 then Inl RangeError
                else Inr (replicate (nat (getUniformBufferSize material)) (Octet 0)))"

definition mp_uniformDataOffset :: "material \<Rightarrow> int" where
  "mp_uniformDataOffset material =
     (case getUniformDataOffset material of Some off \<Rightarrow> off | None \<Rightarrow> 64)"

text \<open>
  The body of \<open>if (material.writeUniformData)\<close>: the error thrown if any, the material
  (with its own scratch buffer as the writer left it) and the device.
\<close>

definition mp_writeUniformData :: "gpu_device \<Rightarrow> handle \<Rightarrow> material \<Rightarrow> render_context \<Rightarrow> error option \<times> material \<times> gpu_device" where
  "mp_writeUniformData g uniformBuffer material renderContext =
     (case writeUniformData material of
        None \<Rightarrow> (None, material, g)
      | Some writer \<Rightarrow>
          (case mp_uniformData material of
             Inl e \<Rightarrow> (Some e, material, g)
           | Inr uniformData \<Rightarrow>
               let uniformDataOffset = mp_uniformDataOffset material
               in if uniformDataOffset < 64
                  then (Some (UniformDataOffsetBelow64 uniformDataOffset), material, g)
                  else
                    (case writer uniformData uniformDataOffset renderContext of
                       None \<Rightarrow> (Some WriterThrew, material, g)
                     | Some writes \<Rightarrow>
                         (case apply_dv_writes uniformData writes of
                            None \<Rightarrow> (Some RangeError, material, g)
                          | Some written \<Rightarrow>
                              let material' =
                                    (case getUniformDataBuffer material of
                                       Some buf \<Rightarrow> material\<lparr>getUniformDataBuffer := Some written\<rparr>
                                     | None \<Rightarrow> material);
                                  customDataSize = getUniformBufferSize material - uniformDataOffset
                              in if customDataSize > 0
                                 then (case writeBuffer g uniformBuffer uniformDataOffset written
                                              uniformDataOffset customDataSize of
                                         Inl e \<Rightarrow> (Some e, material', g)
                                       | Inr g' \<Rightarrow> (None, material', g'))
                                 else (None, material', g)))))"

text \<open>The commands of one drawable, from \<open>setPipeline\<close> to the draw call.\<close>

definition mp_drawCommands :: "handle \<Rightarrow> mesh_gpu_resources \<Rightarrow> nat \<Rightarrow> pass_command list" where
  "mp_drawCommands pipeline resources meshVertexCount =
     [SetPipeline pipeline, SetBindGroup 0 (res_bindGroup resources)]
     @ (case res_iblBindGroup resources of Some ibl \<Rightarrow> [SetBindGroup 1 ibl] | None \<Rightarrow> [])
     @ [SetVertexBuffer 0 (res_vertexBuffer resources)]
     @ (if res_indexCount resources > 0
        then [SetIndexBuffer (res_indexBuffer resources) (res_indexFormat resources),
              DrawIndexed (res_indexCount resources)]
        else [Draw meshVertexCount])"

text \<open>The bytes of the model-view-projection matrix: the 64 bytes of its \<open>Float32Array\<close>.\<close>

definition mvp_bytes :: "'m matrix_ops \<Rightarrow> 'm camera \<Rightarrow> 'm drawable \<Rightarrow> byte list" where
  "mvp_bytes M cam mesh =
     map (m_data M (m_multiply M (m_multiply M (cam_projectionMatrix cam) (cam_viewMatrix cam))
                      (dr_worldMatrix mesh)))
         [0..<64]"

text \<open>One turn of the loop of \<open>MeshPass.render\<close>: the error thrown if any, and the state the
  turn leaves (an exception undoes nothing).\<close>

definition mp_draw :: "'c resource_cache \<Rightarrow> 'm matrix_ops \<Rightarrow> 'm camera \<Rightarrow> nat \<Rightarrow> nat list \<Rightarrow> 'c mesh_pass \<Rightarrow> 'm drawable \<Rightarrow> error option \<times> 'c mesh_pass" where
  "mp_draw RC M cam scene lights st mesh =
     (let material = mp_materials st (dr_material mesh);
          (pipeline, pc1, g1) = pc_getOrCreate (mp_pipelines st, mp_gpu st) material
      in case RC (mp_meshResources st) g1 (dr_mesh mesh) (dr_geometry mesh) material pipeline of
           Inl e \<Rightarrow> (Some e, st\<lparr>mp_gpu := g1, mp_pipelines := pc1\<rparr>)
         | Inr (resources, cache2, g2) \<Rightarrow>
             (case writeBuffer g2 (res_uniformBuffer resources) 0 (mvp_bytes M cam mesh) 0 64 of
                Inl e \<Rightarrow> (Some e, st\<lparr>mp_gpu := g2, mp_pipelines := pc1, mp_meshResources := cache2\<rparr>)
              | Inr g3 \<Rightarrow>
                  let renderContext = \<lparr>ctx_camera = cam_object cam, ctx_scene = scene,
                                       ctx_mesh = dr_mesh mesh, ctx_lights = lights\<rparr>;
                      (thrown, material', g4) =
                        mp_writeUniformData g3 (res_uniformBuffer resources) material renderContext;
                      st4 = st\<lparr>mp_gpu := g4, mp_pipelines := pc1, mp_meshResources := cache2,
                               mp_materials := (mp_materials st)(dr_material mesh := material')\<rparr>
                  in case thrown of
                       Some e \<Rightarrow> (Some e, st4)
                     | None \<Rightarrow>
                         (None, st4\<lparr>mp_commands := mp_commands st4
                                       @ mp_drawCommands pipeline resources
                                           (vertexCount (dr_geometry mesh))\<rparr>)))"

text \<open>\<open>MeshPass.render\<close>: the drawables in order, up to the first that throws.\<close>

fun mp_render :: "'c resource_cache \<Rightarrow> 'm matrix_ops \<Rightarrow> 'm camera \<Rightarrow> nat \<Rightarrow> nat list \<Rightarrow> 'c mesh_pass \<Rightarrow> 'm drawable list \<Rightarrow> error option \<times> 'c mesh_pass" where
  "mp_render RC M cam scene lights st [] = (None, st)"
| "mp_render RC M cam scene lights st (mesh # meshes) =
     (case mp_draw RC M cam scene lights st mesh of
        (Some e, st1) \<Rightarrow> (Some e, st1)
      | (None, st1) \<Rightarrow> mp_render RC M cam scene lights st1 meshes)"

text \<open>
  One triangle without texture coordinates, drawn as object 3 by a camera with identity
  matrices, and a store of materials: 0 the basic material; 2 a material with a writer that
  declares data offset 0; 3 a material that declares data offset 0 and has no writer; 4 a
  material of 80 uniform bytes whose writer stores four octets at its offset; 5 a texture
  material. \<open>mp0\<close> is a mesh pass that has drawn nothing yet.
\<close>

definition tri_geometry :: geometry where
  "tri_geometry =
     \<lparr>positions = [-1, -1, 0, 1, -1, 0, 0, 1, 0], normals = [0, 0, 1, 0, 0, 1, 0, 0, 1],
      uvs = None, indices = [0, 1, 2], vertexCount = 3, indexCount = 3\<rparr>"

definition example_materials :: "nat \<Rightarrow> material" where
  "example_materials i =
     (if i = 2 then basicMaterial\<lparr>mat_type := ''custom'',
                     writeUniformData := Some (\<lambda>buf off ctx. Some [(off, [Octet 255])]),
                     getUniformDataOffset := Some 0\<rparr>
      else if i = 3 then basicMaterial\<lparr>mat_type := ''custom'', getUniformDataOffset := Some 0\<rparr>
      else if i = 4 then basicMaterial\<lparr>writeUniformData :=
                     Some (\<lambda>buf off ctx. Some [(off, [Octet 10, Octet 20, Octet 30, Octet 40])])\<rparr>
      else if i = 5 then basicMaterial\<lparr>mat_type := ''texture''\<rparr>
      else basicMaterial)"

definition mp0 :: "(nat \<rightharpoonup> mesh_gpu_resources \<times> handle) mesh_pass" where
  "mp0 = \<lparr>mp_gpu = gpu0, mp_pipelines = new_PipelineCache ''bgra8unorm'' 4,
          mp_meshResources = Map.empty, mp_materials = example_materials, mp_commands = []\<rparr>"

definition example_drawable :: "nat \<Rightarrow> mat4 drawable" where
  "example_drawable i =
     \<lparr>dr_mesh = 3, dr_geometry = tri_geometry, dr_material = i, dr_worldMatrix = mat4_identity\<rparr>"

definition example_camera :: "mat4 camera" where
  "example_camera =
     \<lparr>cam_object = 7, cam_projectionMatrix = mat4_identity, cam_viewMatrix = mat4_identity\<rparr>"

text \<open>The resources of the first drawable a new pass draws: after the two shader modules
  (handles 0 and 1) and the pipeline (2), the buffers 3, 4, 5 and the bind group 6.\<close>

definition example_resources :: mesh_gpu_resources where
  "example_resources =
     \<lparr>res_vertexBuffer = 3, res_indexBuffer = 4, res_uniformBuffer = 5, res_bindGroup = 6,
      res_iblBindGroup = None, res_indexCount = 3, res_indexFormat = ''uint16''\<rparr>"



section \<open>The raycaster (\<open>Raycaster\<close>)\<close>

record intersection =
  isect_distance :: real
  isect_point :: vec3
  isect_object :: nat
  isect_faceIndex :: nat
  isect_normal :: vec3
  isect_uv :: "(real option \<times> real option) option"

text \<open>The raycaster's \<open>far\<close> is \<open>Infinity\<close> unless given: \<open>None\<close>.\<close>

record raycaster =
  rc_ray :: ray
  rc_near :: real
  rc_far :: "real option"

text \<open>
  Reads of the index and position arrays. A read outside an array is \<open>undefined\<close> and makes
  a coordinate of the vertex NaN; every comparison of \<open>intersectTriangle\<close> is then false and
  it returns \<open>null\<close>, so a triangle with such a vertex (\<open>None\<close>) is no hit.
\<close>

definition index_at :: "nat list \<Rightarrow> nat \<Rightarrow> nat option" where
  "index_at xs i = (if i < length xs then Some (xs ! i) else None)"

definition vertex_at :: "real list \<Rightarrow> nat option \<Rightarrow> vec3 option" where
  "vertex_at ps i =
     (case i of
        None \<Rightarrow> None
      | Some j \<Rightarrow> if j * 3 + 2 < length ps
                  then Some (V3 (ps ! (j * 3)) (ps ! (j * 3 + 1)) (ps ! (j * 3 + 2)))
                  else None)"

text \<open>The texture coordinates at the hit, interpolated with barycentric weights; a
  coordinate read outside \<open>uvs\<close> makes the component NaN (\<open>None\<close>).\<close>

definition uv_mix :: "real option \<Rightarrow> real option \<Rightarrow> real option \<Rightarrow> real \<Rightarrow> real \<Rightarrow> real \<Rightarrow> real option" where
  "uv_mix a b c u v w =
     (case (a, b, c) of
        (Some x, Some y, Some z) \<Rightarrow> Some (x * u + y * v + z * w)
      | _ \<Rightarrow> None)"

definition face_uv :: "real list \<Rightarrow> nat \<Rightarrow> nat \<Rightarrow> nat \<Rightarrow> vec3 \<Rightarrow> vec3 \<Rightarrow> vec3 \<Rightarrow> vec3 \<Rightarrow> (real option \<times> real option) option" where
  "face_uv uv i0 i1 i2 v0 v1 v2 point =
     (let edge1 = v_sub v1 v0;
          edge2 = v_sub v2 v0;
          pointLocal = v_sub point v0;
          d00 = v_dot edge1 edge1;
          d01 = v_dot edge1 edge2;
          d11 = v_dot edge2 edge2;
          d20 = v_dot pointLocal edge1;
          d21 = v_dot pointLocal edge2;
          denom = d00 * d11 - d01 * d01
      in if \<bar>denom\<bar> > 1 / 10000000000
         then let v = (d11 * d20 - d01 * d21) / denom;
                  w = (d00 * d21 - d01 * d20) / denom;
                  u = 1 - v - w
              in Some (uv_mix (f32_at uv (i0 * 2)) (f32_at uv (i1 * 2)) (f32_at uv (i2 * 2)) u v w,
                       uv_mix (f32_at uv (i0 * 2 + 1)) (f32_at uv (i1 * 2 + 1))
                              (f32_at uv (i2 * 2 + 1)) u v w)
         else None)"

text \<open>
  One turn of the loop over the triangles in \<open>_intersectObject\<close>, for the face with index
  \<open>faceIndex\<close> (\<open>i = 3 * faceIndex\<close>): the intersection it pushes, if any. \<open>W\<close> is the mesh's
  world matrix and \<open>localRay\<close> the ray in the mesh's local space.
\<close>

definition face_hit :: "'m matrix_ops \<Rightarrow> raycaster \<Rightarrow> 'm \<Rightarrow> ray \<Rightarrow> geometry \<Rightarrow> nat \<Rightarrow> nat \<Rightarrow> intersection option" where
  "face_hit M rc W localRay geo mesh faceIndex =
     (let i0 = index_at (indices geo) (faceIndex * 3);
          i1 = index_at (indices geo) (faceIndex * 3 + 1);
          i2 = index_at (indices geo) (faceIndex * 3 + 2)
      in case (vertex_at (positions geo) i0, vertex_at (positions geo) i1,
               vertex_at (positions geo) i2) of
           (Some v0, Some v1, Some v2) \<Rightarrow>
             (case intersectTriangle localRay v0 v1 v2 of
                None \<Rightarrow> None
              | Some hit \<Rightarrow>
                  if hit_t hit < rc_near rc
                     \<or> (case rc_far rc of None \<Rightarrow> False | Some far \<Rightarrow> hit_t hit > far)
                  then None
                  else
                    let worldPoint = m_transformPoint M W (hit_point hit);
                        worldNormal = v_normalize (m_transformDirection M W (hit_faceNormal hit));
                        distance = v_length (v_sub (ray_origin (rc_ray rc)) worldPoint);
                        uv = (case uvs geo of
                                None \<Rightarrow> None
                              | Some uv \<Rightarrow> face_uv uv (the i0) (the i1) (the i2) v0 v1 v2
                                            (hit_point hit))
                    in Some \<lparr>isect_distance = distance, isect_point = worldPoint,
                             isect_object = mesh, isect_faceIndex = faceIndex,
                             isect_normal = worldNormal, isect_uv = uv\<rparr>)
         | _ \<Rightarrow> None)"

text \<open>The loop: \<open>i = 0, 3, 6, ...\<close> while \<open>i < indices.length\<close>, the hits in the order of
  the faces.\<close>

definition mesh_hits :: "'m matrix_ops \<Rightarrow> raycaster \<Rightarrow> 'm \<Rightarrow> geometry \<Rightarrow> nat \<Rightarrow> intersection list" where
  "mesh_hits M rc W geo mesh =
     (let worldMatrixInverse = m_inverse M W;
          localRayOrigin = m_transformPoint M worldMatrixInverse (ray_origin (rc_ray rc));
          localRayDirection =
            v_normalize (m_transformDirection M worldMatrixInverse (ray_direction (rc_ray rc)));
          localRay = \<lparr>ray_origin = localRayOrigin, ray_direction = localRayDirection\<rparr>
      in List.map_filter (face_hit M rc W localRay geo mesh)
           [0..<(length (indices geo) + 2) div 3])"

text \<open>
  \<open>Raycaster._intersectObject\<close>: objects without a geometry and invisible meshes are
  skipped; otherwise the mesh refreshes its world matrix with its ancestors' and its hits
  are pushed onto \<open>intersections\<close>. The refresh recurses along parent references, so the
  function takes the fuel of \<open>updateWorldMatrix\<close>.
\<close>

definition priv_intersectObject :: "nat \<Rightarrow> 'm matrix_ops \<Rightarrow> raycaster \<Rightarrow> 'm scene \<Rightarrow> nat \<Rightarrow> intersection list \<Rightarrow> ('m scene \<times> intersection list) option" where
  "priv_intersectObject k M rc s object intersections =
     (case mesh_geometry (s object) of
        None \<Rightarrow> Some (s, intersections)
      | Some geo \<Rightarrow>
          if \<not> visible (s object) then Some (s, intersections)
          else
            (case updateWorldMatrix k M s object True False of
               None \<Rightarrow> None
             | Some s1 \<Rightarrow>
                 Some (s1, intersections @ mesh_hits M rc (worldMatrix (s1 object)) geo object)))"

text \<open>One turn of the loop over the children in \<open>intersectObject\<close>.\<close>

definition intersectChild :: "nat \<Rightarrow> 'm matrix_ops \<Rightarrow> raycaster \<Rightarrow> nat \<Rightarrow> ('m scene \<times> intersection list) option \<Rightarrow> ('m scene \<times> intersection list) option" where
  "intersectChild k M rc child acc =
     (case acc of
        None \<Rightarrow> None
      | Some (s, intersections) \<Rightarrow> priv_intersectObject k M rc s child intersections)"

text \<open>\<open>Raycaster.intersectObject\<close>: \<open>Array.prototype.sort\<close> is stable, as is \<open>sort_key\<close>.\<close>

definition intersectObject :: "nat \<Rightarrow> 'm matrix_ops \<Rightarrow> raycaster \<Rightarrow> 'm scene \<Rightarrow> nat \<Rightarrow> bool \<Rightarrow> ('m scene \<times> intersection list) option" where
  "intersectObject k M rc s object recursive =
     (case priv_intersectObject k M rc s object [] of
        None \<Rightarrow> None
      | Some (s1, own) \<Rightarrow>
          (case (if recursive
                 then fold (intersectChild k M rc) (children (s1 object)) (Some (s1, own))
                 else Some (s1, own)) of
             None \<Rightarrow> None
           | Some (s2, intersections) \<Rightarrow> Some (s2, sort_key isect_distance intersections)))"

text \<open>
  What a ray cast is expected to see. \<open>world_of k M s n\<close> is the product of the transforms
  from the root down to \<open>n\<close>, along at most \<open>k\<close> parent references, computed from positions,
  rotations and scales alone; \<open>node_hits\<close> are the hits of a visible mesh under that matrix.
\<close>

fun world_of :: "nat \<Rightarrow> 'm matrix_ops \<Rightarrow> 'm scene \<Rightarrow> nat \<Rightarrow> 'm" where
  "world_of 0 M s n = trs M (s n)"
| "world_of (Suc k) M s n =
     (case parent (s n) of
        None \<Rightarrow> trs M (s n)
      | Some p \<Rightarrow> m_multiply M (world_of k M s p) (trs M (s n)))"

definition node_hits :: "nat \<Rightarrow> 'm matrix_ops \<Rightarrow> raycaster \<Rightarrow> 'm scene \<Rightarrow> nat \<Rightarrow> intersection list" where
  "node_hits k M rc s n =
     (case mesh_geometry (s n) of
        None \<Rightarrow> []
      | Some geo \<Rightarrow> if visible (s n) then mesh_hits M rc (world_of k M s n) geo n else [])"

text \<open>
  Three meshes of the test suite's triangle in a chain: object 5 at the origin, its child 7
  one unit up the Z axis from it, and 7's child 8 one further unit up, so in the world at
  Z = 0, 1 and 2. The ray starts at (0,0,5) and looks down the Z axis.
\<close>

definition ray_geometry :: geometry where
  "ray_geometry =
     \<lparr>positions = [-1, -1, 0, 1, -1, 0, 0, 1, 0], normals = [0, 0, 1, 0, 0, 1, 0, 0, 1],
      uvs = None, indices = [0, 1, 2], vertexCount = 3, indexCount = 3\<rparr>"

definition ray_scene :: "mat4 scene" where
  "ray_scene =
     (let s = add (add scene0 5 7) 7 8
      in s(5 := (s 5)\<lparr>mesh_geometry := Some ray_geometry\<rparr>,
           7 := (s 7)\<lparr>mesh_geometry := Some ray_geometry, position := V3 0 0 1\<rparr>,
           8 := (s 8)\<lparr>mesh_geometry := Some ray_geometry, position := V3 0 0 1\<rparr>))"

definition down_ray :: raycaster where
  "down_ray = \<lparr>rc_ray = \<lparr>ray_origin = V3 0 0 5, ray_direction = V3 0 0 (-1)\<rparr>,
               rc_near = 0, rc_far = None\<rparr>"

text \<open>The hierarchy below a node has fewer than \<open>k\<close> levels (the node itself is one).\<close>

fun levels_below :: "'m scene \<Rightarrow> nat \<Rightarrow> nat \<Rightarrow> bool" where
  "levels_below s n 0 = False"
| "levels_below s n (Suc k) = (\<forall>c\<in>set (children (s n)). levels_below s c k)"

text \<open>What the walk down guarantees, as a property of the fuel.\<close>

definition down_pass_ok :: "nat \<Rightarrow> 'm matrix_ops \<Rightarrow> bool" where
  "down_pass_ok k M \<longleftrightarrow>
     (\<forall>s n s'. linked s \<longrightarrow> parent (s n) \<noteq> Some n \<longrightarrow>
        updateWorldMatrix k M s n False True = Some s' \<longrightarrow>
        same_shape s s'
        \<and> (\<forall>m. m \<notin> descendants_of s n \<longrightarrow> s' m = s m)
        \<and> (\<forall>d\<in>descendants_of s n. matrices_current M s' d))"

text \<open>An object added to itself, as the test suite does, and moved to (1,0,0).\<close>

definition self_scene :: "mat4 scene" where
  "self_scene = (let s = add scene0 5 5 in s(5 := (s 5)\<lparr>position := V3 1 0 0\<rparr>))"

section \<open>Properties of the ray\<close>

lemma sqrt_16: "sqrt 16 = 4"
  using real_sqrt_abs [of 4] by simp

lemmas vec_defs = V3_def v_sub_def v_add_def v_scale_def v_dot_def v_cross_def v_length_def
  v_normalize_def

lemma intersectTriangle_front:
  "intersectTriangle \<lparr>ray_origin = V3 0 0 5, ray_direction = V3 0 0 (-1)\<rparr> tri_a tri_b tri_c
     = Some \<lparr>hit_t = 5, hit_point = V3 0 0 0, hit_faceNormal = V3 0 0 1\<rparr>"
  by (simp add: intersectTriangle_def Let_def vec_defs EPSILON_def ray_at_def sqrt_16
      tri_a_def tri_b_def tri_c_def)

lemma intersectTriangle_away:
  "intersectTriangle \<lparr>ray_origin = V3 0 0 5, ray_direction = V3 0 0 1\<rparr> tri_a tri_b tri_c = None"
  by (simp add: intersectTriangle_def Let_def vec_defs EPSILON_def ray_at_def
      tri_a_def tri_b_def tri_c_def)

lemma intersectTriangle_parallel:
  "intersectTriangle \<lparr>ray_origin = p, ray_direction = V3 dx dy 0\<rparr> tri_a tri_b tri_c = None"
  by (simp add: intersectTriangle_def Let_def vec_defs EPSILON_def tri_a_def tri_b_def tri_c_def)

text \<open>
  C9. On the triangle with vertices (-1,-1,0), (1,-1,0), (0,1,0): the ray from (0,0,5) along
  (0,0,-1) is a hit with \<open>t = 5\<close>, intersection point (0,0,0) and a face normal whose Z
  component is positive; the ray from (0,0,5) along (0,0,1) is no hit; and every ray whose
  direction lies in the triangle's plane (Z component 0), from any origin, is no hit.
\<close>

theorem intersectTriangle_spec_example:
  "(\<exists>h. intersectTriangle \<lparr>ray_origin = V3 0 0 5, ray_direction = V3 0 0 (-1)\<rparr>
          (V3 (-1) (-1) 0) (V3 1 (-1) 0) (V3 0 1 0) = Some h
        \<and> hit_t h = 5 \<and> hit_point h = V3 0 0 0 \<and> 0 < vz (hit_faceNormal h))
   \<and> intersectTriangle \<lparr>ray_origin = V3 0 0 5, ray_direction = V3 0 0 1\<rparr>
          (V3 (-1) (-1) 0) (V3 1 (-1) 0) (V3 0 1 0) = None
   \<and> intersectTriangle \<lparr>ray_origin = p, ray_direction = V3 dx dy 0\<rparr>
          (V3 (-1) (-1) 0) (V3 1 (-1) 0) (V3 0 1 0) = None"
  using intersectTriangle_front intersectTriangle_away intersectTriangle_parallel [of p dx dy]
  by (simp add: tri_a_def tri_b_def tri_c_def V3_def)

section \<open>Properties of the pipeline cache\<close>

lemma topology_string_no_underscore: "CHR ''_'' \<notin> set (topology_string tp)"
  by (cases tp) simp_all

lemma topology_string_inj: "topology_string a = topology_string b \<Longrightarrow> a = b"
  by (cases a; cases b) simp_all

lemma append_first_occurrence:
  "x \<notin> set xs \<Longrightarrow> x \<notin> set xs' \<Longrightarrow> xs @ x # ys = xs' @ x # ys' \<Longrightarrow> xs = xs' \<and> ys = ys'"
proof (induction xs arbitrary: xs')
  case Nil
  then show ?case by (cases xs') auto
next
  case (Cons a xs)
  then show ?case by (cases xs') auto
qed

lemma pipeline_key_eq_iff:
  "pipeline_key m1 = pipeline_key m2 \<longleftrightarrow>
     mat_type m1 = mat_type m2 \<and> getPrimitiveTopology m1 = getPrimitiveTopology m2"
proof
  assume eq: "pipeline_key m1 = pipeline_key m2"
  let ?s1 = "topology_string (getPrimitiveTopology m1)"
  let ?s2 = "topology_string (getPrimitiveTopology m2)"
  from eq have "rev (mat_type m1 @ CHR ''_'' # ?s1) = rev (mat_type m2 @ CHR ''_'' # ?s2)"
    by (simp add: pipeline_key_def)
  then have "rev ?s1 @ CHR ''_'' # rev (mat_type m1) = rev ?s2 @ CHR ''_'' # rev (mat_type m2)"
    by simp
  then have e: "rev ?s1 @ CHR ''_'' # rev (mat_type m1) = rev ?s2 @ CHR ''_'' # rev (mat_type m2)" .
  have n1: "CHR ''_'' \<notin> set (rev ?s1)" and n2: "CHR ''_'' \<notin> set (rev ?s2)"
    using topology_string_no_underscore by simp_all
  have "rev ?s1 = rev ?s2 \<and> rev (mat_type m1) = rev (mat_type m2)"
    by (rule append_first_occurrence [OF n1 n2 e])
  then show "mat_type m1 = mat_type m2 \<and> getPrimitiveTopology m1 = getPrimitiveTopology m2"
    using topology_string_inj by auto
next
  assume "mat_type m1 = mat_type m2 \<and> getPrimitiveTopology m1 = getPrimitiveTopology m2"
  then show "pipeline_key m1 = pipeline_key m2" by (simp add: pipeline_key_def)
qed

lemma pc_getOrCreate_hit:
  "pc_pipelineCache pc (pipeline_key m) = Some h \<Longrightarrow> pc_getOrCreate (pc, g) m = (h, pc, g)"
  by (simp add: pc_getOrCreate_def Let_def)

lemma pc_getOrCreate_miss:
  assumes "pc_pipelineCache pc (pipeline_key m) = None"
  shows "fst (pc_getOrCreate (pc, g) m) = Suc (Suc (gpu_next g))"
    and "pc_pipelineCache (fst (snd (pc_getOrCreate (pc, g) m))) =
           (pc_pipelineCache pc)(pipeline_key m \<mapsto> Suc (Suc (gpu_next g)))"
    and "gpu_next (snd (snd (pc_getOrCreate (pc, g) m))) = Suc (Suc (Suc (gpu_next g)))"
    and "length (gpu_pipelines (snd (snd (pc_getOrCreate (pc, g) m)))) = Suc (length (gpu_pipelines g))"
  using assms
  by (simp_all add: pc_getOrCreate_def Let_def createShaderModule_def createRenderPipeline_def)

lemma pc_getOrCreate_inv:
  assumes "pc_inv st"
  shows "pc_inv (snd (pc_getOrCreate st m))"
proof (cases "pc_pipelineCache (fst st) (pipeline_key m)")
  case (Some h)
  then show ?thesis using assms pc_getOrCreate_hit [of "fst st" m h "snd st"] by simp
next
  case None
  obtain pc g where st: "st = (pc, g)" by (cases st)
  let ?h = "Suc (Suc (gpu_next g))"
  from None st have n: "pc_pipelineCache pc (pipeline_key m) = None" by simp
  have lt: "\<forall>k h. pc_pipelineCache pc k = Some h \<longrightarrow> h < gpu_next g"
    using assms st by (simp add: pc_inv_def)
  have inj: "inj_on (pc_pipelineCache pc) (dom (pc_pipelineCache pc))"
    using assms st by (simp add: pc_inv_def)
  have fresh: "pc_pipelineCache pc k \<noteq> Some ?h" for k
  proof
    assume "pc_pipelineCache pc k = Some ?h"
    with lt have "?h < gpu_next g" by blast
    then show False by simp
  qed
  have "inj_on ((pc_pipelineCache pc)(pipeline_key m \<mapsto> ?h))
          (dom ((pc_pipelineCache pc)(pipeline_key m \<mapsto> ?h)))"
  proof (rule inj_onI)
    fix a b
    assume a: "a \<in> dom ((pc_pipelineCache pc)(pipeline_key m \<mapsto> ?h))"
      and b: "b \<in> dom ((pc_pipelineCache pc)(pipeline_key m \<mapsto> ?h))"
      and eq: "((pc_pipelineCache pc)(pipeline_key m \<mapsto> ?h)) a = ((pc_pipelineCache pc)(pipeline_key m \<mapsto> ?h)) b"
    show "a = b"
    proof (cases "a = pipeline_key m")
      case True
      then show ?thesis using eq fresh [of b] by (auto split: if_splits)
    next
      case False
      note na = this
      show ?thesis
      proof (cases "b = pipeline_key m")
        case True
        then show ?thesis using eq fresh [of a] na by (auto split: if_splits)
      next
        case False
        then have "pc_pipelineCache pc a = pc_pipelineCache pc b" using eq na by simp
        moreover have "a \<in> dom (pc_pipelineCache pc)" "b \<in> dom (pc_pipelineCache pc)"
          using a b na False by auto
        ultimately show ?thesis using inj by (auto dest: inj_onD)
      qed
    qed
  qed
  moreover have "\<forall>k h. ((pc_pipelineCache pc)(pipeline_key m \<mapsto> ?h)) k = Some h
                     \<longrightarrow> h < Suc (Suc (Suc (gpu_next g)))"
    using lt by (auto simp: less_Suc_eq)
  ultimately show ?thesis
    unfolding pc_inv_def st using pc_getOrCreate_miss(2,3) [OF n, of g] by (simp add: split_beta)
qed

lemma pc_run_length: "length (fst (pc_run st ms)) = length ms"
  by (induction ms arbitrary: st) (simp_all add: split_beta Let_def)

text \<open>What a run returns is what the final cache holds.\<close>

lemma pc_getOrCreate_result:
  "pc_pipelineCache (fst (snd (pc_getOrCreate st m))) (pipeline_key m) = Some (fst (pc_getOrCreate st m))"
proof (cases "pc_pipelineCache (fst st) (pipeline_key m)")
  case (Some h)
  then show ?thesis using pc_getOrCreate_hit [of "fst st" m h "snd st"] by simp
next
  case None
  then show ?thesis using pc_getOrCreate_miss(1,2) [of "fst st" m "snd st"] by simp
qed

lemma pc_getOrCreate_mono:
  assumes "pc_pipelineCache (fst st) k = Some h"
  shows "pc_pipelineCache (fst (snd (pc_getOrCreate st m))) k = Some h"
proof (cases "pc_pipelineCache (fst st) (pipeline_key m)")
  case (Some h')
  then show ?thesis using assms pc_getOrCreate_hit [of "fst st" m h' "snd st"] by simp
next
  case None
  then have "k \<noteq> pipeline_key m" using assms by auto
  then show ?thesis using assms pc_getOrCreate_miss(2) [of "fst st" m "snd st"] None by simp
qed

lemma pc_run_mono:
  "pc_pipelineCache (fst st) k = Some h \<Longrightarrow> pc_pipelineCache (fst (snd (pc_run st ms))) k = Some h"
proof (induction ms arbitrary: st)
  case Nil
  then show ?case by simp
next
  case (Cons m ms)
  from Cons.IH [OF pc_getOrCreate_mono [OF Cons.prems, of m]]
  show ?case by (simp add: split_beta Let_def)
qed

lemma pc_run_inv: "pc_inv st \<Longrightarrow> pc_inv (snd (pc_run st ms))"
proof (induction ms arbitrary: st)
  case Nil
  then show ?case by simp
next
  case (Cons m ms)
  from Cons.IH [OF pc_getOrCreate_inv [OF Cons.prems, of m]]
  show ?case by (simp add: split_beta Let_def)
qed

lemma pc_run_result:
  "i < length ms \<Longrightarrow>
     pc_pipelineCache (fst (snd (pc_run st ms))) (pipeline_key (ms ! i)) = Some (fst (pc_run st ms) ! i)"
proof (induction ms arbitrary: st i)
  case Nil
  then show ?case by simp
next
  case (Cons m ms)
  show ?case
  proof (cases i)
    case 0
    then show ?thesis
      using pc_run_mono [OF pc_getOrCreate_result [of st m], of ms]
      by (simp add: split_beta Let_def)
  next
    case (Suc j)
    then show ?thesis using Cons.IH [of j "snd (pc_getOrCreate st m)"] Cons.prems
      by (simp add: split_beta Let_def)
  qed
qed

lemma pc_getOrCreate_hit_count:
  "pc_pipelineCache (fst st) (pipeline_key m) = Some h \<Longrightarrow> snd (pc_getOrCreate st m) = st"
  using pc_getOrCreate_hit [of "fst st" m h "snd st"] by simp

lemma pc_run_count:
  "length (gpu_pipelines (snd (snd (pc_run st ms)))) =
     length (gpu_pipelines (snd st)) + card (pipeline_key ` set ms - dom (pc_pipelineCache (fst st)))"
proof (induction ms arbitrary: st)
  case Nil
  then show ?case by simp
next
  case (Cons m ms)
  let ?st1 = "snd (pc_getOrCreate st m)"
  have step: "length (gpu_pipelines (snd (snd (pc_run st (m # ms))))) =
      length (gpu_pipelines (snd ?st1)) + card (pipeline_key ` set ms - dom (pc_pipelineCache (fst ?st1)))"
    using Cons.IH [of ?st1] by (simp add: split_beta Let_def)
  show ?case
  proof (cases "pc_pipelineCache (fst st) (pipeline_key m)")
    case (Some h)
    then have "?st1 = st" by (rule pc_getOrCreate_hit_count)
    moreover have "pipeline_key ` set (m # ms) - dom (pc_pipelineCache (fst st))
                 = pipeline_key ` set ms - dom (pc_pipelineCache (fst st))"
      using Some by auto
    ultimately show ?thesis using step by simp
  next
    case None
    let ?D = "dom (pc_pipelineCache (fst st))"
    let ?A = "pipeline_key ` set ms"
    have d: "dom (pc_pipelineCache (fst ?st1)) = insert (pipeline_key m) ?D"
      using pc_getOrCreate_miss(2) [OF None, of "snd st"] by simp
    have l: "length (gpu_pipelines (snd ?st1)) = Suc (length (gpu_pipelines (snd st)))"
      using pc_getOrCreate_miss(4) [OF None, of "snd st"] by simp
    have notin: "pipeline_key m \<notin> ?D" using None by auto
    have split: "pipeline_key ` set (m # ms) - ?D = insert (pipeline_key m) (?A - insert (pipeline_key m) ?D)"
      using notin by auto
    have nin: "pipeline_key m \<notin> ?A - insert (pipeline_key m) ?D" by simp
    have fin: "finite (?A - insert (pipeline_key m) ?D)" by simp
    have "card (insert (pipeline_key m) (?A - insert (pipeline_key m) ?D))
            = Suc (card (?A - insert (pipeline_key m) ?D))"
      using card_insert_disjoint [OF fin nin] .
    then have "card (pipeline_key ` set (m # ms) - ?D) = Suc (card (?A - insert (pipeline_key m) ?D))"
      by (simp only: split)
    then show ?thesis using step d l by simp
  qed
qed

lemma card_pipeline_keys:
  "card (pipeline_key ` set ms) = card ((\<lambda>m. (mat_type m, getPrimitiveTopology m)) ` set ms)"
proof -
  let ?f = "\<lambda>p. fst p @ ''_'' @ topology_string (snd p)"
  let ?pair = "\<lambda>m. (mat_type m, getPrimitiveTopology m)"
  have "inj_on ?f (?pair ` set ms)"
  proof (rule inj_onI)
    fix a b
    assume ain: "a \<in> ?pair ` set ms" and bin: "b \<in> ?pair ` set ms" and eq: "?f a = ?f b"
    from ain obtain m1 :: material where a: "a = ?pair m1" by auto
    from bin obtain m2 :: material where b: "b = ?pair m2" by auto
    from eq a b have "pipeline_key m1 = pipeline_key m2" by (simp add: pipeline_key_def)
    then show "a = b" using a b by (simp add: pipeline_key_eq_iff)
  qed
  then have "card (?f ` ?pair ` set ms) = card (?pair ` set ms)" by (rule card_image)
  moreover have "?f ` ?pair ` set ms = pipeline_key ` set ms"
    by (auto simp: pipeline_key_def image_iff)
  ultimately show ?thesis by simp
qed

text \<open>
  C3. For every sequence of \<open>getOrCreate\<close> calls on one new pipeline cache, on any
  device: two calls return the same pipeline object exactly when their materials have the
  same kind and the same primitive topology (so a different topology gives a different
  object, under a different key); each material's key holds the object returned for it; and
  the number of pipeline objects the device created is the number of distinct
  (kind, topology) pairs among the materials.
\<close>

theorem pipeline_cache_one_per_kind_and_topology:
  assumes run: "pc_run (new_PipelineCache format sampleCount, g) ms = (ps, pc', g')"
  shows "length ps = length ms
    \<and> (\<forall>i<length ms. \<forall>j<length ms.
          (ps ! i = ps ! j) =
          (mat_type (ms ! i) = mat_type (ms ! j)
           \<and> getPrimitiveTopology (ms ! i) = getPrimitiveTopology (ms ! j)))
    \<and> (\<forall>i<length ms. pc_pipelineCache pc' (pipeline_key (ms ! i)) = Some (ps ! i))
    \<and> length (gpu_pipelines g')
        = length (gpu_pipelines g) + card ((\<lambda>m. (mat_type m, getPrimitiveTopology m)) ` set ms)"
proof -
  let ?st = "(new_PipelineCache format sampleCount, g)"
  have inv0: "pc_inv ?st" by (simp add: pc_inv_def new_PipelineCache_def)
  have inv: "pc_inv (pc', g')" using pc_run_inv [OF inv0, of ms] run by simp
  have len: "length ps = length ms" using pc_run_length [of ?st ms] run by simp
  have res: "pc_pipelineCache pc' (pipeline_key (ms ! i)) = Some (ps ! i)" if "i < length ms" for i
    using pc_run_result [OF that, of ?st] run by simp
  have same: "(ps ! i = ps ! j) =
          (mat_type (ms ! i) = mat_type (ms ! j)
           \<and> getPrimitiveTopology (ms ! i) = getPrimitiveTopology (ms ! j))"
    if i: "i < length ms" and j: "j < length ms" for i j
  proof -
    have inj: "inj_on (pc_pipelineCache pc') (dom (pc_pipelineCache pc'))"
      using inv by (simp add: pc_inv_def)
    have "(ps ! i = ps ! j) = (pipeline_key (ms ! i) = pipeline_key (ms ! j))"
    proof
      assume "ps ! i = ps ! j"
      then have "pc_pipelineCache pc' (pipeline_key (ms ! i)) = pc_pipelineCache pc' (pipeline_key (ms ! j))"
        using res [OF i] res [OF j] by simp
      moreover have "pipeline_key (ms ! i) \<in> dom (pc_pipelineCache pc')"
        "pipeline_key (ms ! j) \<in> dom (pc_pipelineCache pc')"
        using res [OF i] res [OF j] by auto
      ultimately show "pipeline_key (ms ! i) = pipeline_key (ms ! j)"
        using inj by (auto dest: inj_onD)
    next
      assume "pipeline_key (ms ! i) = pipeline_key (ms ! j)"
      then show "ps ! i = ps ! j" using res [OF i] res [OF j] by simp
    qed
    then show ?thesis by (simp add: pipeline_key_eq_iff)
  qed
  have cnt: "length (gpu_pipelines g')
        = length (gpu_pipelines g) + card ((\<lambda>m. (mat_type m, getPrimitiveTopology m)) ` set ms)"
    using pc_run_count [of ?st ms] run card_pipeline_keys [of ms]
    by (simp add: new_PipelineCache_def)
  show ?thesis using len same res cnt by blast
qed

lemma pc_run_example:
  "fst (pc_run (new_PipelineCache ''bgra8unorm'' 4, gpu0) [basicMaterial, basicMaterial2, wireMaterial])
     = [2, 2, 5]"
  by (simp add: pc_getOrCreate_def Let_def createShaderModule_def createRenderPipeline_def
      new_PipelineCache_def gpu0_def basicMaterial_def basicMaterial2_def wireMaterial_def
      pipeline_key_def split_beta)

theorem pipeline_cache_witness:
  "(let r = pc_run (new_PipelineCache ''bgra8unorm'' 4, gpu0) [basicMaterial, basicMaterial2, wireMaterial]
    in fst r = [2, 2, 5] \<and> fst r ! 0 = fst r ! 1 \<and> fst r ! 0 \<noteq> fst r ! 2
       \<and> length (gpu_pipelines (snd (snd r))) = 2)"
proof -
  let ?ms = "[basicMaterial, basicMaterial2, wireMaterial]"
  let ?r = "pc_run (new_PipelineCache ''bgra8unorm'' 4, gpu0) ?ms"
  have run: "?r = (fst ?r, fst (snd ?r), snd (snd ?r))" by simp
  note t = pipeline_cache_one_per_kind_and_topology [OF run]
  have pairs: "(\<lambda>m. (mat_type m, getPrimitiveTopology m)) ` set ?ms
      = {(''basic'', TriangleList), (''basic'', LineList)}"
    by (auto simp: basicMaterial_def basicMaterial2_def wireMaterial_def)
  from t have same: "\<forall>i<length ?ms. \<forall>j<length ?ms.
          (fst ?r ! i = fst ?r ! j) =
          (mat_type (?ms ! i) = mat_type (?ms ! j)
           \<and> getPrimitiveTopology (?ms ! i) = getPrimitiveTopology (?ms ! j))"
    by (rule conjunct1 [OF conjunct2])
  have l0: "(0::nat) < length ?ms" and l1: "(1::nat) < length ?ms" and l2: "(2::nat) < length ?ms"
    by simp_all
  have "(fst ?r ! 0 = fst ?r ! 1) =
     (mat_type (?ms ! 0) = mat_type (?ms ! 1)
      \<and> getPrimitiveTopology (?ms ! 0) = getPrimitiveTopology (?ms ! 1))"
    using same [rule_format, OF l0 l1] .
  then have a: "fst ?r ! 0 = fst ?r ! 1"
    by (simp add: basicMaterial_def basicMaterial2_def wireMaterial_def)
  have "(fst ?r ! 0 = fst ?r ! 2) =
     (mat_type (?ms ! 0) = mat_type (?ms ! 2)
      \<and> getPrimitiveTopology (?ms ! 0) = getPrimitiveTopology (?ms ! 2))"
    using same [rule_format, OF l0 l2] .
  then have b: "fst ?r ! 0 \<noteq> fst ?r ! 2"
    by (simp add: basicMaterial_def basicMaterial2_def wireMaterial_def)
  from t have "length (gpu_pipelines (snd (snd ?r)))
        = length (gpu_pipelines gpu0) + card ((\<lambda>m. (mat_type m, getPrimitiveTopology m)) ` set ?ms)"
    by (rule conjunct2 [OF conjunct2 [OF conjunct2]])
  then have c: "length (gpu_pipelines (snd (snd ?r))) = 2"
    unfolding pairs by (simp add: gpu0_def)
  show ?thesis using a b c pc_run_example by (simp add: Let_def)
qed

section \<open>Properties of the skybox pass\<close>

lemma createShaderModule_simps:
  "fst (createShaderModule g l c) = gpu_next g"
  "gpu_next (snd (createShaderModule g l c)) = Suc (gpu_next g)"
  "gpu_destroyed (snd (createShaderModule g l c)) = gpu_destroyed g"
  "gpu_buffers (snd (createShaderModule g l c)) = gpu_buffers g"
  "gpu_pipelines (snd (createShaderModule g l c)) = gpu_pipelines g"
  "gpu_bind_groups (snd (createShaderModule g l c)) = gpu_bind_groups g"
  "gpu_modules (snd (createShaderModule g l c)) = (gpu_next g, l, c) # gpu_modules g"
  "gpu_writes (snd (createShaderModule g l c)) = gpu_writes g"
  by (simp_all add: createShaderModule_def)

lemma createRenderPipeline_simps:
  "fst (createRenderPipeline g d) = gpu_next g"
  "gpu_next (snd (createRenderPipeline g d)) = Suc (gpu_next g)"
  "gpu_destroyed (snd (createRenderPipeline g d)) = gpu_destroyed g"
  "gpu_buffers (snd (createRenderPipeline g d)) = gpu_buffers g"
  "gpu_pipelines (snd (createRenderPipeline g d)) = (gpu_next g, d) # gpu_pipelines g"
  "gpu_bind_groups (snd (createRenderPipeline g d)) = gpu_bind_groups g"
  "gpu_modules (snd (createRenderPipeline g d)) = gpu_modules g"
  "gpu_writes (snd (createRenderPipeline g d)) = gpu_writes g"
  by (simp_all add: createRenderPipeline_def)

lemma createBuffer_simps:
  "fst (createBuffer g n) = gpu_next g"
  "gpu_next (snd (createBuffer g n)) = Suc (gpu_next g)"
  "gpu_destroyed (snd (createBuffer g n)) = gpu_destroyed g"
  "gpu_buffers (snd (createBuffer g n)) = (gpu_buffers g)(gpu_next g \<mapsto> replicate (nat n) (Octet 0))"
  "gpu_pipelines (snd (createBuffer g n)) = gpu_pipelines g"
  "gpu_bind_groups (snd (createBuffer g n)) = gpu_bind_groups g"
  "gpu_modules (snd (createBuffer g n)) = gpu_modules g"
  "gpu_writes (snd (createBuffer g n)) = gpu_writes g"
  by (simp_all add: createBuffer_def)

lemma createBindGroup_simps:
  "fst (createBindGroup g es) = gpu_next g"
  "gpu_next (snd (createBindGroup g es)) = Suc (gpu_next g)"
  "gpu_destroyed (snd (createBindGroup g es)) = gpu_destroyed g"
  "gpu_buffers (snd (createBindGroup g es)) = gpu_buffers g"
  "gpu_pipelines (snd (createBindGroup g es)) = gpu_pipelines g"
  "gpu_bind_groups (snd (createBindGroup g es)) = (gpu_next g, es) # gpu_bind_groups g"
  "gpu_modules (snd (createBindGroup g es)) = gpu_modules g"
  "gpu_writes (snd (createBindGroup g es)) = gpu_writes g"
  by (simp_all add: createBindGroup_def)

lemma destroyBuffer_simps:
  "gpu_next (destroyBuffer g b) = gpu_next g"
  "gpu_destroyed (destroyBuffer g b) = b # gpu_destroyed g"
  "gpu_buffers (destroyBuffer g b) = gpu_buffers g"
  "gpu_pipelines (destroyBuffer g b) = gpu_pipelines g"
  "gpu_bind_groups (destroyBuffer g b) = gpu_bind_groups g"
  "gpu_modules (destroyBuffer g b) = gpu_modules g"
  "gpu_writes (destroyBuffer g b) = gpu_writes g"
  by (simp_all add: destroyBuffer_def)

lemma sky_bindGroupEntries_simps:
  "gpu_next g < gpu_next (snd (snd (sky_bindGroupEntries fb g m ub)))"
  "gpu_destroyed (snd (snd (sky_bindGroupEntries fb g m ub))) = gpu_destroyed g"
  "gpu_buffers (snd (snd (sky_bindGroupEntries fb g m ub))) = gpu_buffers g"
  "gpu_pipelines (snd (snd (sky_bindGroupEntries fb g m ub))) = gpu_pipelines g"
  "gpu_bind_groups (snd (snd (sky_bindGroupEntries fb g m ub))) = gpu_bind_groups g"
  "gpu_modules (snd (snd (sky_bindGroupEntries fb g m ub))) = gpu_modules g"
  "gpu_writes (snd (snd (sky_bindGroupEntries fb g m ub))) = gpu_writes g"
  by (simp_all add: sky_bindGroupEntries_def createView_def getDummyCubeTexture_def createTexture_def
      Let_def split_beta split: option.splits)

text \<open>The entries: the uniform buffer, the material's sampler, a new view of its texture, and
  the material's cube view or a new view of the fallback's dummy cube texture.\<close>

lemma sky_bindGroupEntries_entries:
  "\<exists>cube. fst (sky_bindGroupEntries fb g m ub) = [ub, sky_gpuSampler m, gpu_next g, cube]
     \<and> (case sky_getCubeTexture m of
          Some cv \<Rightarrow> cube = cv
        | None \<Rightarrow> gpu_next g < cube \<and> cube < gpu_next (snd (snd (sky_bindGroupEntries fb g m ub))))"
  by (simp add: sky_bindGroupEntries_def createView_def getDummyCubeTexture_def createTexture_def
      Let_def split_beta split: option.splits)

lemma sky_bindGroupEntries_fallback:
  "fb_dummyBrdfLUT (fst (snd (sky_bindGroupEntries fb g m ub))) = fb_dummyBrdfLUT fb"
  "sky_getCubeTexture m \<noteq> None \<Longrightarrow> fst (snd (sky_bindGroupEntries fb g m ub)) = fb"
  "sky_getCubeTexture m = None \<Longrightarrow> fb_dummyCubeTexture (fst (snd (sky_bindGroupEntries fb g m ub))) \<noteq> None"
  by (auto simp add: sky_bindGroupEntries_def createView_def getDummyCubeTexture_def createTexture_def
      Let_def split_beta split: option.splits)

lemmas gpu_simps = createShaderModule_simps createRenderPipeline_simps createBuffer_simps
  createBindGroup_simps sky_bindGroupEntries_simps(2-7)

lemma sky_create_facts:
  assumes "sky_create sp fb g material = (r', sp', fb', g')"
  shows "sr_pipeline r' = Suc (Suc (gpu_next g))"
    and "sr_uniformBuffer r' = Suc (Suc (Suc (gpu_next g)))"
    and "Suc (Suc (Suc (gpu_next g))) < sr_bindGroup r'"
    and "gpu_next g' = Suc (sr_bindGroup r')"
    and "sr_material r' = sky_identity material"
    and "sr_bindingRevision r' = sky_bindingRevision material"
    and "sp' = sp\<lparr>sp_resources := Some r'\<rparr>"
    and "gpu_destroyed g' = gpu_destroyed g"
    and "gpu_buffers g' = (gpu_buffers g)(sr_uniformBuffer r' \<mapsto>
           replicate (nat (sky_getUniformBufferSize material)) (Octet 0))"
    and "gpu_modules g' =
           (Suc (gpu_next g), ''Skybox Fragment Shader'', sky_getFragmentShader material)
           # (gpu_next g, ''Skybox Vertex Shader'', sky_getVertexShader material) # gpu_modules g"
    and "gpu_pipelines g' =
           (sr_pipeline r',
            \<lparr>pd_label = ''Skybox Pipeline'', pd_vertex_module = gpu_next g,
             pd_fragment_module = Suc (gpu_next g), pd_buffers = [],
             pd_topology = TriangleList, pd_cullMode = Some ''none'',
             pd_depthWriteEnabled = False, pd_depthCompare = ''less-equal'',
             pd_sampleCount = sp_sampleCount sp\<rparr>) # gpu_pipelines g"
    and "\<exists>view cube. gpu_bind_groups g' =
           (sr_bindGroup r', [sr_uniformBuffer r', sky_gpuSampler material, view, cube])
           # gpu_bind_groups g
         \<and> sr_uniformBuffer r' < view \<and> view < sr_bindGroup r'
         \<and> (case sky_getCubeTexture material of
              Some cv \<Rightarrow> cube = cv
            | None \<Rightarrow> view < cube \<and> cube < sr_bindGroup r')"
    and "fb_dummyBrdfLUT fb' = fb_dummyBrdfLUT fb"
    and "sky_getCubeTexture material \<noteq> None \<longrightarrow> fb' = fb"
    and "gpu_writes g' = gpu_writes g"
proof -
  let ?d = "\<lparr>pd_label = ''Skybox Pipeline'', pd_vertex_module = gpu_next g,
             pd_fragment_module = Suc (gpu_next g), pd_buffers = [],
             pd_topology = TriangleList, pd_cullMode = Some ''none'',
             pd_depthWriteEnabled = False, pd_depthCompare = ''less-equal'',
             pd_sampleCount = sp_sampleCount sp\<rparr>"
  let ?g4 = "snd (createBuffer (snd (createRenderPipeline (snd (createShaderModule (snd (createShaderModule g ''Skybox Vertex Shader'' (sky_getVertexShader material))) ''Skybox Fragment Shader'' (sky_getFragmentShader material))) ?d)) (sky_getUniformBufferSize material))"
  have n4: "gpu_next ?g4 = Suc (Suc (Suc (Suc (gpu_next g))))" by (simp add: gpu_simps)
  let ?ub = "Suc (Suc (Suc (gpu_next g)))"
  let ?E = "sky_bindGroupEntries fb ?g4 material ?ub"
  have lt: "gpu_next ?g4 < gpu_next (snd (snd ?E))" by (rule sky_bindGroupEntries_simps(1))
  from assms have r': "r' = \<lparr>sr_pipeline = Suc (Suc (gpu_next g)), sr_uniformBuffer = ?ub,
               sr_bindGroup = gpu_next (snd (snd ?E)), sr_material = sky_identity material,
               sr_bindingRevision = sky_bindingRevision material\<rparr>"
    and sp': "sp' = sp\<lparr>sp_resources := Some r'\<rparr>"
    and fb': "fb' = fst (snd ?E)"
    and g': "g' = snd (createBindGroup (snd (snd ?E)) (fst ?E))"
    by (auto simp add: sky_create_def Let_def split_beta gpu_simps)
  show "sr_pipeline r' = Suc (Suc (gpu_next g))" by (simp add: r')
  show "sr_uniformBuffer r' = ?ub" by (simp add: r')
  show "?ub < sr_bindGroup r'" using lt n4 by (simp add: r')
  show "gpu_next g' = Suc (sr_bindGroup r')" by (simp add: r' g' gpu_simps)
  show "sr_material r' = sky_identity material" by (simp add: r')
  show "sr_bindingRevision r' = sky_bindingRevision material" by (simp add: r')
  show "sp' = sp\<lparr>sp_resources := Some r'\<rparr>" by (rule sp')
  show "gpu_destroyed g' = gpu_destroyed g" by (simp add: g' gpu_simps)
  show "gpu_buffers g' = (gpu_buffers g)(sr_uniformBuffer r' \<mapsto>
           replicate (nat (sky_getUniformBufferSize material)) (Octet 0))"
    by (simp add: g' r' gpu_simps)
  show "gpu_modules g' =
           (Suc (gpu_next g), ''Skybox Fragment Shader'', sky_getFragmentShader material)
           # (gpu_next g, ''Skybox Vertex Shader'', sky_getVertexShader material) # gpu_modules g"
    by (simp add: g' gpu_simps)
  show "gpu_pipelines g' = (sr_pipeline r', ?d) # gpu_pipelines g"
    by (simp add: g' r' gpu_simps)
  from sky_bindGroupEntries_entries [of fb ?g4 material ?ub]
  obtain cube where e: "fst ?E = [?ub, sky_gpuSampler material, gpu_next ?g4, cube]"
    and c: "(case sky_getCubeTexture material of
          Some cv \<Rightarrow> cube = cv
        | None \<Rightarrow> gpu_next ?g4 < cube \<and> cube < gpu_next (snd (snd ?E)))"
    by blast
  have bg: "gpu_bind_groups g' = (sr_bindGroup r', [sr_uniformBuffer r', sky_gpuSampler material, gpu_next ?g4, cube])
           # gpu_bind_groups g"
    by (simp add: g' r' gpu_simps e)
  have v1: "sr_uniformBuffer r' < gpu_next ?g4" by (simp add: r' n4)
  have v2: "gpu_next ?g4 < sr_bindGroup r'" using lt by (simp add: r')
  have c': "(case sky_getCubeTexture material of
          Some cv \<Rightarrow> cube = cv
        | None \<Rightarrow> gpu_next ?g4 < cube \<and> cube < sr_bindGroup r')"
    using c by (cases "sky_getCubeTexture material") (simp_all add: r')
  show "\<exists>view cube. gpu_bind_groups g' =
           (sr_bindGroup r', [sr_uniformBuffer r', sky_gpuSampler material, view, cube])
           # gpu_bind_groups g
         \<and> sr_uniformBuffer r' < view \<and> view < sr_bindGroup r'
         \<and> (case sky_getCubeTexture material of
              Some cv \<Rightarrow> cube = cv
            | None \<Rightarrow> view < cube \<and> cube < sr_bindGroup r')"
    using bg v1 v2 c' by blast
  show "fb_dummyBrdfLUT fb' = fb_dummyBrdfLUT fb" by (simp add: fb' sky_bindGroupEntries_fallback)
  show "sky_getCubeTexture material \<noteq> None \<longrightarrow> fb' = fb"
    by (simp add: fb' sky_bindGroupEntries_fallback)
  show "gpu_writes g' = gpu_writes g" by (simp add: g' gpu_simps)
qed

lemma sky_rebind_facts:
  assumes "sky_rebind r sp fb g material = (r', sp', fb', g')"
  shows "sr_pipeline r' = sr_pipeline r"
    and "sr_uniformBuffer r' = sr_uniformBuffer r"
    and "sr_material r' = sr_material r"
    and "gpu_next g < sr_bindGroup r'"
    and "gpu_next g' = Suc (sr_bindGroup r')"
    and "sr_bindingRevision r' = sky_bindingRevision material"
    and "sp' = sp\<lparr>sp_resources := Some r'\<rparr>"
    and "gpu_destroyed g' = gpu_destroyed g"
    and "gpu_buffers g' = gpu_buffers g"
    and "gpu_pipelines g' = gpu_pipelines g"
    and "gpu_modules g' = gpu_modules g"
    and "\<exists>cube. gpu_bind_groups g' =
           (sr_bindGroup r', [sr_uniformBuffer r, sky_gpuSampler material, gpu_next g, cube])
           # gpu_bind_groups g
         \<and> (case sky_getCubeTexture material of
              Some cv \<Rightarrow> cube = cv
            | None \<Rightarrow> gpu_next g < cube \<and> cube < sr_bindGroup r')"
    and "fb_dummyBrdfLUT fb' = fb_dummyBrdfLUT fb"
    and "sky_getCubeTexture material \<noteq> None \<longrightarrow> fb' = fb"
    and "gpu_writes g' = gpu_writes g"
proof -
  let ?E = "sky_bindGroupEntries fb g material (sr_uniformBuffer r)"
  have lt: "gpu_next g < gpu_next (snd (snd ?E))" by (rule sky_bindGroupEntries_simps(1))
  from assms have r': "r' = r\<lparr>sr_bindGroup := gpu_next (snd (snd ?E)),
                 sr_bindingRevision := sky_bindingRevision material\<rparr>"
    and sp': "sp' = sp\<lparr>sp_resources := Some r'\<rparr>"
    and fb': "fb' = fst (snd ?E)"
    and g': "g' = snd (createBindGroup (snd (snd ?E)) (fst ?E))"
    by (auto simp add: sky_rebind_def Let_def split_beta gpu_simps)
  show "sr_pipeline r' = sr_pipeline r" by (simp add: r')
  show "sr_uniformBuffer r' = sr_uniformBuffer r" by (simp add: r')
  show "sr_material r' = sr_material r" by (simp add: r')
  show "gpu_next g < sr_bindGroup r'" using lt by (simp add: r')
  show "gpu_next g' = Suc (sr_bindGroup r')" by (simp add: r' g' gpu_simps)
  show "sr_bindingRevision r' = sky_bindingRevision material" by (simp add: r')
  show "sp' = sp\<lparr>sp_resources := Some r'\<rparr>" by (rule sp')
  show "gpu_destroyed g' = gpu_destroyed g" by (simp add: g' gpu_simps)
  show "gpu_buffers g' = gpu_buffers g" by (simp add: g' gpu_simps)
  show "gpu_pipelines g' = gpu_pipelines g" by (simp add: g' gpu_simps)
  show "gpu_modules g' = gpu_modules g" by (simp add: g' gpu_simps)
  from sky_bindGroupEntries_entries [of fb g material "sr_uniformBuffer r"]
  obtain cube where e: "fst ?E = [sr_uniformBuffer r, sky_gpuSampler material, gpu_next g, cube]"
    and c: "(case sky_getCubeTexture material of
          Some cv \<Rightarrow> cube = cv
        | None \<Rightarrow> gpu_next g < cube \<and> cube < gpu_next (snd (snd ?E)))"
    by blast
  have bg: "gpu_bind_groups g' =
           (sr_bindGroup r', [sr_uniformBuffer r, sky_gpuSampler material, gpu_next g, cube])
           # gpu_bind_groups g"
    by (simp add: g' r' gpu_simps e)
  have c': "(case sky_getCubeTexture material of
          Some cv \<Rightarrow> cube = cv
        | None \<Rightarrow> gpu_next g < cube \<and> cube < sr_bindGroup r')"
    using c by (cases "sky_getCubeTexture material") (simp_all add: r')
  show "\<exists>cube. gpu_bind_groups g' =
           (sr_bindGroup r', [sr_uniformBuffer r, sky_gpuSampler material, gpu_next g, cube])
           # gpu_bind_groups g
         \<and> (case sky_getCubeTexture material of
              Some cv \<Rightarrow> cube = cv
            | None \<Rightarrow> gpu_next g < cube \<and> cube < sr_bindGroup r')"
    using bg c' by blast
  show "fb_dummyBrdfLUT fb' = fb_dummyBrdfLUT fb" by (simp add: fb' sky_bindGroupEntries_fallback)
  show "sky_getCubeTexture material \<noteq> None \<longrightarrow> fb' = fb"
    by (simp add: fb' sky_bindGroupEntries_fallback)
  show "gpu_writes g' = gpu_writes g" by (simp add: g' gpu_simps)
qed

lemma sky_getOrCreateResources_reuse:
  assumes "sp_resources sp = Some r" "sr_material r = sky_identity material"
    "sr_bindingRevision r = sky_bindingRevision material"
  shows "sky_getOrCreateResources sp fb g material = (r, sp, fb, g)"
  using assms by (simp add: sky_getOrCreateResources_def sky_dropStale_def)

lemma sky_getOrCreateResources_rebind:
  assumes "sp_resources sp = Some r" "sr_material r = sky_identity material"
    "sr_bindingRevision r \<noteq> sky_bindingRevision material"
  shows "sky_getOrCreateResources sp fb g material = sky_rebind r sp fb g material"
  using assms by (simp add: sky_getOrCreateResources_def sky_dropStale_def)

lemma sky_getOrCreateResources_rebuild:
  assumes "sp_resources sp = Some r" "sr_material r \<noteq> sky_identity material"
  shows "sky_getOrCreateResources sp fb g material =
     sky_create (sp\<lparr>sp_resources := None\<rparr>) fb (destroyBuffer g (sr_uniformBuffer r)) material"
  using assms by (simp add: sky_getOrCreateResources_def sky_dropStale_def)

lemma sky_getOrCreateResources_first:
  assumes "sp_resources sp = None"
  shows "sky_getOrCreateResources sp fb g material = sky_create sp fb g material"
  using assms by (simp add: sky_getOrCreateResources_def sky_dropStale_def)

text \<open>
  C4. With resources cached for a skybox material, the next call of the pass for a material
  \<^item> of another identity destroys the cached uniform buffer and rebuilds everything: the
    device creates two shader modules, one pipeline (the skybox descriptor), one zero-filled
    uniform buffer of the material's size and one bind group over that buffer, the
    material's sampler, a new texture view and a cube view; the record returned names these
    new objects, which differ from the cached ones;
  \<^item> of the same identity at another binding revision rebuilds the bind group only: the
    device creates one bind group over the cached uniform buffer, the material's sampler, a
    new texture view and a cube view, and no module, pipeline or buffer, and destroys
    nothing; the record keeps its pipeline and uniform buffer and takes the new revision;
  \<^item> of the same identity at the same revision returns the cached record and changes neither
    the pass, the fallback provider nor the device.
  In each case the pass caches the record it returns, and no case writes to a buffer.
\<close>

theorem skybox_rebuild_policy:
  assumes cached: "sp_resources sp = Some r"
    and inv: "sky_inv sp g"
    and res: "sky_getOrCreateResources sp fb g material = (r', sp', fb', g')"
  shows "sp' = sp\<lparr>sp_resources := Some r'\<rparr>
    \<and> (sr_material r \<noteq> sky_identity material \<longrightarrow>
          gpu_destroyed g' = sr_uniformBuffer r # gpu_destroyed g
        \<and> gpu_modules g' =
            (Suc (gpu_next g), ''Skybox Fragment Shader'', sky_getFragmentShader material)
            # (gpu_next g, ''Skybox Vertex Shader'', sky_getVertexShader material) # gpu_modules g
        \<and> gpu_pipelines g' =
            (sr_pipeline r',
             \<lparr>pd_label = ''Skybox Pipeline'', pd_vertex_module = gpu_next g,
              pd_fragment_module = Suc (gpu_next g), pd_buffers = [],
              pd_topology = TriangleList, pd_cullMode = Some ''none'',
              pd_depthWriteEnabled = False, pd_depthCompare = ''less-equal'',
              pd_sampleCount = sp_sampleCount sp\<rparr>) # gpu_pipelines g
        \<and> gpu_buffers g' = (gpu_buffers g)(sr_uniformBuffer r' \<mapsto>
            replicate (nat (sky_getUniformBufferSize material)) (Octet 0))
        \<and> gpu_writes g' = gpu_writes g
        \<and> (\<exists>view cube. gpu_bind_groups g' =
              (sr_bindGroup r', [sr_uniformBuffer r', sky_gpuSampler material, view, cube])
              # gpu_bind_groups g
            \<and> sr_uniformBuffer r' < view \<and> view < sr_bindGroup r'
            \<and> (case sky_getCubeTexture material of
                 Some cv \<Rightarrow> cube = cv
               | None \<Rightarrow> view < cube \<and> cube < sr_bindGroup r'))
        \<and> sr_pipeline r' = Suc (Suc (gpu_next g))
        \<and> sr_uniformBuffer r' = Suc (Suc (Suc (gpu_next g)))
        \<and> gpu_next g' = Suc (sr_bindGroup r')
        \<and> sr_pipeline r' \<noteq> sr_pipeline r
        \<and> sr_uniformBuffer r' \<noteq> sr_uniformBuffer r
        \<and> sr_bindGroup r' \<noteq> sr_bindGroup r
        \<and> sr_material r' = sky_identity material
        \<and> sr_bindingRevision r' = sky_bindingRevision material)
    \<and> (sr_material r = sky_identity material
          \<and> sr_bindingRevision r \<noteq> sky_bindingRevision material \<longrightarrow>
          sr_pipeline r' = sr_pipeline r \<and> sr_uniformBuffer r' = sr_uniformBuffer r
        \<and> sr_material r' = sr_material r
        \<and> sr_bindingRevision r' = sky_bindingRevision material
        \<and> (\<exists>cube. gpu_bind_groups g' =
              (sr_bindGroup r', [sr_uniformBuffer r, sky_gpuSampler material, gpu_next g, cube])
              # gpu_bind_groups g
            \<and> (case sky_getCubeTexture material of
                 Some cv \<Rightarrow> cube = cv
               | None \<Rightarrow> gpu_next g < cube \<and> cube < sr_bindGroup r'))
        \<and> gpu_next g < sr_bindGroup r'
        \<and> gpu_next g' = Suc (sr_bindGroup r')
        \<and> sr_bindGroup r' \<noteq> sr_bindGroup r
        \<and> gpu_destroyed g' = gpu_destroyed g \<and> gpu_pipelines g' = gpu_pipelines g
        \<and> gpu_buffers g' = gpu_buffers g \<and> gpu_modules g' = gpu_modules g
        \<and> gpu_writes g' = gpu_writes g)
    \<and> (sr_material r = sky_identity material
          \<and> sr_bindingRevision r = sky_bindingRevision material \<longrightarrow>
          r' = r \<and> sp' = sp \<and> fb' = fb \<and> g' = g)"
proof -
  from inv cached have old: "sr_pipeline r < gpu_next g" "sr_uniformBuffer r < gpu_next g"
    "sr_bindGroup r < gpu_next g"
    by (simp_all add: sky_inv_def)
  consider (rebuild) "sr_material r \<noteq> sky_identity material"
    | (rebind) "sr_material r = sky_identity material"
        "sr_bindingRevision r \<noteq> sky_bindingRevision material"
    | (reuse) "sr_material r = sky_identity material"
        "sr_bindingRevision r = sky_bindingRevision material"
    by blast
  then show ?thesis
  proof cases
    case rebuild
    let ?g1 = "destroyBuffer g (sr_uniformBuffer r)"
    from res have c: "sky_create (sp\<lparr>sp_resources := None\<rparr>) fb ?g1 material = (r', sp', fb', g')"
      using sky_getOrCreateResources_rebuild [OF cached rebuild] by simp
    note f = sky_create_facts [OF c, unfolded destroyBuffer_simps]
    have sp': "sp' = sp\<lparr>sp_resources := Some r'\<rparr>" using f(7) by simp
    have ne: "sr_pipeline r' \<noteq> sr_pipeline r" "sr_uniformBuffer r' \<noteq> sr_uniformBuffer r"
      "sr_bindGroup r' \<noteq> sr_bindGroup r"
      using old f(1,2,3) by simp_all
    have pl: "gpu_pipelines g' =
            (sr_pipeline r',
             \<lparr>pd_label = ''Skybox Pipeline'', pd_vertex_module = gpu_next g,
              pd_fragment_module = Suc (gpu_next g), pd_buffers = [],
              pd_topology = TriangleList, pd_cullMode = Some ''none'',
              pd_depthWriteEnabled = False, pd_depthCompare = ''less-equal'',
              pd_sampleCount = sp_sampleCount sp\<rparr>) # gpu_pipelines g"
      using f(11) by simp
    show ?thesis
      using rebuild sp' ne pl f(1) f(2) f(4) f(5) f(6) f(8) f(9) f(10) f(12) f(15)
      by (intro conjI impI) simp_all
  next
    case rebind
    from res have c: "sky_rebind r sp fb g material = (r', sp', fb', g')"
      using sky_getOrCreateResources_rebind [OF cached rebind] by simp
    note f = sky_rebind_facts [OF c]
    have ne: "sr_bindGroup r' \<noteq> sr_bindGroup r" using old(3) f(4) by simp
    show ?thesis
      using rebind ne f(1) f(2) f(3) f(4) f(5) f(6) f(7) f(8) f(9) f(10) f(11) f(12) f(15)
      by (intro conjI impI) simp_all
  next
    case reuse
    from res have e: "(r, sp, fb, g) = (r', sp', fb', g')"
      using sky_getOrCreateResources_reuse [OF cached reuse] by simp
    have "sp = sp\<lparr>sp_resources := Some r\<rparr>" using cached by (cases sp) simp
    then show ?thesis using reuse e by (intro conjI impI) simp_all
  qed
qed

lemma sky_inv_first:
  assumes "sp_resources sp = None"
    and "sky_getOrCreateResources sp fb g material = (r', sp', fb', g')"
  shows "sky_inv sp' g'"
proof -
  from assms have c: "sky_create sp fb g material = (r', sp', fb', g')"
    using sky_getOrCreateResources_first by simp
  note f = sky_create_facts [OF c]
  show ?thesis using f(1) f(2) f(3) f(4) f(7) by (simp add: sky_inv_def)
qed

lemma sky_inv_preserved:
  assumes inv: "sky_inv sp g"
    and res: "sky_getOrCreateResources sp fb g material = (r', sp', fb', g')"
  shows "sky_inv sp' g'"
proof (cases "sp_resources sp")
  case None
  then show ?thesis using sky_inv_first res by blast
next
  case (Some r)
  from inv Some have old: "sr_pipeline r < gpu_next g" "sr_uniformBuffer r < gpu_next g"
    "sr_bindGroup r < gpu_next g"
    by (simp_all add: sky_inv_def)
  consider (rebuild) "sr_material r \<noteq> sky_identity material"
    | (rebind) "sr_material r = sky_identity material"
        "sr_bindingRevision r \<noteq> sky_bindingRevision material"
    | (reuse) "sr_material r = sky_identity material"
        "sr_bindingRevision r = sky_bindingRevision material"
    by blast
  then show ?thesis
  proof cases
    case rebuild
    from res have c: "sky_create (sp\<lparr>sp_resources := None\<rparr>) fb (destroyBuffer g (sr_uniformBuffer r)) material = (r', sp', fb', g')"
      using sky_getOrCreateResources_rebuild [OF Some rebuild] by simp
    note f = sky_create_facts [OF c]
    show ?thesis using f(1) f(2) f(3) f(4) f(7) by (simp add: sky_inv_def)
  next
    case rebind
    from res have c: "sky_rebind r sp fb g material = (r', sp', fb', g')"
      using sky_getOrCreateResources_rebind [OF Some rebind] by simp
    note f = sky_rebind_facts [OF c]
    show ?thesis using f(1) f(2) f(4) f(5) f(7) old by (simp add: sky_inv_def)
  next
    case reuse
    from res have "(r, sp, fb, g) = (r', sp', fb', g')"
      using sky_getOrCreateResources_reuse [OF Some reuse] by simp
    then show ?thesis using inv by simp
  qed
qed

lemmas sky_eval = sky_getOrCreateResources_def sky_dropStale_def sky_create_def sky_rebind_def
  sky_bindGroupEntries_def getDummyCubeTexture_def createTexture_def createView_def
  createShaderModule_def createRenderPipeline_def createBuffer_def createBindGroup_def
  destroyBuffer_def Let_def split_beta

lemma sky_after_first_record:
  "fst sky_after_first =
     \<lparr>sr_pipeline = 2, sr_uniformBuffer = 3, sr_bindGroup = 7, sr_material = 1,
      sr_bindingRevision = 0\<rparr>"
  by (simp add: sky_after_first_def sky0_def fb0_def gpu0_def skyA_def sky_eval)

lemma sky_after_first_device:
  "gpu_next (snd (snd (snd sky_after_first))) = 8"
  "gpu_bind_groups (snd (snd (snd sky_after_first))) = [(7, [3, 100, 4, 6])]"
  "gpu_destroyed (snd (snd (snd sky_after_first))) = []"
  by (simp_all add: sky_after_first_def sky0_def fb0_def gpu0_def skyA_def sky_eval)

theorem skybox_rebuild_policy_witness:
  "fst (sky_second skyA) = fst sky_after_first
   \<and> snd (snd (snd (sky_second skyA))) = snd (snd (snd sky_after_first))
   \<and> sr_pipeline (fst (sky_second (skyA\<lparr>sky_bindingRevision := 1\<rparr>))) = 2
   \<and> sr_uniformBuffer (fst (sky_second (skyA\<lparr>sky_bindingRevision := 1\<rparr>))) = 3
   \<and> sr_bindGroup (fst (sky_second (skyA\<lparr>sky_bindingRevision := 1\<rparr>))) \<noteq> 7
   \<and> sr_bindingRevision (fst (sky_second (skyA\<lparr>sky_bindingRevision := 1\<rparr>))) = 1
   \<and> gpu_destroyed (snd (snd (snd (sky_second (skyA\<lparr>sky_bindingRevision := 1\<rparr>))))) = []
   \<and> sr_pipeline (fst (sky_second skyB)) = 10
   \<and> sr_uniformBuffer (fst (sky_second skyB)) = 11
   \<and> sr_bindGroup (fst (sky_second skyB)) \<noteq> 7
   \<and> sr_material (fst (sky_second skyB)) = 2
   \<and> gpu_destroyed (snd (snd (snd (sky_second skyB)))) = [3]
   \<and> gpu_buffers (snd (snd (snd (sky_second skyB)))) 11 = Some (replicate 96 (Octet 0))"
proof -
  obtain r1 sp1 fb1 g1 where first: "sky_after_first = (r1, sp1, fb1, g1)"
    by (cases sky_after_first) auto
  then have run1: "sky_getOrCreateResources sky0 fb0 gpu0 skyA = (r1, sp1, fb1, g1)"
    by (simp add: sky_after_first_def)
  have none: "sp_resources sky0 = None" by (simp add: sky0_def)
  from run1 have c1: "sky_create sky0 fb0 gpu0 skyA = (r1, sp1, fb1, g1)"
    using sky_getOrCreateResources_first [OF none] by simp
  have r1: "r1 = \<lparr>sr_pipeline = 2, sr_uniformBuffer = 3, sr_bindGroup = 7, sr_material = 1,
      sr_bindingRevision = 0\<rparr>"
    using sky_after_first_record by (simp add: first)
  have g1: "gpu_next g1 = 8" "gpu_destroyed g1 = []"
    using sky_after_first_device(1,3) by (simp_all add: first)
  have cached: "sp_resources sp1 = Some r1" using sky_create_facts(7) [OF c1] by simp
  have inv: "sky_inv sp1 g1" by (rule sky_inv_first [OF none run1])
  have second: "sky_second m = sky_getOrCreateResources sp1 fb1 g1 m" for m
    by (simp add: sky_second_def first)
  have res: "sky_getOrCreateResources sp1 fb1 g1 m =
      (fst (sky_second m), fst (snd (sky_second m)), fst (snd (snd (sky_second m))),
       snd (snd (snd (sky_second m))))" for m
    by (simp add: second)
  note tA = skybox_rebuild_policy [OF cached inv res [of skyA]]
  note tA' = skybox_rebuild_policy [OF cached inv res [of "skyA\<lparr>sky_bindingRevision := 1\<rparr>"]]
  note tB = skybox_rebuild_policy [OF cached inv res [of skyB]]
  have idA: "sr_material r1 = sky_identity skyA" "sr_bindingRevision r1 = sky_bindingRevision skyA"
    by (simp_all add: r1 skyA_def)
  have a: "fst (sky_second skyA) = r1 \<and> snd (snd (snd (sky_second skyA))) = g1"
    using tA idA by simp
  have idA': "sr_material r1 = sky_identity (skyA\<lparr>sky_bindingRevision := 1\<rparr>)"
    "sr_bindingRevision r1 \<noteq> sky_bindingRevision (skyA\<lparr>sky_bindingRevision := 1\<rparr>)"
    by (simp_all add: r1 skyA_def)
  have b: "sr_pipeline (fst (sky_second (skyA\<lparr>sky_bindingRevision := 1\<rparr>))) = 2
     \<and> sr_uniformBuffer (fst (sky_second (skyA\<lparr>sky_bindingRevision := 1\<rparr>))) = 3
     \<and> sr_bindGroup (fst (sky_second (skyA\<lparr>sky_bindingRevision := 1\<rparr>))) \<noteq> 7
     \<and> sr_bindingRevision (fst (sky_second (skyA\<lparr>sky_bindingRevision := 1\<rparr>))) = 1
     \<and> gpu_destroyed (snd (snd (snd (sky_second (skyA\<lparr>sky_bindingRevision := 1\<rparr>))))) = []"
    using tA' idA' g1 by (simp add: r1)
  have idB: "sr_material r1 \<noteq> sky_identity skyB"
    by (simp add: r1 skyA_def skyB_def)
  have c: "sr_pipeline (fst (sky_second skyB)) = 10
     \<and> sr_uniformBuffer (fst (sky_second skyB)) = 11
     \<and> sr_bindGroup (fst (sky_second skyB)) \<noteq> 7
     \<and> sr_material (fst (sky_second skyB)) = 2
     \<and> gpu_destroyed (snd (snd (snd (sky_second skyB)))) = [3]
     \<and> gpu_buffers (snd (snd (snd (sky_second skyB)))) 11 = Some (replicate 96 (Octet 0))"
    using tB idB g1 by (simp add: r1 skyA_def skyB_def)
  show ?thesis using a b c by (simp add: first)
qed

section \<open>Properties of \<open>add\<close> and \<open>remove\<close>\<close>

lemma remove_steps_last:
  "remove s this child =
     (if child \<in> set (children (s this))
      then (s(child := (s child)\<lparr>parent := None\<rparr>))
             (this := ((s(child := (s child)\<lparr>parent := None\<rparr>)) this)
                        \<lparr>children := remove1 child (children (s this))\<rparr>)
      else s)"
  by (simp add: remove_def remove_steps_def Let_def)

lemma remove_children:
  "children (remove s this child q) =
     (if q = this then remove1 child (children (s this)) else children (s q))"
  by (simp add: remove_steps_last remove1_idem)

lemma remove_parent:
  "parent (remove s this child q) =
     (if q = child \<and> child \<in> set (children (s this)) then None else parent (s q))"
  by (simp add: remove_steps_last)

lemma wf_scene_remove:
  assumes "wf_scene s"
  shows "wf_scene (remove s this child)"
proof -
  from assms have pc: "\<And>p c. (c \<in> set (children (s p))) = (parent (s c) = Some p)"
    and d: "\<And>p. distinct (children (s p))"
    by (simp_all add: wf_scene_def)
  show ?thesis
    unfolding wf_scene_def remove_children remove_parent
    using pc d by (auto simp: set_remove1_eq)
qed

lemma add_last:
  "add s this child =
     (let s1 = (case parent (s child) of Some p \<Rightarrow> remove s p child | None \<Rightarrow> s);
          s2 = s1(child := (s1 child)\<lparr>parent := Some this\<rparr>)
      in s2(this := (s2 this)\<lparr>children := children (s2 this) @ [child]\<rparr>))"
  by (simp add: add_def add_steps_def remove_def Let_def split: option.splits)

lemma add_children:
  "children (add s this child q) =
     (let s1 = (case parent (s child) of Some p \<Rightarrow> remove s p child | None \<Rightarrow> s)
      in if q = this then children (s1 this) @ [child] else children (s1 q))"
  by (simp add: add_last Let_def)

lemma add_parent:
  "parent (add s this child q) = (if q = child then Some this else
     parent ((case parent (s child) of Some p \<Rightarrow> remove s p child | None \<Rightarrow> s) q))"
  by (simp add: add_last Let_def)

lemma wf_scene_detach:
  assumes wf: "wf_scene s"
  shows "wf_scene (detach s child)" and "parent (detach s child child) = None"
    and "child \<notin> set (children (detach s child p))"
proof -
  from wf have pc: "\<And>p c. (c \<in> set (children (s p))) = (parent (s c) = Some p)"
    by (simp add: wf_scene_def)
  show w1: "wf_scene (detach s child)"
    unfolding detach_def using wf wf_scene_remove by (cases "parent (s child)") auto
  show p1: "parent (detach s child child) = None"
    unfolding detach_def using pc by (cases "parent (s child)") (auto simp: remove_parent)
  from w1 have "(child \<in> set (children (detach s child p))) = (parent (detach s child child) = Some p)"
    by (simp add: wf_scene_def)
  then show "child \<notin> set (children (detach s child p))" using p1 by simp
qed

lemma wf_scene_add:
  assumes wf: "wf_scene s"
  shows "wf_scene (add s this child)"
proof -
  let ?s1 = "detach s child"
  note f = wf_scene_detach [OF wf, of child]
  from f(1) have pc: "\<And>p c. (c \<in> set (children (?s1 p))) = (parent (?s1 c) = Some p)"
    and d: "\<And>p. distinct (children (?s1 p))"
    by (simp_all add: wf_scene_def)
  show ?thesis
    unfolding wf_scene_def add_children add_parent Let_def detach_def [symmetric]
    using pc d f(2) f(3) by auto
qed

lemma wf_scene_new: "wf_scene (\<lambda>n. new_Object3D M)"
  by (simp add: wf_scene_def new_Object3D_def)

lemma add_steps_owned:
  assumes wf: "wf_scene s" and owned: "parent (s node) = Some a"
  shows "add_steps s b node =
     (let r1 = s(node := (s node)\<lparr>parent := None\<rparr>);
          r2 = r1(a := (r1 a)\<lparr>children := remove1 node (children (r1 a))\<rparr>);
          t1 = r2(node := (r2 node)\<lparr>parent := Some b\<rparr>);
          t2 = t1(b := (t1 b)\<lparr>children := children (t1 b) @ [node]\<rparr>)
      in [s, r1, r2, t1, t2])"
proof -
  from wf owned have "node \<in> set (children (s a))" by (simp add: wf_scene_def)
  then show ?thesis using owned by (simp add: add_steps_def remove_steps_def Let_def)
qed

text \<open>
  C8. In a store where parent references and children lists agree, for a node whose parent is
  \<open>a\<close>, \<open>b.add(node)\<close> goes through five states. After the removal (the third state) the
  children of \<open>a\<close> are one fewer and no longer hold the node; in the last state the node's
  parent is \<open>b\<close> and it is the last child of \<open>b\<close>; every other parent reference, every
  other children list and every other field of every object is as before (so, when \<open>a\<close> is
  not \<open>b\<close>, the children of \<open>a\<close> are one fewer at the end too). In none of the five states
  is the node in two children lists, or twice in one; and the last state is again a store
  where parent references and children lists agree.
\<close>

theorem add_reparents:
  assumes wf: "wf_scene s" and owned: "parent (s node) = Some a"
  shows "length (add_steps s b node) = 5
    \<and> add s b node = add_steps s b node ! 4
    \<and> length (children ((add_steps s b node ! 2) a)) + 1 = length (children (s a))
    \<and> node \<notin> set (children ((add_steps s b node ! 2) a))
    \<and> parent (add s b node node) = Some b
    \<and> children (add s b node b) = children ((add_steps s b node ! 2) b) @ [node]
    \<and> (\<forall>q. add s b node q =
           (s q)\<lparr>parent := (if q = node then Some b else parent (s q)),
                 children := (if q = b then remove1 node (children (s b)) @ [node]
                              else if q = a then remove1 node (children (s a))
                              else children (s q))\<rparr>)
    \<and> (a \<noteq> b \<longrightarrow> length (children (add s b node a)) + 1 = length (children (s a))
                 \<and> node \<notin> set (children (add s b node a)))
    \<and> (\<forall>st \<in> set (add_steps s b node). \<forall>p q.
          node \<in> set (children (st p)) \<and> node \<in> set (children (st q)) \<longrightarrow> p = q)
    \<and> (\<forall>st \<in> set (add_steps s b node). \<forall>p. distinct (children (st p)))
    \<and> wf_scene (add s b node)"
proof -
  from wf have pc: "\<And>p c. (c \<in> set (children (s p))) = (parent (s c) = Some p)"
    and d: "\<And>p. distinct (children (s p))"
    by (simp_all add: wf_scene_def)
  from pc owned have mem: "node \<in> set (children (s a))" by simp
  have only: "node \<in> set (children (s p)) \<Longrightarrow> p = a" for p using pc owned by simp
  have len: "length (remove1 node (children (s a))) + 1 = length (children (s a))"
    using mem by (simp add: length_remove1) (cases "children (s a)", auto)
  have gone: "node \<notin> set (remove1 node (children (s a)))"
    using d [of a] by simp
  define r1 where "r1 = s(node := (s node)\<lparr>parent := None\<rparr>)"
  define r2 where "r2 = r1(a := (r1 a)\<lparr>children := remove1 node (children (r1 a))\<rparr>)"
  define t1 where "t1 = r2(node := (r2 node)\<lparr>parent := Some b\<rparr>)"
  define t2 where "t2 = t1(b := (t1 b)\<lparr>children := children (t1 b) @ [node]\<rparr>)"
  have steps: "add_steps s b node = [s, r1, r2, t1, t2]"
    using add_steps_owned [OF wf owned, of b] by (simp add: Let_def r1_def r2_def t1_def t2_def)
  have final: "add s b node = t2" by (simp add: add_def steps)
  have c_r1: "children (r1 q) = children (s q)" for q by (simp add: r1_def)
  have c_r2: "children (r2 q) = (if q = a then remove1 node (children (s a)) else children (s q))" for q
    by (simp add: r2_def c_r1)
  have c_t1: "children (t1 q) = children (r2 q)" for q by (simp add: t1_def)
  have c_t2: "children (t2 q) = (if q = b then children (r2 b) @ [node] else children (r2 q))" for q
    by (simp add: t2_def c_t1)
  have none_r2: "node \<notin> set (children (r2 q))" for q
    using gone only [of q] by (auto simp add: c_r2)
  have d_r2: "distinct (children (r2 q))" for q
    using d by (simp add: c_r2)
  have 1: "length (add_steps s b node) = 5" by (simp add: steps)
  have fin: "add s b node = add_steps s b node ! 4" by (simp add: final steps)
  have 2: "length (children ((add_steps s b node ! 2) a)) + 1 = length (children (s a))"
    using len by (simp add: steps c_r2)
  have 3: "node \<notin> set (children ((add_steps s b node ! 2) a))"
    using none_r2 by (simp add: steps)
  have 4: "parent (add s b node node) = Some b" by (simp add: final t2_def t1_def)
  have 5: "children (add s b node b) = children ((add_steps s b node ! 2) b) @ [node]"
    by (simp add: final steps c_t2)
  have rm_other: "q \<noteq> a \<Longrightarrow> remove1 node (children (s q)) = children (s q)" for q
    using only [of q] by (intro remove1_idem) blast
  have exact: "add s b node q =
           (s q)\<lparr>parent := (if q = node then Some b else parent (s q)),
                 children := (if q = b then remove1 node (children (s b)) @ [node]
                              else if q = a then remove1 node (children (s a))
                              else children (s q))\<rparr>" for q
  proof -
    have p: "parent (t2 q) = (if q = node then Some b else parent (s q))"
      by (simp add: t2_def t1_def r2_def r1_def)
    have c: "children (t2 q) = (if q = b then remove1 node (children (s b)) @ [node]
                              else if q = a then remove1 node (children (s a))
                              else children (s q))"
      using rm_other [of b] by (simp add: c_t2 c_r2)
    have "t2 q = (s q)\<lparr>parent := parent (t2 q), children := children (t2 q)\<rparr>"
      by (simp add: t2_def t1_def r2_def r1_def)
    then show ?thesis unfolding final p c .
  qed
  have 6: "a \<noteq> b \<longrightarrow> length (children (add s b node a)) + 1 = length (children (s a))
                 \<and> node \<notin> set (children (add s b node a))"
    using len gone by (simp add: final c_t2 c_r2)
  have one_s: "node \<in> set (children (s p)) \<and> node \<in> set (children (s q)) \<longrightarrow> p = q" for p q
    using only [of p] only [of q] by blast
  have one_r1: "node \<in> set (children (r1 p)) \<and> node \<in> set (children (r1 q)) \<longrightarrow> p = q" for p q
    using one_s by (simp add: c_r1)
  have one_r2: "node \<in> set (children (r2 p)) \<and> node \<in> set (children (r2 q)) \<longrightarrow> p = q" for p q
    using none_r2 by simp
  have one_t1: "node \<in> set (children (t1 p)) \<and> node \<in> set (children (t1 q)) \<longrightarrow> p = q" for p q
    using none_r2 by (simp add: c_t1)
  have in_t2: "node \<in> set (children (t2 p)) \<Longrightarrow> p = b" for p
    using none_r2 [of p] by (simp add: c_t2 split: if_splits)
  have one_t2: "node \<in> set (children (t2 p)) \<and> node \<in> set (children (t2 q)) \<longrightarrow> p = q" for p q
    using in_t2 [of p] in_t2 [of q] by blast
  have 7: "\<forall>st \<in> set (add_steps s b node). \<forall>p q.
          node \<in> set (children (st p)) \<and> node \<in> set (children (st q)) \<longrightarrow> p = q"
    unfolding steps using one_s one_r1 one_r2 one_t1 one_t2 by simp
  have d_t2: "distinct (children (t2 q))" for q
    using d_r2 none_r2 by (simp add: c_t2)
  have 8: "\<forall>st \<in> set (add_steps s b node). \<forall>p. distinct (children (st p))"
    unfolding steps using d d_r2 d_t2 by (simp add: c_r1 c_t1)
  have 9: "wf_scene (add s b node)" by (rule wf_scene_add [OF wf])
  have ex: "\<forall>q. add s b node q =
           (s q)\<lparr>parent := (if q = node then Some b else parent (s q)),
                 children := (if q = b then remove1 node (children (s b)) @ [node]
                              else if q = a then remove1 node (children (s a))
                              else children (s q))\<rparr>"
    using exact by blast
  from 1 fin 2 3 4 5 ex 6 7 8 9 show ?thesis by (intro conjI)
qed

lemma scene_owned_fields:
  "parent (scene_owned 3) = Some 1" "children (scene_owned 1) = [3]" "children (scene_owned 2) = []"
  by (simp_all add: scene_owned_def scene0_def add_last new_Object3D_def Let_def)

theorem add_reparents_witness:
  "length (add_steps scene_owned 2 3) = 5
   \<and> children ((add_steps scene_owned 2 3 ! 2) 1) = []
   \<and> parent (add scene_owned 2 3 3) = Some 2
   \<and> children (add scene_owned 2 3 1) = []
   \<and> children (add scene_owned 2 3 2) = [3]
   \<and> wf_scene (add scene_owned 2 3)"
proof -
  have wf: "wf_scene scene_owned"
    unfolding scene_owned_def scene0_def by (rule wf_scene_add [OF wf_scene_new])
  note t = add_reparents [OF wf scene_owned_fields(1), of 2]
  from t have l: "length (children ((add_steps scene_owned 2 3 ! 2) 1)) + 1 = length (children (scene_owned 1))"
    by (rule conjunct1 [OF conjunct2 [OF conjunct2]])
  then have a: "children ((add_steps scene_owned 2 3 ! 2) 1) = []"
    using scene_owned_fields(2) by simp
  from t have ex: "\<forall>q. add scene_owned 2 3 q =
           (scene_owned q)\<lparr>parent := (if q = 3 then Some 2 else parent (scene_owned q)),
                 children := (if q = 2 then remove1 3 (children (scene_owned 2)) @ [3]
                              else if q = 1 then remove1 3 (children (scene_owned 1))
                              else children (scene_owned q))\<rparr>"
    by blast
  have b: "children (add scene_owned 2 3 1) = []" "children (add scene_owned 2 3 2) = [3]"
    using scene_owned_fields(2,3) by (simp_all add: ex)
  from t have c: "length (add_steps scene_owned 2 3) = 5" "parent (add scene_owned 2 3 3) = Some 2"
    "wf_scene (add scene_owned 2 3)"
    by blast+
  show ?thesis using a b c by simp
qed

section \<open>Properties of the matrix refresh\<close>

lemmas mat4_defs = mat4_identity_def mat4_multiply_def mat4_entry_def mat4_scaling_def
  mat4_translation_def mat4_rotationX_def mat4_rotationY_def mat4_rotationZ_def

lemma trs_std_translation:
  "rotation ob = V3 0 0 0 \<Longrightarrow> scale ob = V3 1 1 1 \<Longrightarrow> trs std_matrix ob = mat4_translation (position ob)"
  by (simp add: trs_def std_matrix_def mat4_defs V3_def)

lemma mat4_translation_zero: "mat4_translation (V3 0 0 0) = mat4_identity"
  by (simp add: mat4_defs V3_def)

lemma mat4_multiply_translations:
  "mat4_multiply (mat4_translation u) (mat4_translation v) = mat4_translation (v_add u v)"
  by (simp add: mat4_defs V3_def v_add_def)

lemma mat4_translation_inject:
  "mat4_translation u = mat4_translation v \<Longrightarrow> vx u = vx v \<and> vy u = vy v \<and> vz u = vz v"
  by (simp add: mat4_translation_def)

lemma same_shape_refl: "same_shape s s"
  by (simp add: same_shape_def)

lemma same_shape_trans: "same_shape s s1 \<Longrightarrow> same_shape s1 s2 \<Longrightarrow> same_shape s s2"
  unfolding same_shape_def
proof
  fix n
  assume a: "\<forall>n. s1 n = (s n)\<lparr>localMatrix := localMatrix (s1 n), worldMatrix := worldMatrix (s1 n)\<rparr>"
    and b: "\<forall>n. s2 n = (s1 n)\<lparr>localMatrix := localMatrix (s2 n), worldMatrix := worldMatrix (s2 n)\<rparr>"
  have "s2 n = (s1 n)\<lparr>localMatrix := localMatrix (s2 n), worldMatrix := worldMatrix (s2 n)\<rparr>"
    using b by blast
  also have "s1 n = (s n)\<lparr>localMatrix := localMatrix (s1 n), worldMatrix := worldMatrix (s1 n)\<rparr>"
    using a by blast
  finally show "s2 n = (s n)\<lparr>localMatrix := localMatrix (s2 n), worldMatrix := worldMatrix (s2 n)\<rparr>"
    by simp
qed

lemma same_shape_fields:
  assumes "same_shape s s'"
  shows "parent (s' n) = parent (s n)" and "children (s' n) = children (s n)"
    and "position (s' n) = position (s n)" and "rotation (s' n) = rotation (s n)"
    and "scale (s' n) = scale (s n)" and "visible (s' n) = visible (s n)"
    and "mesh_geometry (s' n) = mesh_geometry (s n)" and "mesh_material (s' n) = mesh_material (s n)"
    and "is_light (s' n) = is_light (s n)"
proof -
  from assms have e: "s' n = (s n)\<lparr>localMatrix := localMatrix (s' n), worldMatrix := worldMatrix (s' n)\<rparr>"
    by (simp add: same_shape_def)
  show "parent (s' n) = parent (s n)" by (subst e) simp
  show "children (s' n) = children (s n)" by (subst e) simp
  show "position (s' n) = position (s n)" by (subst e) simp
  show "rotation (s' n) = rotation (s n)" by (subst e) simp
  show "scale (s' n) = scale (s n)" by (subst e) simp
  show "visible (s' n) = visible (s n)" by (subst e) simp
  show "mesh_geometry (s' n) = mesh_geometry (s n)" by (subst e) simp
  show "mesh_material (s' n) = mesh_material (s n)" by (subst e) simp
  show "is_light (s' n) = is_light (s n)" by (subst e) simp
qed

lemma trs_same_shape: "same_shape s s' \<Longrightarrow> trs M (s' n) = trs M (s n)"
  by (simp add: trs_def same_shape_fields)

text \<open>What the lines between the walk up and the walk down do to the store.\<close>

lemma refresh_self_exact:
  "computeWorldMatrix M (updateMatrix M s n) n =
     s(n := (s n)\<lparr>localMatrix := trs M (s n),
                  worldMatrix := (case parent (s n) of
                                    None \<Rightarrow> trs M (s n)
                                  | Some p \<Rightarrow> m_multiply M (worldMatrix (s p)) (trs M (s n)))\<rparr>)"
  by (cases "parent (s n)")
     (auto simp add: updateMatrix_def computeWorldMatrix_def trs_def Let_def fun_eq_iff)

lemma same_shape_refresh_self: "same_shape s (computeWorldMatrix M (updateMatrix M s n) n)"
  by (simp add: refresh_self_exact same_shape_def)

lemma refresh_self_other: "m \<noteq> n \<Longrightarrow> computeWorldMatrix M (updateMatrix M s n) n m = s m"
  by (simp add: refresh_self_exact)

lemma updateWorldMatrix_Suc:
  "updateWorldMatrix (Suc k) M s n up down =
     (case (if up \<and> parent (s n) \<noteq> None
            then updateWorldMatrix k M s (the (parent (s n))) True False
            else Some s) of
        None \<Rightarrow> None
      | Some s1 \<Rightarrow>
          let s2 = computeWorldMatrix M (updateMatrix M s1 n) n
          in if down then fold (updateChild k M) (children (s2 n)) (Some s2) else Some s2)"
proof -
  have e: "updateChild k M = (\<lambda>child acc. case acc of None \<Rightarrow> None
           | Some sa \<Rightarrow> updateWorldMatrix k M sa child False True)"
    by (intro ext) (simp add: updateChild_def)
  show ?thesis unfolding e by simp
qed

lemma updateWorldMatrix_self_only:
  "updateWorldMatrix (Suc k) M s n False False = Some (computeWorldMatrix M (updateMatrix M s n) n)"
  by (simp add: updateWorldMatrix_Suc)

section \<open>The refreshes of \<open>Renderer.render\<close>\<close>

lemma rig_scene_fields:
  "parent (rig_scene 7) = Some 5" "parent (rig_scene 5) = None" "parent (rig_scene 0) = None"
  "children (rig_scene 0) = []" "children (rig_scene 5) = [7]" "children (rig_scene 7) = []"
  "position (rig_scene 5) = V3 1 0 0" "rotation (rig_scene 5) = V3 0 0 0" "scale (rig_scene 5) = V3 1 1 1"
  "position (rig_scene 7) = V3 0 0 0" "rotation (rig_scene 7) = V3 0 0 0" "scale (rig_scene 7) = V3 1 1 1"
  "localMatrix (rig_scene 5) = mat4_identity" "worldMatrix (rig_scene 5) = mat4_identity"
  by (simp_all add: rig_scene_def scene0_def add_def add_steps_def remove_steps_def
      new_Object3D_def Let_def std_matrix_def)

lemma rig_scene_refresh_scene:
  "updateMatrixWorld 2 std_matrix rig_scene 0 =
     Some (computeWorldMatrix std_matrix (updateMatrix std_matrix rig_scene 0) 0)"
proof -
  have "2 = Suc (Suc 0)" by simp
  then show ?thesis
    by (simp only: updateMatrixWorld_def updateWorldMatrix_Suc)
       (simp add: refresh_self_exact rig_scene_fields)
qed

lemma rig_scene_render_refresh:
  "render_refresh 2 std_matrix rig_scene 0 7 =
     Some (computeWorldMatrix std_matrix
             (updateMatrix std_matrix
                (computeWorldMatrix std_matrix (updateMatrix std_matrix rig_scene 0) 0) 7) 7)"
proof -
  have two: "2 = Suc (Suc 0)" by simp
  show ?thesis
    unfolding render_refresh_def rig_scene_refresh_scene
    by (simp add: two updateWorldMatrix_self_only del: One_nat_def)
qed

lemma rig_not_identity: "mat4_translation (V3 1 0 0) \<noteq> mat4_identity"
  by (simp add: mat4_translation_def mat4_identity_def V3_def)

lemma rig_is_ancestor: "5 \<in> ancestors_of rig_scene 7"
proof -
  have "(5, 7) \<in> {(p, c). parent (rig_scene c) = Some p}" by (simp add: rig_scene_fields)
  then show ?thesis unfolding ancestors_of_def by blast
qed

lemma rig_stale: "\<not> matrices_current std_matrix rig_scene 5"
  using rig_not_identity
  by (simp add: matrices_current_def trs_std_translation rig_scene_fields)

lemma rig_refreshed_by_walk_up:
  "\<exists>s''. updateWorldMatrix 2 std_matrix rig_scene 7 True False = Some s''
      \<and> matrices_current std_matrix s'' 5"
proof -
  have two: "2 = Suc (Suc 0)" by simp
  let ?s1 = "computeWorldMatrix std_matrix (updateMatrix std_matrix rig_scene 5) 5"
  let ?s2 = "computeWorldMatrix std_matrix (updateMatrix std_matrix ?s1 7) 7"
  have up1: "updateWorldMatrix (Suc 0) std_matrix rig_scene 5 True False = Some ?s1"
    by (simp only: updateWorldMatrix_Suc) (simp add: rig_scene_fields)
  have "updateWorldMatrix (Suc (Suc 0)) std_matrix rig_scene 7 True False = Some ?s2"
    by (simp only: updateWorldMatrix_Suc [of "Suc 0"]) (simp add: rig_scene_fields up1)
  then have r: "updateWorldMatrix 2 std_matrix rig_scene 7 True False = Some ?s2"
    by (simp only: two)
  have "matrices_current std_matrix ?s2 5"
    by (simp add: matrices_current_def refresh_self_exact rig_scene_fields trs_def)
  then show ?thesis using r by blast
qed

section \<open>The mesh pass: one turn of the loop\<close>

lemma length_mvp_bytes: "length (mvp_bytes M cam mesh) = 64"
  by (simp add: mvp_bytes_def)


text \<open>The write of the matrix into a uniform buffer of at least 64 bytes.\<close>

lemma writeBuffer_mvp:
  assumes "gpu_buffers g ub = Some old" and "64 \<le> length old"
  shows "writeBuffer g ub 0 (mvp_bytes M cam mesh) 0 64 =
     Inr (g\<lparr>gpu_buffers := (gpu_buffers g)(ub \<mapsto> mvp_bytes M cam mesh @ drop 64 old),
            gpu_writes := gpu_writes g @ [(ub, 0, 64)]\<rparr>)"
  using assms by (simp add: writeBuffer_def length_mvp_bytes)


lemma mp_writeUniformData_no_writer:
  "writeUniformData material = None \<Longrightarrow>
     mp_writeUniformData g ub material ctx = (None, material, g)"
  by (simp add: mp_writeUniformData_def)

lemma mp_writeUniformData_offset_below_64:
  assumes "writeUniformData material = Some w" and "mp_uniformDataOffset material < 64"
  shows "mp_writeUniformData g ub material ctx =
     (Some (if getUniformDataBuffer material = None \<and> getUniformBufferSize material < 0
            then RangeError
            else UniformDataOffsetBelow64 (mp_uniformDataOffset material)), material, g)"
  using assms
  by (simp add: mp_writeUniformData_def mp_uniformData_def Let_def split: option.splits)


text \<open>A turn of the loop whose pipeline, resources and matrix write are named.\<close>

lemma mp_draw_unfold:
  assumes pcr: "pc_getOrCreate (mp_pipelines st, mp_gpu st) (mp_materials st (dr_material mesh))
                  = (pipeline, pc1, g1)"
    and rcr: "RC (mp_meshResources st) g1 (dr_mesh mesh) (dr_geometry mesh)
                (mp_materials st (dr_material mesh)) pipeline = Inr (resources, cache2, g2)"
    and buf: "gpu_buffers g2 (res_uniformBuffer resources) = Some old" and len: "64 \<le> length old"
    and wu: "mp_writeUniformData
               (g2\<lparr>gpu_buffers := (gpu_buffers g2)(res_uniformBuffer resources \<mapsto>
                       mvp_bytes M cam mesh @ drop 64 old),
                     gpu_writes := gpu_writes g2 @ [(res_uniformBuffer resources, 0, 64)]\<rparr>)
               (res_uniformBuffer resources) (mp_materials st (dr_material mesh))
               \<lparr>ctx_camera = cam_object cam, ctx_scene = scene, ctx_mesh = dr_mesh mesh,
                ctx_lights = lights\<rparr> = (thrown, material', g4)"
  shows "mp_draw RC M cam scene lights st mesh =
     (thrown,
      st\<lparr>mp_gpu := g4, mp_pipelines := pc1, mp_meshResources := cache2,
         mp_materials := (mp_materials st)(dr_material mesh := material'),
         mp_commands := mp_commands st
           @ (case thrown of
                Some e \<Rightarrow> []
              | None \<Rightarrow> mp_drawCommands pipeline resources (vertexCount (dr_geometry mesh)))\<rparr>)"
  using pcr rcr wu
  by (cases thrown) (simp_all add: mp_draw_def Let_def writeBuffer_mvp [OF buf len])

lemma mp_draw_offset_below_64:
  assumes writer: "writeUniformData (mp_materials st (dr_material mesh)) = Some w"
    and decl: "getUniformDataOffset (mp_materials st (dr_material mesh)) = Some off"
    and low: "off < 64"
    and pcr: "pc_getOrCreate (mp_pipelines st, mp_gpu st) (mp_materials st (dr_material mesh))
                  = (pipeline, pc1, g1)"
    and rcr: "RC (mp_meshResources st) g1 (dr_mesh mesh) (dr_geometry mesh)
                (mp_materials st (dr_material mesh)) pipeline = Inr (resources, cache2, g2)"
    and buf: "gpu_buffers g2 (res_uniformBuffer resources) = Some old" and len: "64 \<le> length old"
  shows "mp_draw RC M cam scene lights st mesh =
     (Some (if getUniformDataBuffer (mp_materials st (dr_material mesh)) = None
               \<and> getUniformBufferSize (mp_materials st (dr_material mesh)) < 0
            then RangeError else UniformDataOffsetBelow64 off),
      st\<lparr>mp_gpu := g2\<lparr>gpu_buffers := (gpu_buffers g2)(res_uniformBuffer resources \<mapsto>
                              mvp_bytes M cam mesh @ drop 64 old),
                        gpu_writes := gpu_writes g2 @ [(res_uniformBuffer resources, 0, 64)]\<rparr>,
         mp_pipelines := pc1, mp_meshResources := cache2\<rparr>)"
proof -
  let ?m = "mp_materials st (dr_material mesh)"
  have o: "mp_uniformDataOffset ?m = off" using decl by (simp add: mp_uniformDataOffset_def)
  have lt: "mp_uniformDataOffset ?m < 64" using o low by simp
  note wu = mp_writeUniformData_offset_below_64 [OF writer lt,
      where g = "g2\<lparr>gpu_buffers := (gpu_buffers g2)(res_uniformBuffer resources \<mapsto>
                       mvp_bytes M cam mesh @ drop 64 old),
                     gpu_writes := gpu_writes g2 @ [(res_uniformBuffer resources, 0, 64)]\<rparr>"
        and ub = "res_uniformBuffer resources"
        and ctx = "\<lparr>ctx_camera = cam_object cam, ctx_scene = scene, ctx_mesh = dr_mesh mesh,
                ctx_lights = lights\<rparr>"]
  show ?thesis
    by (simp add: mp_draw_unfold [where RC = RC, OF pcr rcr buf len wu] o)
qed


text \<open>The resources the modelled cache builds for a drawable it has not seen.\<close>

lemma mr_getOrCreate_build:
  assumes "cache mesh = None" and "getInterleavedVertices geo material = Inr vertices"
  shows "\<exists>g'. mr_getOrCreate cache g mesh geo material pipeline =
           Inr (\<lparr>res_vertexBuffer = gpu_next g, res_indexBuffer = Suc (gpu_next g),
                 res_uniformBuffer = Suc (Suc (gpu_next g)),
                 res_bindGroup = Suc (Suc (Suc (gpu_next g))), res_iblBindGroup = None,
                 res_indexCount = indexCount geo, res_indexFormat = ''uint16''\<rparr>,
                cache(mesh \<mapsto> (\<lparr>res_vertexBuffer = gpu_next g, res_indexBuffer = Suc (gpu_next g),
                   res_uniformBuffer = Suc (Suc (gpu_next g)),
                   res_bindGroup = Suc (Suc (Suc (gpu_next g))), res_iblBindGroup = None,
                   res_indexCount = indexCount geo, res_indexFormat = ''uint16''\<rparr>, pipeline)), g')
       \<and> gpu_buffers g' (Suc (Suc (gpu_next g))) =
           Some (replicate (nat (getUniformBufferSize material)) (Octet 0))
       \<and> gpu_writes g' = gpu_writes g"
  using assms
  by (simp add: mr_getOrCreate_def mr_build_def createBuffer_def createBindGroup_def Let_def)

lemma mr_getOrCreate_throws:
  assumes "cache mesh = None \<or> (\<exists>res built. cache mesh = Some (res, built) \<and> built \<noteq> pipeline)"
    and "getInterleavedVertices geo material = Inl e"
  shows "mr_getOrCreate cache g mesh geo material pipeline = Inl e"
  using assms by (auto simp add: mr_getOrCreate_def mr_build_def)

lemma pc_getOrCreate_fresh:
  "pc_pipelineCache pc (pipeline_key m) = None \<Longrightarrow>
     \<exists>pc1 g1. pc_getOrCreate (pc, g) m = (Suc (Suc (gpu_next g)), pc1, g1)
        \<and> gpu_next g1 = Suc (Suc (Suc (gpu_next g))) \<and> gpu_writes g1 = gpu_writes g
        \<and> gpu_buffers g1 = gpu_buffers g"
  by (simp add: pc_getOrCreate_def Let_def createShaderModule_def createRenderPipeline_def)

lemma mp_draw_no_writer:
  assumes writer: "writeUniformData (mp_materials st (dr_material mesh)) = None"
    and pcr: "pc_getOrCreate (mp_pipelines st, mp_gpu st) (mp_materials st (dr_material mesh))
                  = (pipeline, pc1, g1)"
    and rcr: "RC (mp_meshResources st) g1 (dr_mesh mesh) (dr_geometry mesh)
                (mp_materials st (dr_material mesh)) pipeline = Inr (resources, cache2, g2)"
    and buf: "gpu_buffers g2 (res_uniformBuffer resources) = Some old" and len: "64 \<le> length old"
  shows "mp_draw RC M cam scene lights st mesh =
     (None,
      st\<lparr>mp_gpu := g2\<lparr>gpu_buffers := (gpu_buffers g2)(res_uniformBuffer resources \<mapsto>
                              mvp_bytes M cam mesh @ drop 64 old),
                        gpu_writes := gpu_writes g2 @ [(res_uniformBuffer resources, 0, 64)]\<rparr>,
         mp_pipelines := pc1, mp_meshResources := cache2,
         mp_commands := mp_commands st
           @ mp_drawCommands pipeline resources (vertexCount (dr_geometry mesh))\<rparr>)"
proof -
  note wu = mp_writeUniformData_no_writer [OF writer,
      where g = "g2\<lparr>gpu_buffers := (gpu_buffers g2)(res_uniformBuffer resources \<mapsto>
                       mvp_bytes M cam mesh @ drop 64 old),
                     gpu_writes := gpu_writes g2 @ [(res_uniformBuffer resources, 0, 64)]\<rparr>"
        and ub = "res_uniformBuffer resources"
        and ctx = "\<lparr>ctx_camera = cam_object cam, ctx_scene = scene, ctx_mesh = dr_mesh mesh,
                ctx_lights = lights\<rparr>"]
  show ?thesis
    by (simp add: mp_draw_unfold [where RC = RC, OF pcr rcr buf len wu])
qed

text \<open>What a new pass has in hand when it draws the example triangle for the first time.\<close>

lemma example_materials_fields:
  "mp_materials mp0 (dr_material (example_drawable i)) = example_materials i"
  "getUniformBufferSize (example_materials i) = 80"
  "getUniformDataBuffer (example_materials i) = None"
  "dr_mesh (example_drawable i) = 3"
  "dr_geometry (example_drawable i) = tri_geometry"
  "mp_meshResources mp0 = Map.empty"
  "mp_commands mp0 = []"
  "mp_gpu mp0 = gpu0"
  by (simp_all add: mp0_def example_drawable_def example_materials_def basicMaterial_def)

lemma first_draw_setup:
  assumes "getInterleavedVertices tri_geometry (example_materials i) = Inr vertices"
  shows "\<exists>pc1 g1 cache2 g2.
     pc_getOrCreate (mp_pipelines mp0, mp_gpu mp0) (mp_materials mp0 (dr_material (example_drawable i)))
       = (2, pc1, g1)
     \<and> mr_getOrCreate (mp_meshResources mp0) g1 (dr_mesh (example_drawable i))
          (dr_geometry (example_drawable i)) (mp_materials mp0 (dr_material (example_drawable i))) 2
       = Inr (example_resources, cache2, g2)
     \<and> gpu_buffers g2 5 = Some (replicate 80 (Octet 0)) \<and> gpu_writes g2 = []"
proof -
  have "pc_pipelineCache (mp_pipelines mp0) (pipeline_key (example_materials i)) = None"
    by (simp add: mp0_def new_PipelineCache_def)
  from pc_getOrCreate_fresh [OF this, of "mp_gpu mp0"]
  obtain pc1 g1 where pcr: "pc_getOrCreate (mp_pipelines mp0, mp_gpu mp0) (example_materials i) = (2, pc1, g1)"
    and n1: "gpu_next g1 = 3" and w1: "gpu_writes g1 = []"
    by (auto simp add: example_materials_fields gpu0_def numeral_eq_Suc)
  from mr_getOrCreate_build [of Map.empty 3, OF _ assms, of g1 2]
  obtain g2 where rcr: "mr_getOrCreate Map.empty g1 3 tri_geometry (example_materials i) 2
       = Inr (example_resources, Map.empty(3 \<mapsto> (example_resources, 2)), g2)"
    and b2: "gpu_buffers g2 5 = Some (replicate 80 (Octet 0))" and w2: "gpu_writes g2 = []"
    by (auto simp add: example_materials_fields n1 w1 example_resources_def tri_geometry_def numeral_eq_Suc)
  show ?thesis using pcr rcr b2 w2 by (simp add: example_materials_fields)
qed

lemma example_vertices:
  "i \<noteq> 5 \<Longrightarrow> \<exists>vertices. getInterleavedVertices tri_geometry (example_materials i) = Inr vertices"
  by (simp add: getInterleavedVertices_def example_materials_def basicMaterial_def)

section \<open>The check of the declared data offset\<close>

text \<open>
  Claim C5, as amended. The mesh pass reads the declared data offset only inside
  \<open>if (material.writeUniformData)\<close>, after it has written the model-view-projection matrix.
  For a material with a uniform writer whose declared offset is below 64, the draw of a
  drawable whose resources hold a uniform buffer of at least 64 bytes throws the offset
  error (a \<open>RangeError\<close> instead when the material has no scratch buffer of its own and
  declares a negative size). It leaves exactly this behind: the matrix in bytes 0 to 63 of
  the uniform buffer and that one write of 64 bytes at offset 0 on the queue, the rest of the
  buffer as it was, the pipeline and resource caches as their lookups left them, and neither
  a change to any material (the writer is not invoked) nor a command on the pass encoder.
\<close>

theorem mp_draw_rejects_offset_below_64:
  assumes "writeUniformData (mp_materials st (dr_material mesh)) = Some w"
    and "getUniformDataOffset (mp_materials st (dr_material mesh)) = Some off"
    and "off < 64"
    and "pc_getOrCreate (mp_pipelines st, mp_gpu st) (mp_materials st (dr_material mesh))
           = (pipeline, pc1, g1)"
    and "RC (mp_meshResources st) g1 (dr_mesh mesh) (dr_geometry mesh)
           (mp_materials st (dr_material mesh)) pipeline = Inr (resources, cache2, g2)"
    and "gpu_buffers g2 (res_uniformBuffer resources) = Some old"
    and "64 \<le> length old"
  shows "mp_draw RC M cam scene lights st mesh =
     (Some (if getUniformDataBuffer (mp_materials st (dr_material mesh)) = None
               \<and> getUniformBufferSize (mp_materials st (dr_material mesh)) < 0
            then RangeError else UniformDataOffsetBelow64 off),
      st\<lparr>mp_gpu := g2\<lparr>gpu_buffers := (gpu_buffers g2)(res_uniformBuffer resources \<mapsto>
                              mvp_bytes M cam mesh @ drop 64 old),
                        gpu_writes := gpu_writes g2 @ [(res_uniformBuffer resources, 0, 64)]\<rparr>,
         mp_pipelines := pc1, mp_meshResources := cache2\<rparr>)"
  using assms by (rule mp_draw_offset_below_64)

text \<open>
  The theorem at material 2 of the example store, drawn first by a new pass: the draw throws
  the offset error, the queue holds the write of the matrix into buffer 5, the buffer holds
  the matrix followed by its 16 zero bytes, and the encoder holds no command.
\<close>

theorem mp_draw_rejects_offset_below_64_witness:
  "fst (mp_draw mr_getOrCreate std_matrix example_camera 0 [] mp0 (example_drawable 2))
     = Some (UniformDataOffsetBelow64 0)
   \<and> gpu_writes (mp_gpu (snd (mp_draw mr_getOrCreate std_matrix example_camera 0 [] mp0
        (example_drawable 2)))) = [(5, 0, 64)]
   \<and> gpu_buffers (mp_gpu (snd (mp_draw mr_getOrCreate std_matrix example_camera 0 [] mp0
        (example_drawable 2)))) 5
     = Some (mvp_bytes std_matrix example_camera (example_drawable 2) @ replicate 16 (Octet 0))
   \<and> mp_commands (snd (mp_draw mr_getOrCreate std_matrix example_camera 0 [] mp0
        (example_drawable 2))) = []
   \<and> mp_materials (snd (mp_draw mr_getOrCreate std_matrix example_camera 0 [] mp0
        (example_drawable 2))) = example_materials"
proof -
  obtain vertices where "getInterleavedVertices tri_geometry (example_materials 2) = Inr vertices"
    using example_vertices [of 2] by auto
  from first_draw_setup [OF this] obtain pc1 g1 cache2 g2 where
    pcr: "pc_getOrCreate (mp_pipelines mp0, mp_gpu mp0)
            (mp_materials mp0 (dr_material (example_drawable 2))) = (2, pc1, g1)"
    and rcr: "mr_getOrCreate (mp_meshResources mp0) g1 (dr_mesh (example_drawable 2))
          (dr_geometry (example_drawable 2)) (mp_materials mp0 (dr_material (example_drawable 2))) 2
       = Inr (example_resources, cache2, g2)"
    and buf: "gpu_buffers g2 5 = Some (replicate 80 (Octet 0))" and wr: "gpu_writes g2 = []"
    by blast
  have ub: "res_uniformBuffer example_resources = 5" by (simp add: example_resources_def)
  have writer: "writeUniformData (mp_materials mp0 (dr_material (example_drawable 2)))
      = Some (\<lambda>buf off ctx. Some [(off, [Octet 255])])"
    and decl: "getUniformDataOffset (mp_materials mp0 (dr_material (example_drawable 2))) = Some 0"
    by (simp_all add: example_materials_fields) (simp_all add: example_materials_def)
  have buf': "gpu_buffers g2 (res_uniformBuffer example_resources) = Some (replicate 80 (Octet 0))"
    using buf ub by simp
  have "mp_draw mr_getOrCreate std_matrix example_camera 0 [] mp0 (example_drawable 2) =
     (Some (UniformDataOffsetBelow64 0),
      mp0\<lparr>mp_gpu := g2\<lparr>gpu_buffers := (gpu_buffers g2)(5 \<mapsto>
                mvp_bytes std_matrix example_camera (example_drawable 2) @ replicate 16 (Octet 0)),
              gpu_writes := [(5, 0, 64)]\<rparr>,
           mp_pipelines := pc1, mp_meshResources := cache2\<rparr>)"
    using mp_draw_rejects_offset_below_64 [where RC = mr_getOrCreate and M = std_matrix
        and cam = example_camera and scene = 0 and lights = "[]", OF writer decl _ pcr rcr buf']
    by (simp add: ub wr example_materials_fields)
  then show ?thesis by (simp add: example_materials_fields) (simp add: mp0_def)
qed

text \<open>
  Claim C5 as the specification states it fails twice on the example store. Material 3
  declares data offset 0 and has no uniform writer: the draw of the triangle does not throw
  and records its draw call. Material 2 declares data offset 0 and has a writer: the draw
  throws, but the queue has by then received the write of 64 bytes at offset 0 of the
  uniform buffer.
\<close>

theorem mp_draw_offset_below_64_counterexample:
  "getUniformDataOffset (example_materials 3) = Some 0
   \<and> fst (mp_draw mr_getOrCreate std_matrix example_camera 0 [] mp0 (example_drawable 3)) = None
   \<and> mp_commands (snd (mp_draw mr_getOrCreate std_matrix example_camera 0 [] mp0
        (example_drawable 3)))
     = [SetPipeline 2, SetBindGroup 0 6, SetVertexBuffer 0 3, SetIndexBuffer 4 ''uint16'',
        DrawIndexed 3]
   \<and> getUniformDataOffset (example_materials 2) = Some 0
   \<and> fst (mp_draw mr_getOrCreate std_matrix example_camera 0 [] mp0 (example_drawable 2))
     = Some (UniformDataOffsetBelow64 0)
   \<and> gpu_writes (mp_gpu (snd (mp_draw mr_getOrCreate std_matrix example_camera 0 [] mp0
        (example_drawable 2)))) = [(5, 0, 64)]"
proof -
  have ub: "res_uniformBuffer example_resources = 5" by (simp add: example_resources_def)
  have d3: "fst (mp_draw mr_getOrCreate std_matrix example_camera 0 [] mp0 (example_drawable 3)) = None
   \<and> mp_commands (snd (mp_draw mr_getOrCreate std_matrix example_camera 0 [] mp0
        (example_drawable 3)))
     = [SetPipeline 2, SetBindGroup 0 6, SetVertexBuffer 0 3, SetIndexBuffer 4 ''uint16'',
        DrawIndexed 3]"
  proof -
    obtain vertices where "getInterleavedVertices tri_geometry (example_materials 3) = Inr vertices"
      using example_vertices [of 3] by auto
    from first_draw_setup [OF this] obtain pc1 g1 cache2 g2 where
      pcr: "pc_getOrCreate (mp_pipelines mp0, mp_gpu mp0)
              (mp_materials mp0 (dr_material (example_drawable 3))) = (2, pc1, g1)"
      and rcr: "mr_getOrCreate (mp_meshResources mp0) g1 (dr_mesh (example_drawable 3))
            (dr_geometry (example_drawable 3)) (mp_materials mp0 (dr_material (example_drawable 3))) 2
         = Inr (example_resources, cache2, g2)"
      and buf: "gpu_buffers g2 5 = Some (replicate 80 (Octet 0))"
      by blast
    have writer: "writeUniformData (mp_materials mp0 (dr_material (example_drawable 3))) = None"
      by (simp add: example_materials_fields) (simp add: example_materials_def basicMaterial_def)
    have buf': "gpu_buffers g2 (res_uniformBuffer example_resources) = Some (replicate 80 (Octet 0))"
      using buf ub by simp
    show ?thesis
      using mp_draw_no_writer [where RC = mr_getOrCreate and M = std_matrix
          and cam = example_camera and scene = 0 and lights = "[]", OF writer pcr rcr buf']
      by (simp add: example_materials_fields mp_drawCommands_def example_resources_def)
  qed
  have d2: "fst (mp_draw mr_getOrCreate std_matrix example_camera 0 [] mp0 (example_drawable 2))
     = Some (UniformDataOffsetBelow64 0)
   \<and> gpu_writes (mp_gpu (snd (mp_draw mr_getOrCreate std_matrix example_camera 0 [] mp0
        (example_drawable 2)))) = [(5, 0, 64)]"
  proof -
    obtain vertices where "getInterleavedVertices tri_geometry (example_materials 2) = Inr vertices"
      using example_vertices [of 2] by auto
    from first_draw_setup [OF this] obtain pc1 g1 cache2 g2 where
      pcr: "pc_getOrCreate (mp_pipelines mp0, mp_gpu mp0)
              (mp_materials mp0 (dr_material (example_drawable 2))) = (2, pc1, g1)"
      and rcr: "mr_getOrCreate (mp_meshResources mp0) g1 (dr_mesh (example_drawable 2))
            (dr_geometry (example_drawable 2)) (mp_materials mp0 (dr_material (example_drawable 2))) 2
         = Inr (example_resources, cache2, g2)"
      and buf: "gpu_buffers g2 5 = Some (replicate 80 (Octet 0))" and wr: "gpu_writes g2 = []"
      by blast
    have writer: "writeUniformData (mp_materials mp0 (dr_material (example_drawable 2)))
        = Some (\<lambda>buf off ctx. Some [(off, [Octet 255])])"
      and decl: "getUniformDataOffset (mp_materials mp0 (dr_material (example_drawable 2))) = Some 0"
      by (simp_all add: example_materials_fields) (simp_all add: example_materials_def)
    have buf': "gpu_buffers g2 (res_uniformBuffer example_resources) = Some (replicate 80 (Octet 0))"
      using buf ub by simp
    show ?thesis
      using mp_draw_offset_below_64 [where RC = mr_getOrCreate and M = std_matrix
          and cam = example_camera and scene = 0 and lights = "[]", OF writer decl _ pcr rcr buf']
      by (simp add: ub wr example_materials_fields)
  qed
  have "getUniformDataOffset (example_materials 3) = Some 0"
    and "getUniformDataOffset (example_materials 2) = Some 0"
    by (simp_all add: example_materials_def)
  with d3 d2 show ?thesis by simp
qed

section \<open>The uniform buffer after a draw\<close>



section \<open>Interleaving without texture coordinates\<close>

text \<open>For the texture kind the interleaving throws when the geometry has no \<open>uvs\<close>, whatever
  else the geometry and the material hold.\<close>

lemma getInterleavedVertices_texture_without_uvs:
  "getInterleavedVertices (geo\<lparr>uvs := None\<rparr>) (material\<lparr>mat_type := ''texture''\<rparr>)
     = Inl UvCoordinatesRequired"
  by (simp add: getInterleavedVertices_def)


section \<open>Properties of the raycaster\<close>

lemma same_shape_up_pass:
  "updateWorldMatrix k M s n True False = Some s' \<Longrightarrow> same_shape s s'"
proof (induction k arbitrary: s n s')
  case 0
  then show ?case by simp
next
  case (Suc k)
  show ?case
  proof (cases "parent (s n)")
    case None
    then have "s' = computeWorldMatrix M (updateMatrix M s n) n"
      using Suc.prems by (simp add: updateWorldMatrix_Suc)
    then show ?thesis by (simp add: same_shape_refresh_self)
  next
    case (Some p)
    then obtain s1 where up: "updateWorldMatrix k M s p True False = Some s1"
      and s': "s' = computeWorldMatrix M (updateMatrix M s1 n) n"
      using Suc.prems by (auto simp add: updateWorldMatrix_Suc split: option.splits)
    from Suc.IH [OF up] have "same_shape s s1" .
    moreover have "same_shape s1 s'" unfolding s' by (rule same_shape_refresh_self)
    ultimately show ?thesis by (rule same_shape_trans)
  qed
qed

lemma world_of_same_shape:
  "same_shape s s' \<Longrightarrow> world_of k M s' n = world_of k M s n"
  by (induction k arbitrary: n) (simp_all add: trs_same_shape same_shape_fields split: option.splits)

lemma height_same_shape:
  "height s n h \<Longrightarrow> same_shape s s' \<Longrightarrow> height s' n h"
  by (induction rule: height.induct) (auto intro: height.intros simp add: same_shape_fields)

text \<open>The walk up from a node whose parent references end: it returns, and the node's
  world matrix is the product of the transforms from the root down to it.\<close>

lemma up_pass_world:
  "height s n h \<Longrightarrow> h < k \<Longrightarrow>
     \<exists>s'. updateWorldMatrix k M s n True False = Some s' \<and> worldMatrix (s' n) = world_of k M s n"
proof (induction arbitrary: k rule: height.induct)
  case (height_root s n)
  then obtain j where k: "k = Suc j" by (cases k) auto
  show ?case using height_root.hyps
    by (simp add: k updateWorldMatrix_Suc refresh_self_exact)
next
  case (height_child s n p h)
  then obtain j where k: "k = Suc j" and hj: "h < j" by (cases k) auto
  from height_child.IH [OF hj] obtain s1 where
    up: "updateWorldMatrix j M s p True False = Some s1"
    and w: "worldMatrix (s1 p) = world_of j M s p"
    by blast
  have sh: "same_shape s s1" using up by (rule same_shape_up_pass)
  have pn: "parent (s1 n) = Some p" using sh height_child.hyps(1) by (simp add: same_shape_fields)
  have "worldMatrix (computeWorldMatrix M (updateMatrix M s1 n) n n)
          = m_multiply M (worldMatrix (s1 p)) (trs M (s1 n))"
    by (simp add: refresh_self_exact pn)
  then show ?case using height_child.hyps(1) up w
    by (simp add: k updateWorldMatrix_Suc trs_same_shape [OF sh])
qed

lemma node_hits_same_shape:
  "same_shape s s' \<Longrightarrow> node_hits k M rc s' n = node_hits k M rc s n"
  by (cases "mesh_geometry (s n)")
     (simp_all add: node_hits_def world_of_same_shape same_shape_fields)

lemma face_hit_object:
  "face_hit M rc W localRay geo n f = Some h \<Longrightarrow> isect_object h = n"
  unfolding face_hit_def Let_def
  by (simp split: option.splits if_splits prod.splits) force+

lemma mesh_hits_object:
  assumes "h \<in> set (mesh_hits M rc W geo n)"
  shows "isect_object h = n"
proof -
  from assms obtain localRay f where "face_hit M rc W localRay geo n f = Some h"
    by (auto simp add: mesh_hits_def Let_def map_filter_def)
  then show ?thesis by (rule face_hit_object)
qed

text \<open>What one call of \<open>_intersectObject\<close> does when it returns, and that it returns.\<close>

lemma priv_intersectObject_spec:
  assumes "priv_intersectObject k M rc s n acc = Some (s', acc')"
  shows "same_shape s s'"
    and "\<exists>hits. acc' = acc @ hits \<and> (\<forall>h\<in>set hits. isect_object h = n)"
proof -
  show "same_shape s s'"
    using assms
    by (auto simp add: priv_intersectObject_def same_shape_refl same_shape_up_pass
             split: option.splits if_splits)
  show "\<exists>hits. acc' = acc @ hits \<and> (\<forall>h\<in>set hits. isect_object h = n)"
  proof (cases "mesh_geometry (s n)")
    case None
    then have "acc' = acc @ []" using assms by (simp add: priv_intersectObject_def)
    then show ?thesis by (intro exI [of _ "[]"]) simp
  next
    case (Some geo)
    show ?thesis
    proof (cases "visible (s n)")
      case False
      then have "acc' = acc @ []" using assms Some by (simp add: priv_intersectObject_def)
      then show ?thesis by (intro exI [of _ "[]"]) simp
    next
      case True
      then have "acc' = acc @ mesh_hits M rc (worldMatrix (s' n)) geo n"
        using assms Some by (auto simp add: priv_intersectObject_def split: option.splits)
      then show ?thesis
        by (intro exI [of _ "mesh_hits M rc (worldMatrix (s' n)) geo n"])
           (simp add: mesh_hits_object)
    qed
  qed
qed

lemma priv_intersectObject_total:
  assumes "height s n h" and "h < k"
  shows "\<exists>s'. priv_intersectObject k M rc s n acc = Some (s', acc @ node_hits k M rc s n)"
proof -
  from up_pass_world [OF assms, of M] obtain s1 where
    up: "updateWorldMatrix k M s n True False = Some s1"
    and w: "worldMatrix (s1 n) = world_of k M s n"
    by blast
  show ?thesis
    by (cases "mesh_geometry (s n)")
       (simp_all add: priv_intersectObject_def node_hits_def up w)
qed

lemma intersectChild_simps:
  "intersectChild k M rc c None = None"
  "intersectChild k M rc c (Some (s, acc)) = priv_intersectObject k M rc s c acc"
  by (simp_all add: intersectChild_def)

lemma fold_intersectChild_None: "fold (intersectChild k M rc) cs None = None"
  by (induction cs) (simp_all add: intersectChild_simps)

lemma fold_intersectChild_spec:
  "fold (intersectChild k M rc) cs (Some (s, acc)) = Some (s', acc') \<Longrightarrow>
     same_shape s s' \<and> (\<exists>hits. acc' = acc @ hits \<and> (\<forall>h\<in>set hits. isect_object h \<in> set cs))"
proof (induction cs arbitrary: s acc)
  case Nil
  then show ?case by (simp add: same_shape_refl)
next
  case (Cons c cs)
  show ?case
  proof (cases "priv_intersectObject k M rc s c acc")
    case None
    then have "fold (intersectChild k M rc) (c # cs) (Some (s, acc)) = None"
      by (simp add: intersectChild_simps fold_intersectChild_None)
    then show ?thesis using Cons.prems by simp
  next
    case (Some r)
    obtain s1 acc1 where r: "r = (s1, acc1)" by (cases r)
    have one: "priv_intersectObject k M rc s c acc = Some (s1, acc1)" using Some r by simp
    then have rest: "fold (intersectChild k M rc) cs (Some (s1, acc1)) = Some (s', acc')"
      using Cons.prems by (simp add: intersectChild_simps)
    from priv_intersectObject_spec [OF one] obtain hits1 where
      sh1: "same_shape s s1" and a1: "acc1 = acc @ hits1"
      and o1: "\<forall>h\<in>set hits1. isect_object h = c"
      by blast
    from Cons.IH [OF rest] obtain hits2 where
      sh2: "same_shape s1 s'" and a2: "acc' = acc1 @ hits2"
      and o2: "\<forall>h\<in>set hits2. isect_object h \<in> set cs"
      by blast
    have "acc' = acc @ (hits1 @ hits2)" using a1 a2 by simp
    moreover have "\<forall>h\<in>set (hits1 @ hits2). isect_object h \<in> set (c # cs)"
      using o1 o2 by auto
    ultimately have "\<exists>hits. acc' = acc @ hits \<and> (\<forall>h\<in>set hits. isect_object h \<in> set (c # cs))"
      by blast
    then show ?thesis using same_shape_trans [OF sh1 sh2] by simp
  qed
qed

lemma fold_intersectChild_total:
  "\<forall>c\<in>set cs. \<exists>h<k. height s c h \<Longrightarrow>
     \<exists>s'. fold (intersectChild k M rc) cs (Some (s, acc))
            = Some (s', acc @ concat (map (node_hits k M rc s) cs))"
proof (induction cs arbitrary: s acc)
  case Nil
  then show ?case by simp
next
  case (Cons c cs)
  from Cons.prems obtain h where h: "height s c h" "h < k" by auto
  from priv_intersectObject_total [OF h, of M rc acc] obtain s1 where
    one: "priv_intersectObject k M rc s c acc = Some (s1, acc @ node_hits k M rc s c)"
    by blast
  have sh: "same_shape s s1" using priv_intersectObject_spec(1) [OF one] .
  have "\<forall>c\<in>set cs. \<exists>h<k. height s1 c h"
  proof
    fix c' assume "c' \<in> set cs"
    then obtain h' where "h' < k" and "height s c' h'" using Cons.prems by auto
    then show "\<exists>h<k. height s1 c' h" using height_same_shape [OF _ sh] by blast
  qed
  from Cons.IH [OF this, of "acc @ node_hits k M rc s c"] obtain s' where
    "fold (intersectChild k M rc) cs (Some (s1, acc @ node_hits k M rc s c))
       = Some (s', (acc @ node_hits k M rc s c) @ concat (map (node_hits k M rc s1) cs))"
    by blast
  moreover have "map (node_hits k M rc s1) cs = map (node_hits k M rc s) cs"
    by (simp add: node_hits_same_shape [OF sh])
  ultimately show ?case using one by (simp add: intersectChild_simps)
qed

lemma mat4_inverse_translation:
  "mat4_inverse (mat4_translation v) = mat4_translation (V3 (- vx v) (- vy v) (- vz v))"
  by (simp add: mat4_inverse_def mat4_determinant_def mat4_cofactors_def mat4_translation_def V3_def)

lemma sqrt_square_diff: "z \<le> 5 \<Longrightarrow> sqrt ((5 - z) * (5 - z)) = 5 - z" for z :: real
  by simp

lemma mesh_hits_down_ray:
  assumes "z < 4"
  shows "mesh_hits std_matrix down_ray (mat4_translation (V3 0 0 z)) ray_geometry n =
     [\<lparr>isect_distance = 5 - z, isect_point = V3 0 0 z, isect_object = n, isect_faceIndex = 0,
       isect_normal = V3 0 0 1, isect_uv = None\<rparr>]"
proof -
  have lr: "\<lparr>ray_origin = mat4_transformPoint (mat4_translation (V3 0 0 (- z))) (V3 0 0 5),
             ray_direction = v_normalize (mat4_transformDirection (mat4_translation (V3 0 0 (- z))) (V3 0 0 (-1)))\<rparr>
           = \<lparr>ray_origin = V3 0 0 (5 - z), ray_direction = V3 0 0 (-1)\<rparr>"
    by (simp add: mat4_transformPoint_def mat4_transformDirection_def mat4_translation_def vec_defs Let_def)
  have hit: "intersectTriangle \<lparr>ray_origin = V3 0 0 (5 - z), ray_direction = V3 0 0 (-1)\<rparr>
       (V3 (-1) (-1) 0) (V3 1 (-1) 0) (V3 0 1 0)
     = Some \<lparr>hit_t = 5 - z, hit_point = V3 0 0 0, hit_faceNormal = V3 0 0 1\<rparr>"
    using assms
    by (simp add: intersectTriangle_def Let_def vec_defs EPSILON_def ray_at_def sqrt_16)
       (simp add: field_simps)
  have fh: "face_hit std_matrix down_ray (mat4_translation (V3 0 0 z))
        \<lparr>ray_origin = V3 0 0 (5 - z), ray_direction = V3 0 0 (-1)\<rparr> ray_geometry n 0
      = Some \<lparr>isect_distance = 5 - z, isect_point = V3 0 0 z, isect_object = n, isect_faceIndex = 0,
       isect_normal = V3 0 0 1, isect_uv = None\<rparr>"
    using assms
    by (simp add: face_hit_def Let_def ray_geometry_def index_at_def vertex_at_def hit down_ray_def
        std_matrix_def mat4_transformPoint_def mat4_transformDirection_def mat4_translation_def)
       (simp add: vec_defs)
  show ?thesis
    by (simp add: mesh_hits_def Let_def std_matrix_def mat4_inverse_translation down_ray_def)
       (simp add: V3_def lr [unfolded V3_def] ray_geometry_def map_filter_def
          fh [unfolded std_matrix_def down_ray_def ray_geometry_def V3_def, simplified])
qed

lemma ray_scene_fields:
  "parent (ray_scene 5) = None" "children (ray_scene 5) = [7]"
  "parent (ray_scene 7) = Some 5" "children (ray_scene 7) = [8]"
  "parent (ray_scene 8) = Some 7"
  "mesh_geometry (ray_scene 5) = Some ray_geometry" "visible (ray_scene 5)"
  "mesh_geometry (ray_scene 7) = Some ray_geometry" "visible (ray_scene 7)"
  "mesh_geometry (ray_scene 8) = Some ray_geometry" "visible (ray_scene 8)"
  "trs std_matrix (ray_scene 5) = mat4_translation (V3 0 0 0)"
  "trs std_matrix (ray_scene 7) = mat4_translation (V3 0 0 1)"
  "trs std_matrix (ray_scene 8) = mat4_translation (V3 0 0 1)"
  by (simp_all add: ray_scene_def add_def add_steps_def remove_steps_def scene0_def
      new_Object3D_def Let_def trs_std_translation)

lemma ray_scene_world:
  "world_of 3 std_matrix ray_scene 5 = mat4_translation (V3 0 0 0)"
  "world_of 3 std_matrix ray_scene 7 = mat4_translation (V3 0 0 1)"
  "world_of 3 std_matrix ray_scene 8 = mat4_translation (V3 0 0 2)"
proof -
  have m: "m_multiply std_matrix = mat4_multiply" by (simp add: std_matrix_def)
  show "world_of 3 std_matrix ray_scene 5 = mat4_translation (V3 0 0 0)"
    by (simp add: numeral_3_eq_3 ray_scene_fields)
  show "world_of 3 std_matrix ray_scene 7 = mat4_translation (V3 0 0 1)"
    by (simp add: numeral_3_eq_3 ray_scene_fields m mat4_multiply_translations)
       (simp add: v_add_def V3_def)
  show "world_of 3 std_matrix ray_scene 8 = mat4_translation (V3 0 0 2)"
    by (simp add: numeral_3_eq_3 ray_scene_fields m mat4_multiply_translations)
       (simp add: v_add_def V3_def)
qed

lemma ray_scene_hits:
  "node_hits 3 std_matrix down_ray ray_scene 5 =
     [\<lparr>isect_distance = 5, isect_point = V3 0 0 0, isect_object = 5, isect_faceIndex = 0,
       isect_normal = V3 0 0 1, isect_uv = None\<rparr>]"
  "node_hits 3 std_matrix down_ray ray_scene 7 =
     [\<lparr>isect_distance = 4, isect_point = V3 0 0 1, isect_object = 7, isect_faceIndex = 0,
       isect_normal = V3 0 0 1, isect_uv = None\<rparr>]"
  "node_hits 3 std_matrix down_ray ray_scene 8 =
     [\<lparr>isect_distance = 3, isect_point = V3 0 0 2, isect_object = 8, isect_faceIndex = 0,
       isect_normal = V3 0 0 1, isect_uv = None\<rparr>]"
  by (simp_all add: node_hits_def ray_scene_fields ray_scene_world mesh_hits_down_ray)

text \<open>
  Claim C10. \<open>intersectObject(object, true)\<close> calls \<open>_intersectObject\<close> on the object and on
  each of its direct children, and on nothing else. Whenever the call returns, every
  intersection of the result belongs to the object or to one of its direct children, and
  the result is sorted by ascending distance. When the parent references above the object
  and above each direct child end within the fuel, the call returns, and its result is
  exactly the hits of the object followed by those of its direct children in their order,
  each mesh tested under the product of the transforms from its root down to it, sorted by
  distance: no hit of the object or of a direct child is lost, and nothing deeper in the
  hierarchy contributes.
\<close>

theorem intersectObject_direct_children_only:
  "(\<forall>s' result. intersectObject k M rc s object True = Some (s', result) \<longrightarrow>
       sorted (map isect_distance result)
       \<and> (\<forall>h\<in>set result. isect_object h = object \<or> isect_object h \<in> set (children (s object))))
   \<and> ((\<forall>n\<in>set (object # children (s object)). \<exists>h<k. height s n h) \<longrightarrow>
       (\<exists>s'. intersectObject k M rc s object True =
          Some (s', sort_key isect_distance
                      (concat (map (node_hits k M rc s) (object # children (s object)))))))"
proof (intro conjI allI impI)
  fix s' result
  assume ret: "intersectObject k M rc s object True = Some (s', result)"
  then obtain s1 own where
    one: "priv_intersectObject k M rc s object [] = Some (s1, own)"
    by (auto simp add: intersectObject_def split: option.splits)
  then obtain acc where
    rest: "fold (intersectChild k M rc) (children (s1 object)) (Some (s1, own)) = Some (s', acc)"
    and res: "result = sort_key isect_distance acc"
    using ret by (auto simp add: intersectObject_def split: option.splits)
  from priv_intersectObject_spec [OF one] have sh: "same_shape s s1"
    and o1: "\<forall>h\<in>set own. isect_object h = object"
    by auto
  from fold_intersectChild_spec [OF rest] obtain hits where
    acc: "acc = own @ hits" and o2: "\<forall>h\<in>set hits. isect_object h \<in> set (children (s1 object))"
    by blast
  have ch: "children (s1 object) = children (s object)" using sh by (simp add: same_shape_fields)
  show "sorted (map isect_distance result)" unfolding res by (rule sorted_sort_key)
  show "\<forall>h\<in>set result. isect_object h = object \<or> isect_object h \<in> set (children (s object))"
    using o1 o2 by (auto simp add: res acc ch)
next
  assume hs: "\<forall>n\<in>set (object # children (s object)). \<exists>h<k. height s n h"
  then obtain h where h: "height s object h" "h < k" by auto
  from priv_intersectObject_total [OF h, of M rc "[]"] obtain s1 where
    one: "priv_intersectObject k M rc s object [] = Some (s1, node_hits k M rc s object)"
    by auto
  have sh: "same_shape s s1" using priv_intersectObject_spec(1) [OF one] .
  have ch: "children (s1 object) = children (s object)" using sh by (simp add: same_shape_fields)
  have "\<forall>c\<in>set (children (s object)). \<exists>h<k. height s1 c h"
  proof
    fix c assume "c \<in> set (children (s object))"
    then obtain h' where "h' < k" and "height s c h'" using hs by auto
    then show "\<exists>h<k. height s1 c h" using height_same_shape [OF _ sh] by blast
  qed
  from fold_intersectChild_total [OF this, of M rc "node_hits k M rc s object"] obtain s' where
    "fold (intersectChild k M rc) (children (s object)) (Some (s1, node_hits k M rc s object))
       = Some (s', node_hits k M rc s object
                   @ concat (map (node_hits k M rc s1) (children (s object))))"
    by blast
  moreover have "map (node_hits k M rc s1) (children (s object))
      = map (node_hits k M rc s) (children (s object))"
    by (simp add: node_hits_same_shape [OF sh])
  ultimately show "\<exists>s'. intersectObject k M rc s object True =
          Some (s', sort_key isect_distance
                      (concat (map (node_hits k M rc s) (object # children (s object)))))"
    using one by (simp add: intersectObject_def ch)
qed

text \<open>
  The theorem on the chain of three meshes, cast from object 5: the result is the hit of the
  child 7 at distance 4, then the hit of object 5 at distance 5. The grandchild 8 lies on
  the ray at distance 3, nearer than both, and is not in the result.
\<close>

theorem intersectObject_direct_children_only_witness:
  "(\<exists>s'. intersectObject 3 std_matrix down_ray ray_scene 5 True =
      Some (s',
        [\<lparr>isect_distance = 4, isect_point = V3 0 0 1, isect_object = 7, isect_faceIndex = 0,
          isect_normal = V3 0 0 1, isect_uv = None\<rparr>,
         \<lparr>isect_distance = 5, isect_point = V3 0 0 0, isect_object = 5, isect_faceIndex = 0,
          isect_normal = V3 0 0 1, isect_uv = None\<rparr>]))
   \<and> 8 \<in> set (children (ray_scene 7))
   \<and> node_hits 3 std_matrix down_ray ray_scene 8 =
        [\<lparr>isect_distance = 3, isect_point = V3 0 0 2, isect_object = 8, isect_faceIndex = 0,
          isect_normal = V3 0 0 1, isect_uv = None\<rparr>]"
proof -
  have h5: "height ray_scene 5 0" by (rule height_root) (simp add: ray_scene_fields)
  have h7: "height ray_scene 7 (Suc 0)"
    by (rule height_child [OF _ h5]) (simp add: ray_scene_fields)
  have "\<exists>h<3. height ray_scene 5 h" using h5 by (intro exI [of _ 0]) simp
  moreover have "\<exists>h<3. height ray_scene 7 h" using h7 by (intro exI [of _ "Suc 0"]) simp
  ultimately have "\<forall>n\<in>set (5 # children (ray_scene 5)). \<exists>h<3. height ray_scene n h"
    by (simp add: ray_scene_fields)
  with intersectObject_direct_children_only [of 3 std_matrix down_ray ray_scene 5]
  have "\<exists>s'. intersectObject 3 std_matrix down_ray ray_scene 5 True =
          Some (s', sort_key isect_distance
                      (concat (map (node_hits 3 std_matrix down_ray ray_scene)
                                 (5 # children (ray_scene 5)))))"
    by blast
  then show ?thesis by (simp add: ray_scene_fields ray_scene_hits)
qed

section \<open>The refresh of world matrices\<close>

lemma descendants_of_self: "n \<in> descendants_of s n"
  by (simp add: descendants_of_def)

lemma descendants_of_child:
  "c \<in> set (children (s n)) \<Longrightarrow> d \<in> descendants_of s c \<Longrightarrow> d \<in> descendants_of s n"
  unfolding descendants_of_def
  by (simp add: converse_rtrancl_into_rtrancl)

lemma descendants_of_cases:
  assumes "d \<in> descendants_of s n"
  shows "d = n \<or> (\<exists>c\<in>set (children (s n)). d \<in> descendants_of s c)"
proof -
  from assms have "(n, d) \<in> {(p, c). c \<in> set (children (s p))}\<^sup>*"
    by (simp add: descendants_of_def)
  then show ?thesis
  proof (cases rule: converse_rtranclE)
    case base
    then show ?thesis by simp
  next
    case (step c)
    then show ?thesis by (auto simp add: descendants_of_def)
  qed
qed

lemma descendants_of_closed:
  assumes "linked s" and "parent (s m) = Some p" and "p \<in> descendants_of s x"
  shows "m \<in> descendants_of s x"
proof -
  have "m \<in> set (children (s p))" using assms(1,2) by (simp add: linked_def)
  then have "(p, m) \<in> {(p, c). c \<in> set (children (s p))}" by simp
  then show ?thesis using assms(3) unfolding descendants_of_def
    by (simp add: rtrancl_into_rtrancl)
qed

lemma descendants_of_same_shape:
  "same_shape s s' \<Longrightarrow> descendants_of s' n = descendants_of s n"
  by (simp add: descendants_of_def same_shape_fields)

lemma ancestors_of_same_shape:
  "same_shape s s' \<Longrightarrow> ancestors_of s' n = ancestors_of s n"
  by (simp add: ancestors_of_def same_shape_fields)

lemma linked_same_shape: "same_shape s s' \<Longrightarrow> linked s \<Longrightarrow> linked s'"
  by (simp add: linked_def same_shape_fields)

text \<open>A node is current in the store a refresh of it leaves, unless it is its own parent.\<close>

lemma refresh_self_current:
  "parent (s n) \<noteq> Some n \<Longrightarrow>
     matrices_current M (computeWorldMatrix M (updateMatrix M s n) n) n"
  by (cases "parent (s n)") (auto simp add: matrices_current_def refresh_self_exact trs_def)

text \<open>
  A pass that rewrites the nodes of a set closed under taking children, and leaves them
  current, leaves current every node that was.
\<close>

lemma pass_preserves_current:
  assumes closed: "\<And>m p. parent (s m) = Some p \<Longrightarrow> p \<in> D \<Longrightarrow> m \<in> D"
    and frame: "\<And>m. m \<notin> D \<Longrightarrow> s' m = s m"
    and cur: "\<And>d. d \<in> D \<Longrightarrow> matrices_current M s' d"
    and m: "matrices_current M s m"
  shows "matrices_current M s' m"
proof (cases "m \<in> D")
  case True
  then show ?thesis by (rule cur)
next
  case False
  then have same: "s' m = s m" by (rule frame)
  show ?thesis
  proof (cases "parent (s m)")
    case None
    then show ?thesis using m same by (simp add: matrices_current_def)
  next
    case (Some p)
    then have "p \<notin> D" using closed False by blast
    then have "s' p = s p" by (rule frame)
    then show ?thesis using m same Some by (simp add: matrices_current_def)
  qed
qed

lemma updateChild_simps:
  "updateChild k M c None = None"
  "updateChild k M c (Some s) = updateWorldMatrix k M s c False True"
  by (simp_all add: updateChild_def)

lemma fold_updateChild_None: "fold (updateChild k M) cs None = None"
  by (induction cs) (simp_all add: updateChild_simps)

lemma down_pass_okD:
  assumes "down_pass_ok k M" and "linked s" and "parent (s n) \<noteq> Some n"
    and "updateWorldMatrix k M s n False True = Some s'"
  shows "same_shape s s'"
    and "\<And>m. m \<notin> descendants_of s n \<Longrightarrow> s' m = s m"
    and "\<And>d. d \<in> descendants_of s n \<Longrightarrow> matrices_current M s' d"
  using assms unfolding down_pass_ok_def by blast+

text \<open>The loop over the children: their descendants end current, the nodes outside keep
  their records, and every node that was current still is.\<close>

lemma fold_updateChild_current:
  assumes ok: "down_pass_ok k M"
  shows "linked s \<Longrightarrow> \<forall>c\<in>set cs. parent (s c) \<noteq> Some c \<Longrightarrow>
     fold (updateChild k M) cs (Some s) = Some s' \<Longrightarrow>
     same_shape s s'
     \<and> (\<forall>m. m \<notin> (\<Union>c\<in>set cs. descendants_of s c) \<longrightarrow> s' m = s m)
     \<and> (\<forall>m. m \<in> (\<Union>c\<in>set cs. descendants_of s c) \<or> matrices_current M s m
            \<longrightarrow> matrices_current M s' m)"
proof (induction cs arbitrary: s)
  case Nil
  then show ?case by (simp add: same_shape_refl)
next
  case (Cons c cs)
  show ?case
  proof (cases "updateWorldMatrix k M s c False True")
    case None
    then have "fold (updateChild k M) (c # cs) (Some s) = None"
      by (simp add: updateChild_simps fold_updateChild_None)
    then show ?thesis using Cons.prems by simp
  next
    case (Some s1)
    have pc: "parent (s c) \<noteq> Some c" using Cons.prems(2) by simp
    note one = down_pass_okD [OF ok Cons.prems(1) pc Some]
    have rest: "fold (updateChild k M) cs (Some s1) = Some s'"
      using Cons.prems(3) Some by (simp add: updateChild_simps)
    have l1: "linked s1" using one(1) Cons.prems(1) by (rule linked_same_shape)
    have p1: "\<forall>c\<in>set cs. parent (s1 c) \<noteq> Some c"
      using Cons.prems(2) by (simp add: same_shape_fields [OF one(1)])
    from Cons.IH [OF l1 p1 rest] have
      sh2: "same_shape s1 s'"
      and fr2: "\<And>m. m \<notin> (\<Union>c\<in>set cs. descendants_of s1 c) \<Longrightarrow> s' m = s1 m"
      and cu2: "\<And>m. m \<in> (\<Union>c\<in>set cs. descendants_of s1 c) \<or> matrices_current M s1 m
                  \<Longrightarrow> matrices_current M s' m"
      by blast+
    have d1: "\<And>x. descendants_of s1 x = descendants_of s x"
      using one(1) by (rule descendants_of_same_shape)
    have keep: "\<And>m. matrices_current M s m \<Longrightarrow> matrices_current M s1 m"
    proof -
      fix m assume "matrices_current M s m"
      then show "matrices_current M s1 m"
        using descendants_of_closed [OF Cons.prems(1)] one(2) one(3)
        by (rule pass_preserves_current [where D = "descendants_of s c", rotated 3])
    qed
    have "same_shape s s'" using one(1) sh2 by (rule same_shape_trans)
    moreover have "\<forall>m. m \<notin> (\<Union>c\<in>set (c # cs). descendants_of s c) \<longrightarrow> s' m = s m"
      using fr2 one(2) by (simp add: d1)
    moreover have "\<forall>m. m \<in> (\<Union>c\<in>set (c # cs). descendants_of s c) \<or> matrices_current M s m
            \<longrightarrow> matrices_current M s' m"
    proof (intro allI impI)
      fix m
      assume "m \<in> (\<Union>c\<in>set (c # cs). descendants_of s c) \<or> matrices_current M s m"
      then consider "m \<in> descendants_of s c" | "m \<in> (\<Union>c\<in>set cs. descendants_of s1 c)"
        | "matrices_current M s m"
        by (auto simp add: d1)
      then show "matrices_current M s' m"
      proof cases
        case 1
        then have "matrices_current M s1 m" by (rule one(3))
        then show ?thesis using cu2 by blast
      next
        case 2
        then show ?thesis using cu2 by blast
      next
        case 3
        then have "matrices_current M s1 m" by (rule keep)
        then show ?thesis using cu2 by blast
      qed
    qed
    ultimately show ?thesis by blast
  qed
qed

lemma down_pass_ok_all: "down_pass_ok k M"
proof (induction k)
  case 0
  show ?case by (simp add: down_pass_ok_def)
next
  case (Suc k)
  show ?case
    unfolding down_pass_ok_def
  proof (intro allI impI)
    fix s :: "'a scene" and n s'
    assume l: "linked s" and pn: "parent (s n) \<noteq> Some n"
      and ret: "updateWorldMatrix (Suc k) M s n False True = Some s'"
    define s2 where "s2 = computeWorldMatrix M (updateMatrix M s n) n"
    have sh2: "same_shape s s2" unfolding s2_def by (rule same_shape_refresh_self)
    have l2: "linked s2" using sh2 l by (rule linked_same_shape)
    have ch: "children (s2 n) = children (s n)" using sh2 by (simp add: same_shape_fields)
    have d2: "\<And>x. descendants_of s2 x = descendants_of s x"
      using sh2 by (rule descendants_of_same_shape)
    have fold: "fold (updateChild k M) (children (s n)) (Some s2) = Some s'"
      using ret ch
      by (simp add: updateWorldMatrix_Suc Let_def s2_def del: updateWorldMatrix.simps)
    have pc: "\<forall>c\<in>set (children (s n)). parent (s2 c) \<noteq> Some c"
    proof
      fix c assume c: "c \<in> set (children (s n))"
      then have "parent (s c) = Some n" using l by (simp add: linked_def)
      moreover have "c \<noteq> n" using c l pn by (auto simp add: linked_def)
      ultimately show "parent (s2 c) \<noteq> Some c" by (simp add: same_shape_fields [OF sh2])
    qed
    note all = fold_updateChild_current [OF Suc l2 pc fold, unfolded d2]
    have sh: "same_shape s2 s'"
      and fr: "\<And>m. m \<notin> (\<Union>c\<in>set (children (s n)). descendants_of s c) \<Longrightarrow> s' m = s2 m"
      and cu: "\<And>m. m \<in> (\<Union>c\<in>set (children (s n)). descendants_of s c) \<or> matrices_current M s2 m
                  \<Longrightarrow> matrices_current M s' m"
      using all by blast+
    have n2: "matrices_current M s2 n" unfolding s2_def using pn by (rule refresh_self_current)
    have "same_shape s s'" using sh2 sh by (rule same_shape_trans)
    moreover have "\<forall>m. m \<notin> descendants_of s n \<longrightarrow> s' m = s m"
    proof (intro allI impI)
      fix m assume m: "m \<notin> descendants_of s n"
      then have "m \<noteq> n" using descendants_of_self [of n s] by auto
      moreover have "m \<notin> (\<Union>c\<in>set (children (s n)). descendants_of s c)"
        using m descendants_of_child by fastforce
      ultimately show "s' m = s m" using fr by (simp add: s2_def refresh_self_other)
    qed
    moreover have "\<forall>d\<in>descendants_of s n. matrices_current M s' d"
    proof
      fix d assume "d \<in> descendants_of s n"
      from descendants_of_cases [OF this] show "matrices_current M s' d"
        using cu n2 by blast
    qed
    ultimately show "same_shape s s'
        \<and> (\<forall>m. m \<notin> descendants_of s n \<longrightarrow> s' m = s m)
        \<and> (\<forall>d\<in>descendants_of s n. matrices_current M s' d)"
      by blast
  qed
qed

text \<open>Heights: unique, and no larger above a node than at it.\<close>

lemma height_unique: "height s n h \<Longrightarrow> height s n h' \<Longrightarrow> h = h'"
proof (induction arbitrary: h' rule: height.induct)
  case (height_root s n)
  from height_root.prems height_root.hyps show ?case by (cases rule: height.cases) auto
next
  case (height_child s n p h)
  from height_child.prems show ?case
  proof (cases rule: height.cases)
    case height_root
    then show ?thesis using height_child.hyps(1) by simp
  next
    case (height_child p' h'')
    then have "p' = p" using height_child.hyps(1) by simp
    then show ?thesis using height_child height_child.IH by auto
  qed
qed

lemma ancestors_of_cases:
  assumes "a \<in> ancestors_of s n"
  shows "a = n \<or> (\<exists>p. parent (s n) = Some p \<and> a \<in> ancestors_of s p)"
proof -
  from assms have "(a, n) \<in> {(p, c). parent (s c) = Some p}\<^sup>*"
    by (simp add: ancestors_of_def)
  then show ?thesis
  proof (cases rule: rtranclE)
    case base
    then show ?thesis by simp
  next
    case (step p)
    then show ?thesis by (auto simp add: ancestors_of_def)
  qed
qed

lemma ancestors_of_height:
  assumes "height s n h"
  shows "a \<in> ancestors_of s n \<Longrightarrow> \<exists>h'\<le>h. height s a h'"
  using assms
proof (induction arbitrary: a rule: height.induct)
  case (height_root s n)
  from ancestors_of_cases [OF height_root.prems] height_root.hyps have "a = n" by auto
  then show ?case using height.height_root [of s n, OF height_root.hyps] by auto
next
  case (height_child s n p h)
  from ancestors_of_cases [OF height_child.prems] height_child.hyps(1)
  consider "a = n" | "a \<in> ancestors_of s p" by auto
  then show ?case
  proof cases
    case 1
    then show ?thesis using height.height_child [of s n p h, OF height_child.hyps(1,2)] by auto
  next
    case 2
    from height_child.IH [OF this] obtain h' where "h' \<le> h" and "height s a h'" by blast
    then show ?thesis by (intro exI [of _ h']) simp
  qed
qed

lemma up_pass_returns_height:
  "updateWorldMatrix k M s n True False = Some s' \<Longrightarrow> \<exists>h<k. height s n h"
proof (induction k arbitrary: n s')
  case 0
  then show ?case by simp
next
  case (Suc k)
  show ?case
  proof (cases "parent (s n)")
    case None
    then have "height s n 0" by (rule height_root [of s n])
    then show ?thesis by (intro exI [of _ 0]) simp
  next
    case (Some p)
    then obtain s1 where "updateWorldMatrix k M s p True False = Some s1"
      using Suc.prems
      by (auto simp add: updateWorldMatrix_Suc simp del: updateWorldMatrix.simps
               split: option.splits)
    from Suc.IH [OF this] obtain h where "h < k" and "height s p h" by blast
    then show ?thesis using height_child [of s n p h, OF Some] by (intro exI [of _ "Suc h"]) simp
  qed
qed

text \<open>The walk up leaves the node and all its ancestors current.\<close>

lemma up_pass_current:
  "height s n h \<Longrightarrow> h < k \<Longrightarrow>
     \<exists>s'. updateWorldMatrix k M s n True False = Some s'
          \<and> (\<forall>a\<in>ancestors_of s n. matrices_current M s' a)"
proof (induction arbitrary: k rule: height.induct)
  case (height_root s n)
  then obtain j where k: "k = Suc j" by (cases k) auto
  have ret: "updateWorldMatrix k M s n True False = Some (computeWorldMatrix M (updateMatrix M s n) n)"
    using height_root.hyps by (simp add: k updateWorldMatrix_Suc del: updateWorldMatrix.simps)
  have "matrices_current M (computeWorldMatrix M (updateMatrix M s n) n) n"
    using height_root.hyps by (intro refresh_self_current) simp
  moreover have "\<And>a. a \<in> ancestors_of s n \<Longrightarrow> a = n"
    using ancestors_of_cases height_root.hyps by fastforce
  ultimately show ?case using ret by auto
next
  case (height_child s n p h)
  then obtain j where k: "k = Suc j" and hj: "h < j" by (cases k) auto
  from height_child.IH [OF hj] obtain s1 where
    up: "updateWorldMatrix j M s p True False = Some s1"
    and cur: "\<And>a. a \<in> ancestors_of s p \<Longrightarrow> matrices_current M s1 a"
    by blast
  have sh: "same_shape s s1" using up by (rule same_shape_up_pass)
  have hn: "height s n (Suc h)" using height_child.hyps(1,2) by (rule height.height_child [of s n p h])
  have pn: "parent (s1 n) = Some p" using sh height_child.hyps(1) by (simp add: same_shape_fields)
  have "p \<noteq> n"
  proof
    assume "p = n"
    then have "height s n h" using height_child.hyps(2) by simp
    from height_unique [OF hn this] show False by simp
  qed
  define s' where "s' = computeWorldMatrix M (updateMatrix M s1 n) n"
  have ret: "updateWorldMatrix k M s n True False = Some s'"
    using height_child.hyps(1) up
    by (simp add: k updateWorldMatrix_Suc s'_def del: updateWorldMatrix.simps)
  have n': "matrices_current M s' n"
    unfolding s'_def using pn \<open>p \<noteq> n\<close> by (intro refresh_self_current) simp
  have "\<forall>a\<in>ancestors_of s n. matrices_current M s' a"
  proof
    fix a assume "a \<in> ancestors_of s n"
    from ancestors_of_cases [OF this] height_child.hyps(1)
    consider "a = n" | "a \<in> ancestors_of s p" by auto
    then show "matrices_current M s' a"
    proof cases
      case 1
      then show ?thesis using n' by simp
    next
      case 2
      from ancestors_of_height [OF height_child.hyps(2) 2] obtain h' where
        h': "h' \<le> h" and ha: "height s a h'" by blast
      have an: "a \<noteq> n"
      proof
        assume "a = n"
        then have "height s n h'" using ha by simp
        from height_unique [OF hn this] show False using h' by simp
      qed
      have a1: "matrices_current M s1 a" using 2 by (rule cur)
      have same: "s' a = s1 a" using an by (simp add: s'_def refresh_self_other)
      show ?thesis
      proof (cases "parent (s a)")
        case None
        then have "parent (s1 a) = None" using sh by (simp add: same_shape_fields)
        then show ?thesis using a1 same by (simp add: matrices_current_def)
      next
        case (Some q)
        have "q \<noteq> n"
        proof
          assume "q = n"
          then have "parent (s a) = Some n" using Some by simp
          then have "height s a (Suc (Suc h))" using hn by (rule height.height_child [of s a n "Suc h"])
          from height_unique [OF ha this] show False using h' by simp
        qed
        then have "s' q = s1 q" by (simp add: s'_def refresh_self_other)
        moreover have "parent (s1 a) = Some q" using Some sh by (simp add: same_shape_fields)
        ultimately show ?thesis using a1 same by (simp add: matrices_current_def)
      qed
    qed
  qed
  then show ?case using ret by blast
qed

text \<open>A refresh changes local and world matrices only.\<close>

lemma fold_updateChild_same_shape:
  assumes step: "\<And>sa c sb. updateWorldMatrix k M sa c False True = Some sb \<Longrightarrow> same_shape sa sb"
  shows "fold (updateChild k M) cs (Some s) = Some s' \<Longrightarrow> same_shape s s'"
proof (induction cs arbitrary: s)
  case Nil
  then show ?case by (simp add: same_shape_refl)
next
  case (Cons c cs)
  show ?case
  proof (cases "updateWorldMatrix k M s c False True")
    case None
    then have "fold (updateChild k M) (c # cs) (Some s) = None"
      by (simp add: updateChild_simps fold_updateChild_None)
    then show ?thesis using Cons.prems by simp
  next
    case (Some s1)
    then have "fold (updateChild k M) cs (Some s1) = Some s'"
      using Cons.prems by (simp add: updateChild_simps)
    from step [OF Some] Cons.IH [OF this] show ?thesis by (rule same_shape_trans)
  qed
qed

lemma updateWorldMatrix_same_shape:
  "updateWorldMatrix k M s n up down = Some s' \<Longrightarrow> same_shape s s'"
proof (induction k arbitrary: s n up down s')
  case 0
  then show ?case by simp
next
  case (Suc k)
  from Suc.prems obtain s1 where
    first: "(if up \<and> parent (s n) \<noteq> None
             then updateWorldMatrix k M s (the (parent (s n))) True False else Some s) = Some s1"
    and rest: "(if down
                then fold (updateChild k M)
                       (children (computeWorldMatrix M (updateMatrix M s1 n) n n))
                       (Some (computeWorldMatrix M (updateMatrix M s1 n) n))
                else Some (computeWorldMatrix M (updateMatrix M s1 n) n)) = Some s'"
    by (auto simp add: updateWorldMatrix_Suc Let_def simp del: updateWorldMatrix.simps
             split: option.splits)
  have a: "same_shape s s1"
    using first Suc.IH by (auto simp add: same_shape_refl split: if_splits)
  have b: "same_shape s1 (computeWorldMatrix M (updateMatrix M s1 n) n)"
    by (rule same_shape_refresh_self)
  have c: "same_shape (computeWorldMatrix M (updateMatrix M s1 n) n) s'"
  proof (cases down)
    case True
    then have "fold (updateChild k M)
                 (children (computeWorldMatrix M (updateMatrix M s1 n) n n))
                 (Some (computeWorldMatrix M (updateMatrix M s1 n) n)) = Some s'"
      using rest by simp
    then show ?thesis using Suc.IH by (rule fold_updateChild_same_shape [rotated])
  next
    case False
    then show ?thesis using rest by (simp add: same_shape_refl)
  qed
  from a b c show ?case by (blast intro: same_shape_trans)
qed

text \<open>The walk down returns when the hierarchy below the node has fewer levels than the
  fuel.\<close>

lemma levels_below_same_shape:
  "same_shape s s' \<Longrightarrow> levels_below s' n k = levels_below s n k"
  by (induction k arbitrary: n) (simp_all add: same_shape_fields)

lemma fold_updateChild_returns:
  assumes step: "\<And>sa c. levels_below sa c k \<Longrightarrow> \<exists>sb. updateWorldMatrix k M sa c False True = Some sb"
  shows "\<forall>c\<in>set cs. levels_below s c k \<Longrightarrow> \<exists>s'. fold (updateChild k M) cs (Some s) = Some s'"
proof (induction cs arbitrary: s)
  case Nil
  then show ?case by simp
next
  case (Cons c cs)
  then have "levels_below s c k" by simp
  from step [OF this] obtain s1 where one: "updateWorldMatrix k M s c False True = Some s1"
    by blast
  then have "same_shape s s1" by (rule updateWorldMatrix_same_shape)
  then have "\<forall>c\<in>set cs. levels_below s1 c k"
    using Cons.prems by (simp add: levels_below_same_shape)
  from Cons.IH [OF this] show ?case using one by (simp add: updateChild_simps)
qed

lemma down_pass_returns:
  "levels_below s n k \<Longrightarrow> \<exists>s'. updateWorldMatrix k M s n False True = Some s'"
proof (induction k arbitrary: s n)
  case 0
  then show ?case by simp
next
  case (Suc k)
  let ?s2 = "computeWorldMatrix M (updateMatrix M s n) n"
  have sh: "same_shape s ?s2" by (rule same_shape_refresh_self)
  have "\<forall>c\<in>set (children (?s2 n)). levels_below ?s2 c k"
    using Suc.prems by (simp add: levels_below_same_shape [OF sh] same_shape_fields [OF sh])
  with Suc.IH have "\<exists>s'. fold (updateChild k M) (children (?s2 n)) (Some ?s2) = Some s'"
    by (rule fold_updateChild_returns)
  then show ?case by (simp add: updateWorldMatrix_Suc Let_def del: updateWorldMatrix.simps)
qed

lemma updateWorldMatrix_returns:
  assumes "up \<Longrightarrow> \<exists>h<k. height s n h" and "down \<Longrightarrow> levels_below s n k" and "0 < k"
  shows "\<exists>s'. updateWorldMatrix k M s n up down = Some s'"
proof -
  from assms(3) obtain j where k: "k = Suc j" by (cases k) auto
  have "\<exists>s1. (if up \<and> parent (s n) \<noteq> None
             then updateWorldMatrix j M s (the (parent (s n))) True False else Some s) = Some s1"
  proof (cases "up \<and> parent (s n) \<noteq> None")
    case True
    then obtain p where p: "parent (s n) = Some p" by auto
    from True assms(1) obtain h where hk: "h < k" and hn: "height s n h" by blast
    from hn p obtain h' where hp: "height s p h'" and "h = Suc h'"
      by (cases rule: height.cases) auto
    then have "h' < j" using hk k by simp
    from up_pass_current [OF hp this, of M] show ?thesis using True p by auto
  next
    case False
    then show ?thesis by auto
  qed
  then obtain s1 where first: "(if up \<and> parent (s n) \<noteq> None
             then updateWorldMatrix j M s (the (parent (s n))) True False else Some s) = Some s1"
    by blast
  have sh1: "same_shape s s1"
    using first by (auto simp add: same_shape_refl updateWorldMatrix_same_shape split: if_splits)
  let ?s2 = "computeWorldMatrix M (updateMatrix M s1 n) n"
  have sh: "same_shape s ?s2"
    using sh1 same_shape_refresh_self by (rule same_shape_trans)
  show ?thesis
  proof (cases down)
    case True
    then have "\<forall>c\<in>set (children (?s2 n)). levels_below ?s2 c j"
      using assms(2) k by (simp add: levels_below_same_shape [OF sh] same_shape_fields [OF sh])
    with down_pass_returns
    have "\<exists>s'. fold (updateChild j M) (children (?s2 n)) (Some ?s2) = Some s'"
      by (rule fold_updateChild_returns)
    then show ?thesis using first True
      by (simp add: k updateWorldMatrix_Suc Let_def del: updateWorldMatrix.simps)
  next
    case False
    then show ?thesis using first
      by (simp add: k updateWorldMatrix_Suc Let_def del: updateWorldMatrix.simps)
  qed
qed

text \<open>
  Claim C2, as amended. In a store where parent references and children lists agree, as
  \<open>add\<close> and \<open>remove\<close> keep them, take a node that is not its own parent. Whenever
  \<open>updateWorldMatrix\<close> returns on it, positions, rotations, scales and the hierarchy are as
  before, and every visited node (the node, its ancestors when the walk up is asked for,
  its descendants when the walk down is) has as its local matrix the product
  T(position) \<times> Rz \<times> Ry \<times> Rx \<times> S(scale) and as its world matrix its parent's world matrix
  times its local matrix, or its local matrix when it has no parent. The call returns
  whenever the fuel is positive, exceeds the number of parent references above the node if
  it walks up, and exceeds the number of levels below the node if it walks down.
\<close>

theorem updateWorldMatrix_visited_current:
  assumes "linked s" and "parent (s n) \<noteq> Some n"
  shows "(\<forall>s'. updateWorldMatrix k M s n up down = Some s' \<longrightarrow>
            same_shape s s'
            \<and> (\<forall>v\<in>visited s n up down.
                  localMatrix (s' v) = trs M (s v)
                  \<and> worldMatrix (s' v) =
                      (case parent (s v) of
                         None \<Rightarrow> localMatrix (s' v)
                       | Some p \<Rightarrow> m_multiply M (worldMatrix (s' p)) (localMatrix (s' v)))))
       \<and> ((up \<longrightarrow> (\<exists>h<k. height s n h)) \<and> (down \<longrightarrow> levels_below s n k) \<and> 0 < k \<longrightarrow>
            (\<exists>s'. updateWorldMatrix k M s n up down = Some s'))"
proof (intro conjI allI impI)
  assume "(up \<longrightarrow> (\<exists>h<k. height s n h)) \<and> (down \<longrightarrow> levels_below s n k) \<and> 0 < k"
  then show "\<exists>s'. updateWorldMatrix k M s n up down = Some s'"
    by (intro updateWorldMatrix_returns) auto
next
  fix s'
  assume ret: "updateWorldMatrix k M s n up down = Some s'"
  then show "same_shape s s'" by (rule updateWorldMatrix_same_shape)
next
  fix s'
  assume ret: "updateWorldMatrix k M s n up down = Some s'"
  have sh: "same_shape s s'" using ret by (rule updateWorldMatrix_same_shape)
  from ret obtain j where k: "k = Suc j" by (cases k) auto
  from ret obtain s1 where
    first: "(if up \<and> parent (s n) \<noteq> None
             then updateWorldMatrix j M s (the (parent (s n))) True False else Some s) = Some s1"
    and rest: "(if down
                then fold (updateChild j M)
                       (children (computeWorldMatrix M (updateMatrix M s1 n) n n))
                       (Some (computeWorldMatrix M (updateMatrix M s1 n) n))
                else Some (computeWorldMatrix M (updateMatrix M s1 n) n)) = Some s'"
    unfolding k
    by (auto simp add: updateWorldMatrix_Suc Let_def simp del: updateWorldMatrix.simps
             split: option.splits)
  define s2 where "s2 = computeWorldMatrix M (updateMatrix M s1 n) n"
  have sh1: "same_shape s s1"
    using first by (auto simp add: same_shape_refl updateWorldMatrix_same_shape split: if_splits)
  have sh2: "same_shape s s2"
    unfolding s2_def using sh1 same_shape_refresh_self by (rule same_shape_trans)
  have l2: "linked s2" using sh2 assms(1) by (rule linked_same_shape)
  have n2: "matrices_current M s2 n"
  proof -
    have "parent (s1 n) \<noteq> Some n" using assms(2) by (simp add: same_shape_fields [OF sh1])
    then show ?thesis unfolding s2_def by (rule refresh_self_current)
  qed
  have a2: "\<forall>a\<in>ancestors_of s n. up \<longrightarrow> matrices_current M s2 a"
  proof (intro ballI impI)
    fix a assume a: "a \<in> ancestors_of s n" and up
    then have r: "updateWorldMatrix (Suc j) M s n True False = Some s2"
      using first by (simp add: updateWorldMatrix_Suc Let_def s2_def del: updateWorldMatrix.simps)
    from up_pass_returns_height [OF r] obtain h where "h < Suc j" and "height s n h" by blast
    from up_pass_current [OF this(2,1), of M] r a show "matrices_current M s2 a" by auto
  qed
  have cur: "\<forall>v\<in>visited s n up down. matrices_current M s' v"
  proof (cases down)
    case False
    then have "s' = s2" using rest by (simp add: s2_def)
    then show ?thesis using n2 a2 False by (auto simp add: visited_def)
  next
    case True
    have ch: "children (s2 n) = children (s n)" using sh2 by (simp add: same_shape_fields)
    have d2: "\<And>x. descendants_of s2 x = descendants_of s x"
      using sh2 by (rule descendants_of_same_shape)
    have fold: "fold (updateChild j M) (children (s n)) (Some s2) = Some s'"
      using rest True ch by (simp add: s2_def)
    have pc: "\<forall>c\<in>set (children (s n)). parent (s2 c) \<noteq> Some c"
    proof
      fix c assume c: "c \<in> set (children (s n))"
      then have "parent (s c) = Some n" using assms(1) by (simp add: linked_def)
      moreover have "c \<noteq> n" using c assms by (auto simp add: linked_def)
      ultimately show "parent (s2 c) \<noteq> Some c" by (simp add: same_shape_fields [OF sh2])
    qed
    note all = fold_updateChild_current [OF down_pass_ok_all l2 pc fold, unfolded d2]
    have keep: "\<And>m. m \<in> (\<Union>c\<in>set (children (s n)). descendants_of s c) \<or> matrices_current M s2 m
                  \<Longrightarrow> matrices_current M s' m"
      using all by blast
    show ?thesis
    proof
      fix v assume "v \<in> visited s n up down"
      then consider "v = n" | "up" "v \<in> ancestors_of s n" | "v \<in> descendants_of s n"
        by (auto simp add: visited_def split: if_splits)
      then show "matrices_current M s' v"
      proof cases
        case 1
        then show ?thesis using keep n2 by blast
      next
        case 2
        then show ?thesis using keep a2 by blast
      next
        case 3
        from descendants_of_cases [OF this] show ?thesis using keep n2 by blast
      qed
    qed
  qed
  show "\<forall>v\<in>visited s n up down.
           localMatrix (s' v) = trs M (s v)
           \<and> worldMatrix (s' v) =
               (case parent (s v) of
                  None \<Rightarrow> localMatrix (s' v)
                | Some p \<Rightarrow> m_multiply M (worldMatrix (s' p)) (localMatrix (s' v)))"
    using cur by (simp add: matrices_current_def trs_same_shape [OF sh] same_shape_fields [OF sh])
qed

lemma rig_scene_linked: "linked rig_scene"
  unfolding linked_def
  by (auto simp add: rig_scene_def scene0_def add_def add_steps_def remove_steps_def
      new_Object3D_def Let_def split: if_splits)

lemma rig_scene_shape:
  "height rig_scene 5 0" "levels_below rig_scene 5 2"
  "7 \<in> descendants_of rig_scene 5" "5 \<in> ancestors_of rig_scene 5"
proof -
  show "height rig_scene 5 0" by (rule height_root) (simp add: rig_scene_fields)
  show "levels_below rig_scene 5 2" by (simp add: numeral_2_eq_2 rig_scene_fields)
  have "(5, 7) \<in> {(p, c). c \<in> set (children (rig_scene p))}" by (simp add: rig_scene_fields)
  then show "7 \<in> descendants_of rig_scene 5" unfolding descendants_of_def by blast
  show "5 \<in> ancestors_of rig_scene 5" by (simp add: ancestors_of_def)
qed

text \<open>
  The theorem on the rig of \<open>rig_scene\<close>, refreshed with both walks: the call returns, the
  rig has the translation by (1,0,0) as its local and world matrix, and the camera below it
  the identity as its local matrix and the rig's translation as its world matrix.
\<close>

theorem updateWorldMatrix_visited_current_witness:
  "\<exists>s'. updateWorldMatrix 2 std_matrix rig_scene 5 True True = Some s'
      \<and> localMatrix (s' 5) = mat4_translation (V3 1 0 0)
      \<and> worldMatrix (s' 5) = mat4_translation (V3 1 0 0)
      \<and> localMatrix (s' 7) = mat4_identity
      \<and> worldMatrix (s' 7) = mat4_translation (V3 1 0 0)"
proof -
  have np: "parent (rig_scene 5) \<noteq> Some 5" by (simp add: rig_scene_fields)
  note inst = updateWorldMatrix_visited_current [OF rig_scene_linked np,
      of 2 std_matrix True True]
  have "\<exists>h<2. height rig_scene 5 h" using rig_scene_shape(1) by (intro exI [of _ 0]) simp
  then obtain s' where ret: "updateWorldMatrix 2 std_matrix rig_scene 5 True True = Some s'"
    using inst rig_scene_shape(2) by auto
  have v: "5 \<in> visited rig_scene 5 True True" "7 \<in> visited rig_scene 5 True True"
    using rig_scene_shape(3) by (simp_all add: visited_def)
  have t5: "trs std_matrix (rig_scene 5) = mat4_translation (V3 1 0 0)"
    and t7: "trs std_matrix (rig_scene 7) = mat4_identity"
    by (simp_all add: trs_std_translation rig_scene_fields mat4_translation_zero)
  from inst ret v have
    l5: "localMatrix (s' 5) = trs std_matrix (rig_scene 5)"
    and w5: "worldMatrix (s' 5) = localMatrix (s' 5)"
    and l7: "localMatrix (s' 7) = trs std_matrix (rig_scene 7)"
    and w7: "worldMatrix (s' 7) = m_multiply std_matrix (worldMatrix (s' 5)) (localMatrix (s' 7))"
    by (auto simp add: rig_scene_fields)
  have "m_multiply std_matrix (mat4_translation (V3 1 0 0)) mat4_identity
          = mat4_translation (V3 1 0 0)"
    by (simp add: std_matrix_def mat4_defs V3_def)
  then show ?thesis using ret l5 w5 l7 w7 by (simp add: t5 t7)
qed

lemma self_scene_fields:
  "parent (self_scene 5) = Some 5" "children (self_scene 5) = [5]"
  "position (self_scene 5) = V3 1 0 0" "rotation (self_scene 5) = V3 0 0 0"
  "scale (self_scene 5) = V3 1 1 1" "worldMatrix (self_scene 5) = mat4_identity"
  by (simp_all add: self_scene_def scene0_def add_def add_steps_def remove_steps_def
      new_Object3D_def Let_def std_matrix_def)

lemma self_scene_linked: "linked self_scene"
  unfolding linked_def
  by (auto simp add: self_scene_def scene0_def add_def add_steps_def remove_steps_def
      new_Object3D_def Let_def split: if_splits)

text \<open>
  Claim C2 as the specification states it fails on an object that is its own parent, which
  \<open>add\<close> permits: \<open>updateWorldMatrix(false, false)\<close> on the object of \<open>self_scene\<close> returns
  and leaves it with the translation by (1,0,0) as its world matrix, while its parent's
  world matrix times its local matrix is the translation by (2,0,0).
\<close>

theorem updateWorldMatrix_self_parent_counterexample:
  "linked self_scene
   \<and> updateWorldMatrix 1 std_matrix self_scene 5 False False \<noteq> None
   \<and> 5 \<in> visited self_scene 5 False False
   \<and> parent (the (updateWorldMatrix 1 std_matrix self_scene 5 False False) 5) = Some 5
   \<and> localMatrix (the (updateWorldMatrix 1 std_matrix self_scene 5 False False) 5)
       = mat4_translation (V3 1 0 0)
   \<and> worldMatrix (the (updateWorldMatrix 1 std_matrix self_scene 5 False False) 5)
       = mat4_translation (V3 1 0 0)
   \<and> m_multiply std_matrix
        (worldMatrix (the (updateWorldMatrix 1 std_matrix self_scene 5 False False) 5))
        (localMatrix (the (updateWorldMatrix 1 std_matrix self_scene 5 False False) 5))
       = mat4_translation (V3 2 0 0)
   \<and> mat4_translation (V3 1 0 0) \<noteq> mat4_translation (V3 2 0 0)"
proof -
  have r: "updateWorldMatrix 1 std_matrix self_scene 5 False False
      = Some (computeWorldMatrix std_matrix (updateMatrix std_matrix self_scene 5) 5)"
    using updateWorldMatrix_self_only [of 0 std_matrix self_scene 5] by simp
  have t: "trs std_matrix (self_scene 5) = mat4_translation (V3 1 0 0)"
    by (simp add: trs_std_translation self_scene_fields)
  have m1: "m_multiply std_matrix mat4_identity (mat4_translation (V3 1 0 0))
      = mat4_translation (V3 1 0 0)"
    by (simp add: std_matrix_def mat4_defs V3_def)
  have m2: "m_multiply std_matrix (mat4_translation (V3 1 0 0)) (mat4_translation (V3 1 0 0))
      = mat4_translation (V3 2 0 0)"
    by (simp add: std_matrix_def mat4_defs V3_def)
  have ne: "mat4_translation (V3 1 0 0) \<noteq> mat4_translation (V3 2 0 0)"
    by (simp add: mat4_translation_def V3_def)
  show ?thesis
    using self_scene_linked ne
    by (simp add: r refresh_self_exact self_scene_fields t m1 m2 visited_def)
qed

section \<open>What \<open>Renderer.render\<close> refreshes\<close>

text \<open>
  C7, as the code has it. \<open>render\<close>'s two refreshes return whenever the hierarchy below the
  scene has fewer levels than the fuel. When they return, the camera's own refresh has
  written the camera and nothing else: every other object, ancestors and descendants of
  the camera included, is as the scene's refresh left it. The camera's local matrix is
  recomputed from its position, rotation and scale, and its world matrix is its parent's
  world matrix, as the scene's refresh left it, times that local matrix (the local matrix
  itself without a parent).
\<close>

theorem render_refreshes_camera_only:
  "(levels_below s scene k \<longrightarrow> (\<exists>s'. render_refresh k M s scene camera = Some s'))
   \<and> (\<forall>s'. render_refresh k M s scene camera = Some s' \<longrightarrow>
         (\<exists>s1. updateMatrixWorld k M s scene = Some s1
            \<and> updateWorldMatrix k M s1 camera False False = Some s'
            \<and> (\<forall>q. q \<noteq> camera \<longrightarrow> s' q = s1 q)
            \<and> s' camera =
                (s1 camera)\<lparr>localMatrix := trs M (s1 camera),
                             worldMatrix :=
                               (case parent (s1 camera) of
                                  None \<Rightarrow> trs M (s1 camera)
                                | Some p \<Rightarrow> m_multiply M (worldMatrix (s1 p)) (trs M (s1 camera)))\<rparr>))"
proof (intro conjI allI impI)
  assume lv: "levels_below s scene k"
  then obtain j where k: "k = Suc j" by (cases k) auto
  from down_pass_returns [OF lv, of M] obtain s1 where
    "updateWorldMatrix k M s scene False True = Some s1"
    by blast
  then show "\<exists>s'. render_refresh k M s scene camera = Some s'"
    by (simp add: render_refresh_def updateMatrixWorld_def k updateWorldMatrix_self_only
             del: updateWorldMatrix.simps)
next
  fix s'
  assume ret: "render_refresh k M s scene camera = Some s'"
  from ret obtain s1 where s1: "updateMatrixWorld k M s scene = Some s1"
    and c: "updateWorldMatrix k M s1 camera False False = Some s'"
    by (cases "updateMatrixWorld k M s scene") (simp_all add: render_refresh_def)
  from c obtain j where k: "k = Suc j" by (cases k) simp_all
  from c have s': "s' = computeWorldMatrix M (updateMatrix M s1 camera) camera"
    by (simp add: k updateWorldMatrix_self_only)
  have "\<forall>q. q \<noteq> camera \<longrightarrow> s' q = s1 q" by (simp add: s' refresh_self_exact)
  moreover have "s' camera =
         (s1 camera)\<lparr>localMatrix := trs M (s1 camera),
                      worldMatrix := (case parent (s1 camera) of
                                        None \<Rightarrow> trs M (s1 camera)
                                      | Some p \<Rightarrow> m_multiply M (worldMatrix (s1 p)) (trs M (s1 camera)))\<rparr>"
    by (simp add: s' refresh_self_exact)
  ultimately show "\<exists>s1. updateMatrixWorld k M s scene = Some s1
            \<and> updateWorldMatrix k M s1 camera False False = Some s'
            \<and> (\<forall>q. q \<noteq> camera \<longrightarrow> s' q = s1 q)
            \<and> s' camera =
                (s1 camera)\<lparr>localMatrix := trs M (s1 camera),
                             worldMatrix :=
                               (case parent (s1 camera) of
                                  None \<Rightarrow> trs M (s1 camera)
                                | Some p \<Rightarrow> m_multiply M (worldMatrix (s1 p)) (trs M (s1 camera)))\<rparr>"
    using s1 c by blast
qed

text \<open>
  The camera of \<open>rig_scene\<close> has the rig as its parent, and the rig is outside the scene.
  After \<open>render\<close>'s two refreshes the rig is exactly as before, with a local matrix that is
  not the one of its position; \<open>updateWorldMatrix(true, false)\<close> on the camera would have
  refreshed it.
\<close>

theorem render_camera_ancestors_counterexample:
  "render_refresh 2 std_matrix rig_scene 0 7 \<noteq> None
   \<and> 5 \<in> ancestors_of rig_scene 7
   \<and> the (render_refresh 2 std_matrix rig_scene 0 7) 5 = rig_scene 5
   \<and> \<not> matrices_current std_matrix (the (render_refresh 2 std_matrix rig_scene 0 7)) 5
   \<and> updateWorldMatrix 2 std_matrix rig_scene 7 True False \<noteq> None
   \<and> matrices_current std_matrix (the (updateWorldMatrix 2 std_matrix rig_scene 7 True False)) 5"
proof -
  let ?s1 = "computeWorldMatrix std_matrix (updateMatrix std_matrix rig_scene 0) 0"
  let ?s' = "computeWorldMatrix std_matrix (updateMatrix std_matrix ?s1 7) 7"
  have same: "?s' 5 = rig_scene 5" by (simp add: refresh_self_other)
  have stale: "\<not> matrices_current std_matrix ?s' 5"
    using rig_not_identity
    by (simp add: matrices_current_def same trs_std_translation rig_scene_fields)
  from rig_refreshed_by_walk_up obtain s'' where
    up: "updateWorldMatrix 2 std_matrix rig_scene 7 True False = Some s''"
    and cur: "matrices_current std_matrix s'' 5"
    by blast
  show ?thesis
    using rig_is_ancestor same stale cur
    by (simp add: rig_scene_render_refresh up)
qed

theorem render_refreshes_camera_only_witness:
  "\<exists>s'. render_refresh 2 std_matrix rig_scene 0 7 = Some s'
      \<and> s' 5 = rig_scene 5 \<and> s' 0 \<noteq> s' 7 \<and> localMatrix (s' 7) = mat4_identity
      \<and> worldMatrix (s' 7) = mat4_identity"
proof -
  let ?s1 = "computeWorldMatrix std_matrix (updateMatrix std_matrix rig_scene 0) 0"
  let ?s' = "computeWorldMatrix std_matrix (updateMatrix std_matrix ?s1 7) 7"
  from render_refreshes_camera_only [THEN conjunct2, rule_format, OF rig_scene_render_refresh]
  obtain s1 where s1: "updateMatrixWorld 2 std_matrix rig_scene 0 = Some s1"
    and other: "\<forall>q. q \<noteq> 7 \<longrightarrow> ?s' q = s1 q"
    and cam: "?s' 7 =
         (s1 7)\<lparr>localMatrix := trs std_matrix (s1 7),
                 worldMatrix := (case parent (s1 7) of
                                   None \<Rightarrow> trs std_matrix (s1 7)
                                 | Some p \<Rightarrow> m_multiply std_matrix (worldMatrix (s1 p)) (trs std_matrix (s1 7)))\<rparr>"
    by blast
  from s1 have e: "s1 = ?s1" by (simp add: rig_scene_refresh_scene)
  have f2: "s1 7 = rig_scene 7" and f1: "s1 5 = rig_scene 5" by (simp_all add: e refresh_self_other)
  have t2: "trs std_matrix (rig_scene 7) = mat4_identity"
    by (simp add: trs_std_translation rig_scene_fields mat4_translation_zero)
  have a: "?s' 5 = rig_scene 5" using other f1 by simp
  have l: "localMatrix (?s' 7) = mat4_identity" by (simp add: cam f2 t2)
  have "worldMatrix (?s' 7) = m_multiply std_matrix mat4_identity mat4_identity"
    by (simp add: cam f2 f1 t2 rig_scene_fields)
  also have "\<dots> = mat4_identity"
    by (simp add: std_matrix_def mat4_identity_def mat4_multiply_def mat4_entry_def)
  finally have w: "worldMatrix (?s' 7) = mat4_identity" .
  have "parent (?s' 0) \<noteq> parent (?s' 7)" by (simp add: refresh_self_exact rig_scene_fields)
  then have n: "?s' 0 \<noteq> ?s' 7" by auto
  show ?thesis using rig_scene_render_refresh a l w n by blast
qed

end
